(* ===== verification/Prelude.thy ===== *)
theory Prelude
  imports Main "HOL-Library.Word"
begin

text \<open>
  Shared vocabulary of the development: byte strings, the part of the C++ string library that the
  sources use (\<^verbatim>\<open>std::string::find\<close>, \<^verbatim>\<open>substr\<close>, \<^verbatim>\<open>tolower\<close>, \<^verbatim>\<open>stoi\<close>, \<^verbatim>\<open>atoi\<close>),
  two's-complement casts, and the generic list lemmas the component theories rely on.
  A position \<^verbatim>\<open>std::string::npos\<close> is \<^term>\<open>None\<close>.
\<close>

named_theorems cstring \<open>facts about the C++ string search functions\<close>

type_synonym bytes = "char list"

text \<open>C++ exceptions that can leave a modelled function. \<open>Undefined\<close> marks undefined behaviour
  (a dangling pointer, an invalid future, a failed \<^verbatim>\<open>assert\<close>) at the named place.\<close>

datatype cpp_exn =
    Socket_exception string
  | Runtime_error string
  | Invalid_argument string
  | Std_out_of_range string
  | Length_error string
  | Filesystem_error string
  | Future_error string
  | Undefined string

subsection \<open>Integers of a fixed width\<close>

definition wrap_int :: "nat \<Rightarrow> int \<Rightarrow> int" where
  "wrap_int w x = (x + 2 ^ (w - 1)) mod 2 ^ w - 2 ^ (w - 1)"

definition in_int :: "nat \<Rightarrow> int \<Rightarrow> bool" where
  "in_int w x \<longleftrightarrow> - (2 ^ (w - 1)) \<le> x \<and> x < 2 ^ (w - 1)"

lemma wrap_int_id: "0 < w \<Longrightarrow> in_int w x \<Longrightarrow> wrap_int w x = x"
proof -
  assume w: "0 < w" and x: "in_int w x"
  from w have "(2::int) ^ w = 2 * 2 ^ (w - 1)"
    by (cases w) simp_all
  with x show "wrap_int w x = x"
    by (simp add: wrap_int_def in_int_def)
qed

lemma wrap_int_in: "0 < w \<Longrightarrow> in_int w (wrap_int w x)"
proof -
  assume "0 < w"
  then have e: "(2::int) ^ w = 2 * 2 ^ (w - 1)"
    by (cases w) simp_all
  have "0 \<le> (x + 2 ^ (w - 1)) mod 2 ^ w" and "(x + 2 ^ (w - 1)) mod 2 ^ w < 2 ^ w"
    by simp_all
  with e show "in_int w (wrap_int w x)"
    by (simp add: wrap_int_def in_int_def)
qed

text \<open>C++ integer division truncates towards zero.\<close>

definition cdiv :: "int \<Rightarrow> int \<Rightarrow> int" where
  "cdiv a b = sgn a * sgn b * (\<bar>a\<bar> div \<bar>b\<bar>)"

lemma cdiv_nonneg: "0 \<le> a \<Longrightarrow> 0 < b \<Longrightarrow> cdiv a b = a div b"
  by (cases "a = 0") (simp_all add: cdiv_def)

subsection \<open>Searching a range of positions\<close>

lemma find_upt_Some:
  "List.find P [a..<b] = Some i \<longleftrightarrow> a \<le> i \<and> i < b \<and> P i \<and> (\<forall>j. a \<le> j \<and> j < i \<longrightarrow> \<not> P j)"
proof (induction "b - a" arbitrary: a)
  case 0
  then show ?case by simp
next
  case (Suc n)
  then have lt: "a < b" and n: "n = b - Suc a" by simp_all
  show ?case
  proof (cases "P a")
    case True
    with lt show ?thesis by (auto simp: upt_rec[of a b] dest: le_neq_implies_less)
  next
    case False
    with lt have "List.find P [a..<b] = List.find P [Suc a..<b]"
      by (simp add: upt_rec[of a b])
    also have "\<dots> = Some i \<longleftrightarrow> Suc a \<le> i \<and> i < b \<and> P i \<and> (\<forall>j. Suc a \<le> j \<and> j < i \<longrightarrow> \<not> P j)"
      by (rule Suc.hyps(1)[OF n])
    finally show ?thesis
      using False by (auto simp: Suc_le_eq dest: le_neq_implies_less)
  qed
qed

lemma find_upt_None: "List.find P [a..<b] = None \<longleftrightarrow> (\<forall>j. a \<le> j \<and> j < b \<longrightarrow> \<not> P j)"
  by (auto simp: find_None_iff)

subsection \<open>The C++ string functions\<close>

definition find_char :: "char \<Rightarrow> string \<Rightarrow> nat \<Rightarrow> nat option" where
  "find_char c s from = List.find (\<lambda>i. s ! i = c) [from..<length s]"

definition rfind_char :: "char \<Rightarrow> string \<Rightarrow> nat option" where
  "rfind_char c s = List.find (\<lambda>i. s ! i = c) (rev [0..<length s])"

definition find_str :: "string \<Rightarrow> string \<Rightarrow> nat \<Rightarrow> nat option" where
  "find_str pat s from =
     List.find (\<lambda>i. take (length pat) (drop i s) = pat) [from..<Suc (length s)]"

definition find_first_of :: "string \<Rightarrow> string \<Rightarrow> nat \<Rightarrow> nat option" where
  "find_first_of cs s from = List.find (\<lambda>i. s ! i \<in> set cs) [from..<length s]"

definition find_last_of :: "string \<Rightarrow> string \<Rightarrow> nat option" where
  "find_last_of cs s = List.find (\<lambda>i. s ! i \<in> set cs) (rev [0..<length s])"

text \<open>\<^verbatim>\<open>substr(pos, n)\<close> for \<open>pos \<le> size\<close>, which holds at every use below.\<close>

definition substr :: "string \<Rightarrow> nat \<Rightarrow> nat \<Rightarrow> string" where
  "substr s pos n = take n (drop pos s)"

definition tolower_char :: "char \<Rightarrow> char" where
  "tolower_char c =
     (let n = of_char c in if 65 \<le> n \<and> n \<le> (90::nat) then char_of (n + 32) else c)"

definition tolower :: "string \<Rightarrow> string" where
  "tolower s = map tolower_char s"

text \<open>Code equations over \<open>int\<close>, whose numerals evaluate in binary.\<close>

lemma of_char_le_int:
  "(of_char c :: nat) \<le> n \<longleftrightarrow> (of_char c :: int) \<le> int n" "n \<le> (of_char c :: nat) \<longleftrightarrow> int n \<le> of_char c"
  by (metis of_nat_le_iff of_nat_of_char)+

lemma char_of_add_int: "char_of (n + 32 :: nat) = char_of (int n + 32)"
  by (metis char_of_nat of_nat_add of_nat_numeral)

lemma tolower_char_code [code]:
  "tolower_char c = (let n = of_char c :: int in if 65 \<le> n \<and> n \<le> 90 then char_of (n + 32) else c)"
  by (simp add: tolower_char_def Let_def of_char_le_int char_of_add_int of_nat_of_char)

lemma find_char_Some [cstring]:
  "find_char c s from = Some i \<longleftrightarrow>
     from \<le> i \<and> i < length s \<and> s ! i = c \<and> (\<forall>j. from \<le> j \<and> j < i \<longrightarrow> s ! j \<noteq> c)"
  by (simp add: find_char_def find_upt_Some)

lemma find_char_None [cstring]:
  "find_char c s from = None \<longleftrightarrow> (\<forall>j. from \<le> j \<and> j < length s \<longrightarrow> s ! j \<noteq> c)"
  by (simp add: find_char_def find_upt_None)

lemma find_char_notin: "c \<notin> set s \<Longrightarrow> find_char c s k = None"
  by (auto simp: find_char_None)

lemma find_first_of_Some [cstring]:
  "find_first_of cs s from = Some i \<longleftrightarrow>
     from \<le> i \<and> i < length s \<and> s ! i \<in> set cs \<and> (\<forall>j. from \<le> j \<and> j < i \<longrightarrow> s ! j \<notin> set cs)"
  by (simp add: find_first_of_def find_upt_Some)

lemma find_first_of_None [cstring]:
  "find_first_of cs s from = None \<longleftrightarrow> (\<forall>j. from \<le> j \<and> j < length s \<longrightarrow> s ! j \<notin> set cs)"
  by (simp add: find_first_of_def find_upt_None)

lemma find_rev_upt_Some:
  "List.find P (rev [0..<n]) = Some i \<longleftrightarrow> i < n \<and> P i \<and> (\<forall>j. i < j \<and> j < n \<longrightarrow> \<not> P j)"
proof (induction n)
  case 0
  then show ?case by simp
next
  case (Suc n)
  show ?case
  proof (cases "P n")
    case True
    then show ?thesis by (auto simp: less_Suc_eq)
  next
    case False
    with Suc show ?thesis by (auto simp: less_Suc_eq)
  qed
qed

lemma find_rev_upt_None: "List.find P (rev [0..<n]) = None \<longleftrightarrow> (\<forall>j < n. \<not> P j)"
  by (auto simp: find_None_iff)

lemma find_last_of_Some [cstring]:
  "find_last_of cs s = Some i \<longleftrightarrow>
     i < length s \<and> s ! i \<in> set cs \<and> (\<forall>j. i < j \<and> j < length s \<longrightarrow> s ! j \<notin> set cs)"
  by (simp add: find_last_of_def find_rev_upt_Some)

lemma find_last_of_None [cstring]:
  "find_last_of cs s = None \<longleftrightarrow> (\<forall>j < length s. s ! j \<notin> set cs)"
  by (simp add: find_last_of_def find_rev_upt_None)

lemma rfind_char_Some [cstring]:
  "rfind_char c s = Some i \<longleftrightarrow>
     i < length s \<and> s ! i = c \<and> (\<forall>j. i < j \<and> j < length s \<longrightarrow> s ! j \<noteq> c)"
  by (simp add: rfind_char_def find_rev_upt_Some)

lemma rfind_char_None [cstring]: "rfind_char c s = None \<longleftrightarrow> (\<forall>j < length s. s ! j \<noteq> c)"
  by (simp add: rfind_char_def find_rev_upt_None)

lemma find_str_Some [cstring]:
  "find_str pat s from = Some i \<longleftrightarrow>
     from \<le> i \<and> i < Suc (length s) \<and> take (length pat) (drop i s) = pat \<and>
     (\<forall>j. from \<le> j \<and> j < i \<longrightarrow> take (length pat) (drop j s) \<noteq> pat)"
  unfolding find_str_def by (rule find_upt_Some)

lemma find_str_None [cstring]:
  "find_str pat s from = None \<longleftrightarrow>
     (\<forall>j. from \<le> j \<and> j < Suc (length s) \<longrightarrow> take (length pat) (drop j s) \<noteq> pat)"
  unfolding find_str_def by (rule find_upt_None)

lemma length_tolower [simp]: "length (tolower s) = length s"
  by (simp add: tolower_def)

subsection \<open>Numbers in strings\<close>

definition is_space :: "char \<Rightarrow> bool" where
  "is_space c \<longleftrightarrow> (let n = of_char c in n = (32::nat) \<or> 9 \<le> n \<and> n \<le> 13)"

definition digit_val :: "char \<Rightarrow> nat option" where
  "digit_val c =
     (let n = of_char c in
      if 48 \<le> n \<and> n \<le> 57 then Some (n - 48)
      else if 65 \<le> n \<and> n \<le> 90 then Some (n - 55)
      else if 97 \<le> n \<and> n \<le> 122 then Some (n - 87)
      else None)"

definition is_digit_of :: "nat \<Rightarrow> char \<Rightarrow> bool" where
  "is_digit_of base c = (case digit_val c of None \<Rightarrow> False | Some d \<Rightarrow> d < base)"

definition digits_value :: "nat \<Rightarrow> string \<Rightarrow> nat" where
  "digits_value base ds =
     foldl (\<lambda>acc c. acc * base + (case digit_val c of None \<Rightarrow> 0 | Some d \<Rightarrow> d)) 0 ds"

text \<open>
  The subject sequence of \<^verbatim>\<open>strtol\<close>: white space, an optional sign, the prefix that base 0 or 16
  allows, then digits. \<open>None\<close> when there is no digit, otherwise the value and the rest of the string.
\<close>

definition strip_sign :: "string \<Rightarrow> bool \<times> string" where
  "strip_sign s =
     (case s of
        c # cs \<Rightarrow> if c = CHR ''-'' then (True, cs) else if c = CHR ''+'' then (False, cs) else (False, s)
      | [] \<Rightarrow> (False, []))"

definition detect_base :: "nat \<Rightarrow> string \<Rightarrow> nat \<times> string" where
  "detect_base base s =
     (if (base = 0 \<or> base = 16) \<and> 3 \<le> length s \<and> s ! 0 = CHR ''0'' \<and> s ! 1 \<in> {CHR ''x'', CHR ''X''}
         \<and> is_digit_of 16 (s ! 2) then (16, drop 2 s)
      else if base = 0 then (if s \<noteq> [] \<and> s ! 0 = CHR ''0'' then (8, s) else (10, s))
      else (base, s))"

definition strtol_parse :: "nat \<Rightarrow> string \<Rightarrow> (int \<times> string) option" where
  "strtol_parse base s =
     (let (neg, s1) = strip_sign (dropWhile is_space s);
          (b, s2) = detect_base base s1;
          ds = takeWhile (is_digit_of b) s2
      in if ds = [] then None
         else Some ((if neg then - int (digits_value b ds) else int (digits_value b ds)),
                    dropWhile (is_digit_of b) s2))"

text \<open>\<^verbatim>\<open>std::stoi\<close> and \<^verbatim>\<open>std::stoll\<close> with their two exceptions.\<close>

definition sto_int :: "nat \<Rightarrow> nat \<Rightarrow> string \<Rightarrow> cpp_exn + int" where
  "sto_int width base s =
     (case strtol_parse base s of
        None \<Rightarrow> Inl (Invalid_argument ''stoi'')
      | Some (v, _) \<Rightarrow> if in_int width v then Inr v else Inl (Std_out_of_range ''stoi''))"

abbreviation stoi :: "string \<Rightarrow> cpp_exn + int" where
  "stoi s \<equiv> sto_int 32 10 s"

text \<open>\<^verbatim>\<open>atoi\<close> is \<^verbatim>\<open>strtol\<close> (which saturates at 64 bits) narrowed to \<^verbatim>\<open>int\<close>.\<close>

definition clamp64 :: "int \<Rightarrow> int" where
  "clamp64 v = max (- (2 ^ 63)) (min (2 ^ 63 - 1) v)"

definition atoi :: "string \<Rightarrow> int" where
  "atoi s = (case strtol_parse 10 s of None \<Rightarrow> 0 | Some (v, _) \<Rightarrow> wrap_int 32 (clamp64 v))"

text \<open>\<^verbatim>\<open>std::to_string\<close> of a non-negative number.\<close>

fun nat_to_string :: "nat \<Rightarrow> string" where
  "nat_to_string n =
     (if n < 10 then [char_of (48 + n)] else nat_to_string (n div 10) @ [char_of (48 + n mod 10)])"

declare nat_to_string.simps [simp del]

definition int_to_string :: "int \<Rightarrow> string" where
  "int_to_string i = (if i < 0 then CHR ''-'' # nat_to_string (nat (- i)) else nat_to_string (nat i))"

lemma digit_val_char_of: "d < 10 \<Longrightarrow> digit_val (char_of (48 + d)) = Some d"
  by (simp add: digit_val_def Let_def)

lemma is_digit_char_of: "d < (10::nat) \<Longrightarrow> is_digit_of 10 (char_of (48 + d))"
  by (simp add: is_digit_of_def digit_val_char_of)

lemma digits_value_snoc:
  "digits_value b (ds @ [c]) = digits_value b ds * b + (case digit_val c of None \<Rightarrow> 0 | Some d \<Rightarrow> d)"
  by (simp add: digits_value_def)

lemma nat_to_string_digits: "c \<in> set (nat_to_string n) \<Longrightarrow> is_digit_of 10 c"
proof (induction n rule: nat_to_string.induct)
  case (1 n)
  then show ?case
    by (cases "n < 10") (auto simp: nat_to_string.simps[of n] is_digit_char_of)
qed

lemma nat_to_string_nonempty: "nat_to_string n \<noteq> []"
  by (subst nat_to_string.simps) simp

lemma digits_value_nat_to_string: "digits_value 10 (nat_to_string n) = n"
proof (induction n rule: nat_to_string.induct)
  case (1 n)
  show ?case
  proof (cases "n < 10")
    case True
    then show ?thesis
      by (simp add: nat_to_string.simps[of n] digits_value_def digit_val_char_of)
  next
    case False
    with 1 have "digits_value 10 (nat_to_string (n div 10)) = n div 10" by simp
    with False show ?thesis
      by (simp add: nat_to_string.simps[of n] digits_value_snoc digit_val_char_of)
  qed
qed

lemma digit_not_space_sign:
  assumes "is_digit_of 10 c"
  shows "\<not> is_space c \<and> c \<noteq> CHR ''-'' \<and> c \<noteq> CHR ''+''"
proof -
  from assms obtain d where d: "digit_val c = Some d" "d < 10"
    by (auto simp: is_digit_of_def split: option.splits)
  then have "48 \<le> (of_char c :: nat) \<and> (of_char c :: nat) \<le> 57"
    by (auto simp: digit_val_def Let_def split: if_splits)
  then show ?thesis
    by (auto simp: is_space_def Let_def)
qed

text \<open>Printing a number and reading it back with \<^verbatim>\<open>strtol\<close> gives the number.\<close>

lemma strtol_parse_nat_to_string: "strtol_parse 10 (nat_to_string n) = Some (int n, [])"
proof -
  let ?s = "nat_to_string n"
  from nat_to_string_nonempty obtain c cs where s: "?s = c # cs"
    by (cases ?s) auto
  have all: "\<forall>x \<in> set ?s. is_digit_of 10 x"
    by (simp add: nat_to_string_digits)
  then have c: "is_digit_of 10 c" by (simp add: s)
  have ss: "strip_sign (dropWhile is_space ?s) = (False, ?s)"
    using digit_not_space_sign[OF c] by (simp add: s strip_sign_def)
  have tw: "takeWhile (is_digit_of 10) ?s = ?s" and dw: "dropWhile (is_digit_of 10) ?s = []"
    using all by (simp_all add: takeWhile_eq_all_conv dropWhile_eq_Nil_conv)
  show ?thesis
    by (simp add: strtol_parse_def ss detect_base_def tw dw nat_to_string_nonempty
        digits_value_nat_to_string)
qed

lemma stoi_nat_to_string: "n < 2 ^ 31 \<Longrightarrow> stoi (nat_to_string n) = Inr (int n)"
  by (simp add: sto_int_def strtol_parse_nat_to_string in_int_def)

end
