(* ===== verification/Netaddr.thy ===== *)
theory Netaddr
  imports Prelude
begin

text \<open>
  The socket address of \<^verbatim>\<open>netaddr_any.hpp\<close>. The C union of \<^verbatim>\<open>sockaddr_in\<close>, \<^verbatim>\<open>sockaddr_in6\<close> and
  \<^verbatim>\<open>sockaddr\<close> is kept as the 28 bytes it occupies (Linux layout: family in bytes 0-1, little endian;
  port in bytes 2-3, network order; IPv4 address in 4-7; IPv6 address in 8-23), so that the code's
  reliance on the shared position of the port, its \<^verbatim>\<open>memcpy\<close> and its \<^verbatim>\<open>memcmp\<close> are what is modelled.
  The constructors that do not clear the union take the previous contents of the memory as an
  argument \<open>junk\<close>.
\<close>

type_synonym byte = "8 word"

record netaddr_any =
  storage :: "byte list"
  len :: int

definition AF_UNSPEC :: int where "AF_UNSPEC = 0"
definition AF_INET :: int where "AF_INET = 2"
definition AF_INET6 :: int where "AF_INET6 = 10"

lemmas af_defs = AF_UNSPEC_def AF_INET_def AF_INET6_def

definition sizeof_sin :: nat where "sizeof_sin = 16"
definition sizeof_sin6 :: nat where "sizeof_sin6 = 28"

lemmas sizeof_defs = sizeof_sin_def sizeof_sin6_def

text \<open>Two-byte fields: host order is little endian, network order big endian.\<close>

definition le16 :: "int \<Rightarrow> byte list" where
  "le16 v = [word_of_int (v mod 256), word_of_int (v div 256 mod 256)]"

definition of_le16 :: "byte \<Rightarrow> byte \<Rightarrow> int" where
  "of_le16 a b = uint a + 256 * uint b"

definition be16 :: "int \<Rightarrow> byte list" where
  "be16 v = [word_of_int (v div 256 mod 256), word_of_int (v mod 256)]"

definition of_be16 :: "byte \<Rightarrow> byte \<Rightarrow> int" where
  "of_be16 a b = 256 * uint a + uint b"

text \<open>\<^verbatim>\<open>memcpy\<close> of the bytes \<open>bs\<close> to offset \<open>off\<close> of a memory area.\<close>

definition poke :: "nat \<Rightarrow> byte list \<Rightarrow> byte list \<Rightarrow> byte list" where
  "poke off bs m = take off m @ bs @ drop (off + length bs) m"

text \<open>\<^verbatim>\<open>memcpy\<close> of \<open>n\<close> bytes of the memory readable at \<open>src\<close>. Bytes that are not there are not made up: a copy that
  reads past the end of \<open>src\<close> leaves an area that is too short.\<close>

definition memcpy_to :: "nat \<Rightarrow> nat \<Rightarrow> byte list \<Rightarrow> byte list \<Rightarrow> byte list" where
  "memcpy_to off n src m = take off m @ take n src @ drop (off + n) m"

subsection \<open>The operations\<close>

definition storage_size :: nat where
  "storage_size = max sizeof_sin sizeof_sin6"

definition syslen_open :: "int \<Rightarrow> int" where
  "syslen_open l = l mod 2 ^ 32"

definition syslen_close :: "int \<Rightarrow> netaddr_any \<Rightarrow> netaddr_any" where
  "syslen_close sl a = a\<lparr>len := wrap_int 32 sl\<rparr>"

definition reset :: "netaddr_any \<Rightarrow> netaddr_any" where
  "reset a = a\<lparr>storage := poke 0 (replicate sizeof_sin6 0) (storage a), len := 0\<rparr>"

definition sa_family :: "netaddr_any \<Rightarrow> int" where
  "sa_family a = of_le16 (storage a ! 0) (storage a ! 1)"

definition set_sa_family :: "int \<Rightarrow> netaddr_any \<Rightarrow> netaddr_any" where
  "set_sa_family f a = a\<lparr>storage := poke 0 (le16 f) (storage a)\<rparr>"

text \<open>The family of a \<^verbatim>\<open>sockaddr\<close> somewhere else in memory.\<close>

definition source_family :: "byte list \<Rightarrow> int" where
  "source_family src = of_le16 (src ! 0) (src ! 1)"

definition uninit :: "byte list \<Rightarrow> netaddr_any" where
  "uninit junk = \<lparr>storage = junk, len = 0\<rparr>"

definition netaddr_domain :: "byte list \<Rightarrow> int \<Rightarrow> netaddr_any" where
  "netaddr_domain junk domain =
     (let a = reset (uninit junk);
          a = set_sa_family (if domain = AF_INET \<or> domain = AF_INET6 then domain else AF_UNSPEC) a
      in if domain = AF_INET then a\<lparr>len := int sizeof_sin\<rparr> else a\<lparr>len := int sizeof_sin6\<rparr>)"

definition set_source :: "byte list \<Rightarrow> netaddr_any \<Rightarrow> netaddr_any" where
  "set_source src a =
     (if source_family src = AF_INET
      then a\<lparr>storage := memcpy_to 0 sizeof_sin src (storage a), len := int sizeof_sin\<rparr>
      else if source_family src = AF_INET6
      then a\<lparr>storage := memcpy_to 0 sizeof_sin6 src (storage a), len := int sizeof_sin6\<rparr>
      else (set_sa_family AF_UNSPEC a)\<lparr>len := 0\<rparr>)"

definition set_source_len :: "byte list \<Rightarrow> int \<Rightarrow> netaddr_any \<Rightarrow> netaddr_any" where
  "set_source_len src namelen a =
     (if source_family src = AF_INET \<and> int sizeof_sin \<le> namelen
      then a\<lparr>storage := memcpy_to 0 sizeof_sin src (storage a), len := int sizeof_sin\<rparr>
      else if source_family src = AF_INET6 \<and> int sizeof_sin6 \<le> namelen
      then a\<lparr>storage := memcpy_to 0 sizeof_sin6 src (storage a), len := int sizeof_sin6\<rparr>
      else reset a)"

definition netaddr_storage :: "byte list \<Rightarrow> byte list \<Rightarrow> netaddr_any" where
  "netaddr_storage junk stor = set_source stor (uninit junk)"

definition netaddr_sockaddr :: "byte list \<Rightarrow> byte list \<Rightarrow> int \<Rightarrow> netaddr_any" where
  "netaddr_sockaddr junk src namelen =
     (if namelen = 0 then set_source src (uninit junk) else set_source_len src (namelen mod 2 ^ 32) (uninit junk))"

definition set_in4 :: "byte list \<Rightarrow> netaddr_any \<Rightarrow> netaddr_any" where
  "set_in4 in4 a = a\<lparr>storage := memcpy_to 0 sizeof_sin in4 (storage a), len := int sizeof_sin\<rparr>"

definition set_in6 :: "byte list \<Rightarrow> netaddr_any \<Rightarrow> netaddr_any" where
  "set_in6 in6 a = a\<lparr>storage := memcpy_to 0 sizeof_sin6 in6 (storage a), len := int sizeof_sin6\<rparr>"

definition netaddr_in4 :: "byte list \<Rightarrow> byte list \<Rightarrow> int \<Rightarrow> netaddr_any" where
  "netaddr_in4 junk i4 port =
     (let a = set_sa_family AF_INET (uninit junk);
          a = a\<lparr>storage := poke 4 i4 (storage a)\<rparr>;
          a = a\<lparr>storage := poke 2 (be16 port) (storage a)\<rparr>
      in a\<lparr>len := int sizeof_sin\<rparr>)"

definition netaddr_in6 :: "byte list \<Rightarrow> byte list \<Rightarrow> int \<Rightarrow> netaddr_any" where
  "netaddr_in6 junk i6 port =
     (let a = set_sa_family AF_INET6 (uninit junk);
          a = a\<lparr>storage := poke 8 i6 (storage a)\<rparr>;
          a = a\<lparr>storage := poke 2 (be16 port) (storage a)\<rparr>
      in a\<lparr>len := int sizeof_sin6\<rparr>)"

definition size_of_family :: "int \<Rightarrow> int" where
  "size_of_family f =
     (if f = AF_INET then int sizeof_sin else if f = AF_INET6 then int sizeof_sin6 else 0)"

definition addr_size :: "netaddr_any \<Rightarrow> int" where
  "addr_size a = size_of_family (sa_family a)"

definition set_family :: "int \<Rightarrow> netaddr_any \<Rightarrow> netaddr_any" where
  "set_family f a = (let a = set_sa_family f a in a\<lparr>len := addr_size a\<rparr>)"

definition r_port :: "netaddr_any \<Rightarrow> byte list" where
  "r_port a = [storage a ! 2, storage a ! 3]"

definition hport :: "netaddr_any \<Rightarrow> int" where
  "hport a = of_be16 (storage a ! 2) (storage a ! 3)"

definition set_hport :: "int \<Rightarrow> netaddr_any \<Rightarrow> netaddr_any" where
  "set_hport v a = a\<lparr>storage := poke 2 (be16 v) (storage a)\<rparr>"

definition sin_addr :: "netaddr_any \<Rightarrow> byte list" where
  "sin_addr a = take 4 (drop 4 (storage a))"

definition sin6_addr :: "netaddr_any \<Rightarrow> byte list" where
  "sin6_addr a = take 16 (drop 8 (storage a))"

text \<open>\<^verbatim>\<open>get_addr\<close>: the offset and size of the address bytes, \<open>None\<close> for \<^verbatim>\<open>NULL\<close>.\<close>

definition get_addr :: "netaddr_any \<Rightarrow> (nat \<times> nat) option" where
  "get_addr a =
     (if sa_family a = AF_INET then Some (4, 4)
      else if sa_family a = AF_INET6 then Some (8, 16) else None)"

definition addr_empty :: "netaddr_any \<Rightarrow> bool" where
  "addr_empty a =
     (if sa_family a = AF_INET then r_port a = [0, 0] \<and> sin_addr a = replicate 4 0
      else if sa_family a = AF_INET6 then r_port a = [0, 0] \<and> sin6_addr a = replicate 16 0
      else True)"

definition equal_address :: "netaddr_any \<Rightarrow> netaddr_any \<Rightarrow> bool" where
  "equal_address c1 c2 =
     (if sa_family c1 = AF_INET then sin_addr c1 = sin_addr c2
      else if sa_family c1 = AF_INET6 then sin6_addr c1 = sin6_addr c2
      else False)"

definition addr_equal :: "netaddr_any \<Rightarrow> netaddr_any \<Rightarrow> bool" where
  "addr_equal c1 c2 =
     (if sa_family c1 \<noteq> sa_family c2 then False
      else r_port c1 = r_port c2 \<and> equal_address c1 c2)"

definition len_bytes :: "int \<Rightarrow> byte list" where
  "len_bytes l = map (\<lambda>i. word_of_int (l div 256 ^ i)) [0..<4]"

definition addr_less :: "netaddr_any \<Rightarrow> netaddr_any \<Rightarrow> bool" where
  "addr_less c1 c2 = ord_class.lexordp (storage c1 @ len_bytes (len c1)) (storage c2 @ len_bytes (len c2))"

definition isany :: "netaddr_any \<Rightarrow> bool" where
  "isany a =
     (if sa_family a = AF_INET then sin_addr a = replicate 4 0
      else if sa_family a = AF_INET6 then sin6_addr a = replicate 16 0
      else False)"

text \<open>\<^verbatim>\<open>str\<close>; \<^verbatim>\<open>getnameinfo\<close> is an argument, \<open>None\<close> when it reports an error.\<close>

definition addr_str :: "(byte list \<Rightarrow> int \<Rightarrow> string option) \<Rightarrow> netaddr_any \<Rightarrow> string" where
  "addr_str getnameinfo a =
     (if sa_family a \<noteq> AF_INET \<and> sa_family a \<noteq> AF_INET6 then ''unknown:0''
      else (case getnameinfo (storage a) (addr_size a) of None \<Rightarrow> '''' | Some h \<Rightarrow> h)
           @ '':'' @ int_to_string (hport a))"

subsection \<open>Well-formedness\<close>

definition wf_addr :: "netaddr_any \<Rightarrow> bool" where
  "wf_addr a \<longleftrightarrow> length (storage a) = sizeof_sin6"

definition is_ip :: "netaddr_any \<Rightarrow> bool" where
  "is_ip a \<longleftrightarrow> sa_family a = AF_INET \<or> sa_family a = AF_INET6"

named_theorems netaddr_simps \<open>byte-level facts about addresses\<close>

lemma length_poke [simp]: "off + length bs \<le> length m \<Longrightarrow> length (poke off bs m) = length m"
  by (simp add: poke_def)

lemma nth_poke:
  assumes "off + length bs \<le> length m" and "i < length m"
  shows "poke off bs m ! i = (if off \<le> i \<and> i < off + length bs then bs ! (i - off) else m ! i)"
  using assms by (auto simp: poke_def nth_append min_def)

lemma take_drop_nth_cong:
  assumes "length xs = length ys" and "a + n \<le> length xs"
    and "\<And>i. a \<le> i \<Longrightarrow> i < a + n \<Longrightarrow> xs ! i = ys ! i"
  shows "take n (drop a xs) = take n (drop a ys)"
  using assms by (intro nth_equalityI) simp_all

lemma take_drop_poke_disjoint:
  assumes "off + length bs \<le> length m" and "a + n \<le> length m"
    and "a + n \<le> off \<or> off + length bs \<le> a"
  shows "take n (drop a (poke off bs m)) = take n (drop a m)"
  using assms by (intro take_drop_nth_cong) (auto simp: nth_poke)

lemma length_16 [simp]: "length (le16 v) = 2" "length (be16 v) = 2"
  by (simp_all add: le16_def be16_def)

lemma uint_byte: "uint (word_of_int v :: byte) = v mod 256"
  by (simp add: unsigned_of_int take_bit_eq_mod)

lemma mod_65536: "(v::int) mod 65536 = 256 * (v div 256 mod 256) + v mod 256"
  using zmod_zmult2_eq[of 256 v 256] by simp

lemma of_le16_le16: "0 \<le> v \<Longrightarrow> v < 65536 \<Longrightarrow> of_le16 (le16 v ! 0) (le16 v ! 1) = v"
  using mod_65536[of v] by (simp add: of_le16_def le16_def uint_byte)

lemma of_be16_be16: "of_be16 (be16 v ! 0) (be16 v ! 1) = v mod 65536"
  using mod_65536[of v] by (simp add: of_be16_def be16_def uint_byte)

lemma wf_set_sa_family [simp]: "wf_addr a \<Longrightarrow> wf_addr (set_sa_family f a)"
  by (simp add: wf_addr_def set_sa_family_def sizeof_defs)

lemma wf_set_hport [simp]: "wf_addr a \<Longrightarrow> wf_addr (set_hport v a)"
  by (simp add: wf_addr_def set_hport_def sizeof_defs)

lemma wf_reset [simp]: "wf_addr a \<Longrightarrow> wf_addr (reset a)"
  by (simp add: wf_addr_def reset_def sizeof_defs)

lemma sa_family_set_sa_family [netaddr_simps]:
  "wf_addr a \<Longrightarrow> 0 \<le> f \<Longrightarrow> f < 65536 \<Longrightarrow> sa_family (set_sa_family f a) = f"
  using of_le16_le16[of f]
  by (simp add: sa_family_def set_sa_family_def wf_addr_def sizeof_defs nth_poke)

lemma sa_family_set_hport [netaddr_simps]: "wf_addr a \<Longrightarrow> sa_family (set_hport v a) = sa_family a"
  by (simp add: sa_family_def set_hport_def wf_addr_def sizeof_defs nth_poke)

lemma sin_addr_set_hport [netaddr_simps]: "wf_addr a \<Longrightarrow> sin_addr (set_hport v a) = sin_addr a"
  by (simp add: sin_addr_def set_hport_def wf_addr_def sizeof_defs take_drop_poke_disjoint)

lemma sin6_addr_set_hport [netaddr_simps]: "wf_addr a \<Longrightarrow> sin6_addr (set_hport v a) = sin6_addr a"
  by (simp add: sin6_addr_def set_hport_def wf_addr_def sizeof_defs take_drop_poke_disjoint)

lemma hport_set_hport_mod: "wf_addr a \<Longrightarrow> hport (set_hport v a) = v mod 65536"
  using of_be16_be16[of v]
  by (simp add: hport_def set_hport_def wf_addr_def sizeof_defs nth_poke)

subsection \<open>Reading back what was stored\<close>

lemma wf_uninit [simp]: "wf_addr (uninit junk) \<longleftrightarrow> length junk = sizeof_sin6"
  by (simp add: wf_addr_def uninit_def)

lemma wf_storage_poke:
  "wf_addr a \<Longrightarrow> off + length bs \<le> sizeof_sin6 \<Longrightarrow> wf_addr (a\<lparr>storage := poke off bs (storage a)\<rparr>)"
  by (simp add: wf_addr_def)

lemma memcpy_to_poke: "n \<le> length src \<Longrightarrow> memcpy_to off n src m = poke off (take n src) m"
  by (simp add: memcpy_to_def poke_def min_def)

text \<open>The memory at \<open>src\<close> holds the whole structure of its family.\<close>

definition complete_source :: "byte list \<Rightarrow> bool" where
  "complete_source src \<longleftrightarrow> 2 \<le> length src \<and> (source_family src = AF_INET \<longrightarrow> sizeof_sin \<le> length src) \<and>
     (source_family src = AF_INET6 \<longrightarrow> sizeof_sin6 \<le> length src)"

lemma wf_set_source [simp]: "wf_addr a \<Longrightarrow> complete_source src \<Longrightarrow> wf_addr (set_source src a)"
  using wf_set_sa_family[of a AF_UNSPEC]
  by (auto simp: set_source_def wf_addr_def sizeof_defs complete_source_def memcpy_to_poke)

lemma wf_set_source_len [simp]:
  "wf_addr a \<Longrightarrow> n \<le> int (length src) \<Longrightarrow> wf_addr (set_source_len src n a)"
  using wf_reset[of a] by (auto simp: set_source_len_def wf_addr_def sizeof_defs memcpy_to_poke)

text \<open>The view of an address that the program uses: family, port and the bytes of the address.\<close>

definition addr_view :: "netaddr_any \<Rightarrow> int \<times> byte list \<times> byte list" where
  "addr_view a =
     (sa_family a, r_port a,
      if sa_family a = AF_INET then sin_addr a else if sa_family a = AF_INET6 then sin6_addr a else [])"

definition bytes_view :: "byte list \<Rightarrow> int \<times> byte list \<times> byte list" where
  "bytes_view src =
     (source_family src, [src ! 2, src ! 3],
      if source_family src = AF_INET then take 4 (drop 4 src)
      else if source_family src = AF_INET6 then take 16 (drop 8 src) else [])"

lemma addr_view_eqI:
  assumes "\<And>i. i < n \<Longrightarrow> storage a ! i = src ! i" and "n \<le> length src" "n \<le> length (storage a)"
    and "source_family src = AF_INET \<and> n = sizeof_sin \<or> source_family src = AF_INET6 \<and> n = sizeof_sin6"
  shows "addr_view a = bytes_view src"
proof -
  from assms(4) have n: "16 \<le> n" by (auto simp: sizeof_defs)
  have f: "sa_family a = source_family src"
    using n assms(1) by (simp add: sa_family_def source_family_def)
  have p: "r_port a = [src ! 2, src ! 3]"
    using n assms(1) by (simp add: r_port_def)
  have 4: "sin_addr a = take 4 (drop 4 src)"
    using n assms(1,2,3) by (intro nth_equalityI) (simp_all add: sin_addr_def)
  have 6: "sin6_addr a = take 16 (drop 8 src)" if "n = 28"
    using that assms(1,2,3) by (intro nth_equalityI) (simp_all add: sin6_addr_def)
  from assms(4) f p 4 6 show ?thesis
    by (auto simp: addr_view_def bytes_view_def sizeof_defs af_defs)
qed

lemma nth_poke_0: "length bs \<le> length m \<Longrightarrow> i < length bs \<Longrightarrow> poke 0 bs m ! i = bs ! i"
  by (simp add: nth_poke)

lemma addr_view_memcpy:
  assumes "wf_addr a" and "n \<le> length src"
    and "source_family src = AF_INET \<and> n = sizeof_sin \<or> source_family src = AF_INET6 \<and> n = sizeof_sin6"
  shows "addr_view (a\<lparr>storage := memcpy_to 0 n src (storage a), len := l\<rparr>) = bytes_view src"
  by (rule addr_view_eqI[OF _ assms(2) _ assms(3)])
    (use assms in \<open>auto simp: wf_addr_def sizeof_defs memcpy_to_poke nth_poke_0\<close>)

lemma addr_view_set_source:
  assumes "wf_addr a" and "complete_source src"
    and "source_family src = AF_INET \<or> source_family src = AF_INET6"
  shows "addr_view (set_source src a) = bytes_view src"
proof (cases "source_family src = AF_INET")
  case True
  with assms show ?thesis
    using addr_view_memcpy[OF assms(1), of sizeof_sin src] by (simp add: set_source_def complete_source_def)
next
  case False
  with assms(3) have "source_family src = AF_INET6" by simp
  with False assms show ?thesis
    using addr_view_memcpy[OF assms(1), of sizeof_sin6 src] by (simp add: set_source_def complete_source_def)
qed

lemma addr_view_reset: "wf_addr a \<Longrightarrow> addr_view (reset a) = (AF_UNSPEC, [0, 0], [])"
  by (simp add: addr_view_def reset_def wf_addr_def sa_family_def r_port_def sizeof_defs nth_poke_0 of_le16_def af_defs)

lemma addr_view_set_source_len:
  assumes "wf_addr a" and "n \<le> int (length src)"
  shows "addr_view (set_source_len src n a) =
    (if source_family src = AF_INET \<and> 16 \<le> n \<or> source_family src = AF_INET6 \<and> 28 \<le> n then bytes_view src
     else (AF_UNSPEC, [0, 0], []))"
proof -
  have "source_family src = AF_INET \<Longrightarrow> source_family src \<noteq> AF_INET6" by (simp add: af_defs)
  with assms addr_view_memcpy[OF assms(1), of sizeof_sin src] addr_view_memcpy[OF assms(1), of sizeof_sin6 src]
    addr_view_reset[OF assms(1)] show ?thesis
    by (auto simp: set_source_len_def sizeof_defs)
qed

lemma addr_view_in:
  "length junk = sizeof_sin6 \<Longrightarrow> length i4 = 4 \<Longrightarrow> addr_view (netaddr_in4 junk i4 port) = (AF_INET, be16 port, i4)"
  "length junk = sizeof_sin6 \<Longrightarrow> length i6 = 16 \<Longrightarrow> addr_view (netaddr_in6 junk i6 port) = (AF_INET6, be16 port, i6)"
proof -
  have le: "le16 2 = [2, 0]" "le16 10 = [10, 0]" by (simp_all add: le16_def)
  have be: "be16 port = [be16 port ! 0, be16 port ! 1]" by (simp add: be16_def)
  show "addr_view (netaddr_in4 junk i4 port) = (AF_INET, be16 port, i4)" if "length junk = sizeof_sin6" "length i4 = 4"
  proof -
    let ?s = "storage (netaddr_in4 junk i4 port)"
    have n: "?s ! 0 = 2" "?s ! 1 = 0" "?s ! 2 = be16 port ! 0" "?s ! 3 = be16 port ! 1" "take 4 (drop 4 ?s) = i4" "length ?s = 28"
      using that
      by (auto simp: netaddr_in4_def set_sa_family_def uninit_def Let_def sizeof_defs af_defs le nth_poke
          intro!: nth_equalityI)
    then show ?thesis
      using be by (simp add: addr_view_def sa_family_def r_port_def sin_addr_def of_le16_def af_defs)
  qed
  show "addr_view (netaddr_in6 junk i6 port) = (AF_INET6, be16 port, i6)" if "length junk = sizeof_sin6" "length i6 = 16"
  proof -
    let ?s = "storage (netaddr_in6 junk i6 port)"
    have n: "?s ! 0 = 10" "?s ! 1 = 0" "?s ! 2 = be16 port ! 0" "?s ! 3 = be16 port ! 1" "take 16 (drop 8 ?s) = i6" "length ?s = 28"
      using that
      by (auto simp: netaddr_in6_def set_sa_family_def uninit_def Let_def sizeof_defs af_defs le nth_poke
          intro!: nth_equalityI)
    then show ?thesis
      using be by (simp add: addr_view_def sa_family_def r_port_def sin6_addr_def of_le16_def af_defs)
  qed
qed

subsection \<open>Properties\<close>

text \<open>C21: what the constructors store. Whatever the memory of the object held before: an address given by its bytes
  is stored with its family, its port in network order and all its bytes; a socket address given
  with the number of readable bytes is taken over (family, port, address) exactly when these bytes hold the
  whole structure of an IPv4 or IPv6 address, and otherwise the object is the unspecified address; no
  byte beyond the readable ones is used.\<close>

theorem netaddr_view:
  assumes "length junk = sizeof_sin6" and "length i4 = 4" and "length i6 = 16"
    and "0 < n" and "n < 2 ^ 31" and "n \<le> int (length src)"
  shows "addr_view (netaddr_in4 junk i4 port) = (AF_INET, be16 port, i4)
    \<and> addr_view (netaddr_in6 junk i6 port) = (AF_INET6, be16 port, i6)
    \<and> wf_addr (netaddr_sockaddr junk src n)
    \<and> addr_view (netaddr_sockaddr junk src n) =
        (if source_family src = AF_INET \<and> 16 \<le> n \<or> source_family src = AF_INET6 \<and> 28 \<le> n then bytes_view src
         else (AF_UNSPEC, [0, 0], []))"
proof -
  have wf: "wf_addr (uninit junk)" using assms(1) by simp
  have "netaddr_sockaddr junk src n = set_source_len src n (uninit junk)"
    using assms(4,5) by (simp add: netaddr_sockaddr_def)
  with wf assms addr_view_in[OF assms(1)] addr_view_set_source_len[OF wf assms(6)] show ?thesis by simp
qed

theorem netaddr_view_witness:
  "addr_view (netaddr_sockaddr (replicate 28 7) ([2, 0, 16, 104, 127, 0, 0, 1] @ replicate 8 0) 16) = (2, [16, 104], [127, 0, 0, 1])
   \<and> addr_view (netaddr_sockaddr (replicate 28 7) ([2, 0, 16, 104, 127, 0, 0, 1] @ replicate 8 0) 8) = (0, [0, 0], [])
   \<and> addr_view (netaddr_in4 (replicate 28 7) [10, 0, 0, 1] 4200) = (2, [16, 104], [10, 0, 0, 1])"
proof -
  let ?src = "[2, 0, 16, 104, 127, 0, 0, 1] @ replicate 8 (0::byte)"
  have h: "length (replicate 28 (7::byte)) = sizeof_sin6" by (simp add: sizeof_defs)
  have fam: "source_family ?src = AF_INET"
    by (simp add: source_family_def of_le16_def af_defs)
  have v: "bytes_view ?src = (2, [16, 104], [127, 0, 0, 1])"
    using fam by (simp add: bytes_view_def af_defs numeral_eq_Suc)
  show ?thesis
    using netaddr_view[OF h, of "[10, 0, 0, 1]" "replicate 16 0" 16 ?src 4200]
      netaddr_view[OF h, of "[10, 0, 0, 1]" "replicate 16 0" 8 ?src 4200] fam v
    by (simp add: af_defs be16_def)
qed

text \<open>Setting the port through the IPv4 member of the union stores the 16 low bits of the value in
  network order and leaves the family, the length and both the IPv4 and the IPv6 address as they were.\<close>

theorem set_hport_frame:
  assumes "wf_addr a"
  shows "hport (set_hport v a) = v mod 65536 \<and> sa_family (set_hport v a) = sa_family a
       \<and> len (set_hport v a) = len a
       \<and> sin_addr (set_hport v a) = sin_addr a \<and> sin6_addr (set_hport v a) = sin6_addr a"
  using assms by (simp add: hport_set_hport_mod netaddr_simps) (simp add: set_hport_def)

theorem set_hport_frame_witness:
  "wf_addr (netaddr_domain (replicate 28 1) AF_INET6)
   \<and> hport (set_hport 70000 (netaddr_domain (replicate 28 1) AF_INET6)) = 4464
   \<and> sa_family (set_hport 70000 (netaddr_domain (replicate 28 1) AF_INET6)) = AF_INET6"
proof -
  let ?a = "netaddr_domain (replicate 28 1) AF_INET6"
  have wf: "wf_addr ?a"
    by (simp add: netaddr_domain_def wf_addr_def reset_def set_sa_family_def uninit_def Let_def
        sizeof_defs af_defs)
  have "sa_family ?a = AF_INET6"
    by (simp add: netaddr_domain_def sa_family_def reset_def set_sa_family_def uninit_def Let_def
        sizeof_defs af_defs poke_def le16_def of_le16_def)
  with wf set_hport_frame[OF wf, of 70000] show ?thesis by simp
qed

text \<open>\<^verbatim>\<open>operator==\<close> holds exactly when both addresses are IP addresses with the same family, port
  and address bytes: it is symmetric and transitive, ignores the length and the padding, and is
  reflexive on IP addresses only (an unspecified address is not equal to itself).\<close>

theorem addr_equal_iff:
  "addr_equal a b \<longleftrightarrow> is_ip a \<and> addr_view a = addr_view b"
  by (auto simp: addr_equal_def equal_address_def is_ip_def addr_view_def af_defs)

subsection \<open>The objects the class can build\<close>

text \<open>Every constructor, and every operation that changes an object. What an operation demands of its source is what
  the code relies on: the versions without a length trust that the structure of the family is complete, the
  versions with a length only that as many bytes as they are told are readable, and two for the family.
  The wrapper that lets a library call write the length is left out: it stores what the library answers.\<close>

inductive netaddr_object :: "netaddr_any \<Rightarrow> bool" where
  obj_domain: "length junk = sizeof_sin6 \<Longrightarrow> netaddr_object (netaddr_domain junk f)"
| obj_storage: "length junk = sizeof_sin6 \<Longrightarrow> length src = 128 \<Longrightarrow> netaddr_object (netaddr_storage junk src)"
| obj_sockaddr: "length junk = sizeof_sin6 \<Longrightarrow> complete_source src \<Longrightarrow> netaddr_object (netaddr_sockaddr junk src 0)"
| obj_sockaddr_len: "length junk = sizeof_sin6 \<Longrightarrow> 2 \<le> length src \<Longrightarrow> n \<noteq> 0 \<Longrightarrow> n mod 2 ^ 32 \<le> int (length src) \<Longrightarrow>
    netaddr_object (netaddr_sockaddr junk src n)"
| obj_in4: "length junk = sizeof_sin6 \<Longrightarrow> length i4 = 4 \<Longrightarrow> netaddr_object (netaddr_in4 junk i4 port)"
| obj_in6: "length junk = sizeof_sin6 \<Longrightarrow> length i6 = 16 \<Longrightarrow> netaddr_object (netaddr_in6 junk i6 port)"
| obj_set: "netaddr_object a \<Longrightarrow> complete_source src \<Longrightarrow> netaddr_object (set_source src a)"
| obj_set_len: "netaddr_object a \<Longrightarrow> 2 \<le> length src \<Longrightarrow> n \<le> int (length src) \<Longrightarrow> netaddr_object (set_source_len src n a)"
| obj_set_in4: "netaddr_object a \<Longrightarrow> length sin = sizeof_sin \<Longrightarrow> source_family sin = AF_INET \<Longrightarrow> netaddr_object (set_in4 sin a)"
| obj_set_in6: "netaddr_object a \<Longrightarrow> length sin6 = sizeof_sin6 \<Longrightarrow> source_family sin6 = AF_INET6 \<Longrightarrow> netaddr_object (set_in6 sin6 a)"
| obj_family: "netaddr_object a \<Longrightarrow> netaddr_object (set_family f a)"
| obj_hport: "netaddr_object a \<Longrightarrow> netaddr_object (set_hport port a)"
| obj_reset: "netaddr_object a \<Longrightarrow> netaddr_object (reset a)"

text \<open>The length is the one of the family, but for a new object of no family, which has room for any.\<close>

definition len_ok :: "netaddr_any \<Rightarrow> bool" where
  "len_ok a \<longleftrightarrow> len a = addr_size a \<or> sa_family a = AF_UNSPEC \<and> len a = 28"

lemma wf_len_update [simp]: "wf_addr (a\<lparr>len := n\<rparr>) = wf_addr a"
  by (simp add: wf_addr_def)

lemma sa_family_len_update [simp]: "sa_family (a\<lparr>len := n\<rparr>) = sa_family a"
  by (simp add: sa_family_def)

lemma addr_view_family: "addr_view a = (f, p, bs) \<Longrightarrow> sa_family a = f"
  by (simp add: addr_view_def)

lemma bytes_view_family: "addr_view a = bytes_view src \<Longrightarrow> sa_family a = source_family src"
  by (simp add: addr_view_def bytes_view_def)

lemma len_set_source:
  assumes "wf_addr a" and "complete_source src"
  shows "len_ok (set_source src a)"
proof (cases "source_family src = AF_INET \<or> source_family src = AF_INET6")
  case True
  from bytes_view_family[OF addr_view_set_source[OF assms True]] True show ?thesis
    by (auto simp: len_ok_def addr_size_def size_of_family_def set_source_def af_defs)
next
  case False
  then have "set_source src a = (set_sa_family AF_UNSPEC a)\<lparr>len := 0\<rparr>" by (simp add: set_source_def)
  moreover have "sa_family (set_sa_family AF_UNSPEC a) = AF_UNSPEC"
    using sa_family_set_sa_family[OF assms(1), of AF_UNSPEC] by (simp add: af_defs)
  ultimately show ?thesis
    by (simp add: len_ok_def addr_size_def size_of_family_def af_defs sa_family_def)
qed

lemma len_set_source_len:
  assumes "wf_addr a" and "n \<le> int (length src)"
  shows "len_ok (set_source_len src n a)"
proof (cases "source_family src = AF_INET \<and> 16 \<le> n \<or> source_family src = AF_INET6 \<and> 28 \<le> n")
  case True
  with addr_view_set_source_len[OF assms] have "sa_family (set_source_len src n a) = source_family src"
    by (intro bytes_view_family) simp
  with True show ?thesis
    by (auto simp: len_ok_def addr_size_def size_of_family_def set_source_len_def sizeof_defs af_defs)
next
  case False
  with addr_view_set_source_len[OF assms] have "sa_family (set_source_len src n a) = AF_UNSPEC"
    by (intro addr_view_family) simp
  with False show ?thesis
    by (auto simp: len_ok_def addr_size_def size_of_family_def set_source_len_def reset_def sizeof_defs af_defs)
qed

lemma len_set_family: "len_ok (set_family f a)"
  by (simp add: len_ok_def set_family_def Let_def addr_size_def sa_family_def)

lemma len_ok_set_hport: "wf_addr a \<Longrightarrow> len_ok (set_hport p a) = len_ok a"
  by (simp add: len_ok_def addr_size_def sa_family_set_hport) (simp add: set_hport_def)

lemma netaddr_domain_type:
  assumes "length junk = sizeof_sin6"
  shows "wf_addr (netaddr_domain junk f) \<and> len_ok (netaddr_domain junk f)"
proof -
  let ?f = "if f = AF_INET \<or> f = AF_INET6 then f else AF_UNSPEC"
  let ?a = "set_sa_family ?f (reset (uninit junk))"
  have wf: "wf_addr (reset (uninit junk))" using assms by simp
  then have a: "sa_family ?a = ?f"
    by (intro sa_family_set_sa_family) (auto simp: af_defs)
  have d: "netaddr_domain junk f = ?a\<lparr>len := (if f = AF_INET then 16 else 28)\<rparr>"
    by (simp add: netaddr_domain_def Let_def sizeof_defs)
  have "len_ok (netaddr_domain junk f)"
    unfolding d len_ok_def addr_size_def sa_family_len_update a
    by (auto simp: size_of_family_def sizeof_defs af_defs)
  with wf_set_sa_family[OF wf] show ?thesis by (simp add: d)
qed

lemma set_in_type:
  "wf_addr a \<Longrightarrow> length sin = sizeof_sin \<Longrightarrow> source_family sin = AF_INET \<Longrightarrow> wf_addr (set_in4 sin a) \<and> len_ok (set_in4 sin a)"
  "wf_addr a \<Longrightarrow> length sin6 = sizeof_sin6 \<Longrightarrow> source_family sin6 = AF_INET6 \<Longrightarrow> wf_addr (set_in6 sin6 a) \<and> len_ok (set_in6 sin6 a)"
  using bytes_view_family[OF addr_view_memcpy[of a sizeof_sin sin "int sizeof_sin"]]
    bytes_view_family[OF addr_view_memcpy[of a sizeof_sin6 sin6 "int sizeof_sin6"]]
  by (simp_all add: set_in4_def set_in6_def len_ok_def addr_size_def size_of_family_def wf_addr_def memcpy_to_poke sizeof_defs af_defs)

lemma netaddr_in_type:
  "length junk = sizeof_sin6 \<Longrightarrow> length i4 = 4 \<Longrightarrow> wf_addr (netaddr_in4 junk i4 port) \<and> len_ok (netaddr_in4 junk i4 port)"
  "length junk = sizeof_sin6 \<Longrightarrow> length i6 = 16 \<Longrightarrow> wf_addr (netaddr_in6 junk i6 port) \<and> len_ok (netaddr_in6 junk i6 port)"
  using addr_view_family[OF addr_view_in(1)[of junk i4 port]] addr_view_family[OF addr_view_in(2)[of junk i6 port]]
  by (auto simp: len_ok_def addr_size_def size_of_family_def af_defs)
    (simp_all add: netaddr_in4_def netaddr_in6_def Let_def wf_addr_def set_sa_family_def uninit_def sizeof_defs)



text \<open>The ordering of \<^verbatim>\<open>netaddr_any::Less\<close> (a \<^verbatim>\<open>memcmp\<close> of the whole object) is a strict order, and
  it is total on well-formed addresses up to equality of all bytes, so it is usable as a map key order.\<close>

lemma addr_less_image:
  "addr_less a b = ord_class.lexordp (storage a @ len_bytes (len a)) (storage b @ len_bytes (len b))"
  by (simp add: addr_less_def)

lemma addr_less_strict_order:
  "\<not> addr_less a a"
  "addr_less a b \<Longrightarrow> addr_less b c \<Longrightarrow> addr_less a c"
  "\<not> addr_less a b \<Longrightarrow> \<not> addr_less b a \<Longrightarrow>
     storage a @ len_bytes (len a) = storage b @ len_bytes (len b)"
  unfolding addr_less_image
  using lexordp_irreflexive'[of "storage a @ len_bytes (len a)"]
    lexordp_trans[of "storage a @ len_bytes (len a)" "storage b @ len_bytes (len b)"
      "storage c @ len_bytes (len c)"]
    lexordp_linear[of "storage a @ len_bytes (len a)" "storage b @ len_bytes (len b)"]
  by blast+

end
