(* ===== verification/Buffer.thy ===== *)
theory Buffer
  imports Prelude
begin

text \<open>
  The two non-owning buffer views of \<^verbatim>\<open>buffer.hpp\<close>. A pointer is its address; the null pointer is 0.
\<close>

record mutable_buffer =
  mb_data :: nat
  mb_size :: nat

definition mutable_buffer_empty :: mutable_buffer where
  "mutable_buffer_empty = \<lparr>mb_data = 0, mb_size = 0\<rparr>"

definition mutable_buffer_of :: "nat \<Rightarrow> nat \<Rightarrow> mutable_buffer" where
  "mutable_buffer_of d n = \<lparr>mb_data = d, mb_size = n\<rparr>"

definition mutable_advance :: "mutable_buffer \<Rightarrow> nat \<Rightarrow> mutable_buffer" where
  "mutable_advance b n =
     (let offset = (if n < mb_size b then n else mb_size b)
      in b\<lparr>mb_data := mb_data b + offset, mb_size := mb_size b - offset\<rparr>)"

record const_buffer =
  cb_data :: nat
  cb_size :: nat

definition const_buffer_empty :: const_buffer where
  "const_buffer_empty = \<lparr>cb_data = 0, cb_size = 0\<rparr>"

definition const_buffer_of :: "nat \<Rightarrow> nat \<Rightarrow> const_buffer" where
  "const_buffer_of d n = \<lparr>cb_data = d, cb_size = n\<rparr>"

definition const_buffer_mutable :: "mutable_buffer \<Rightarrow> const_buffer" where
  "const_buffer_mutable b = \<lparr>cb_data = mb_data b, cb_size = mb_size b\<rparr>"

definition const_advance :: "const_buffer \<Rightarrow> nat \<Rightarrow> const_buffer" where
  "const_advance b n =
     (let offset = (if n < cb_size b then n else cb_size b)
      in b\<lparr>cb_data := cb_data b + offset, cb_size := cb_size b - offset\<rparr>)"

text \<open>The addresses a view gives access to.\<close>

definition const_range :: "const_buffer \<Rightarrow> nat set" where
  "const_range b = {cb_data b ..< cb_data b + cb_size b}"

text \<open>A buffer view: a region of memory that can be advanced. Both classes are instances.\<close>

locale buffer_view =
  fixes start :: "'b \<Rightarrow> nat" and extent :: "'b \<Rightarrow> nat" and advance :: "'b \<Rightarrow> nat \<Rightarrow> 'b"
  assumes start_advance: "start (advance b n) = start b + min n (extent b)"
    and extent_advance: "extent (advance b n) = extent b - n"
begin

definition covered :: "'b \<Rightarrow> nat set" where
  "covered b = {start b ..< start b + extent b}"

lemma end_fixed: "start (advance b n) + extent (advance b n) = start b + extent b"
  by (simp add: start_advance extent_advance)

lemma covered_advance: "covered (advance b n) = covered b - {start b ..< start b + n}"
  by (auto simp: covered_def start_advance extent_advance)

lemma advance_twice:
  "start (advance (advance b m) n) = start (advance b (m + n))"
  "extent (advance (advance b m) n) = extent (advance b (m + n))"
  by (auto simp: start_advance extent_advance)

lemma advance_past_end: "extent b \<le> n \<Longrightarrow> covered (advance b n) = {}"
  by (auto simp: covered_def start_advance extent_advance)

end

interpretation mb: buffer_view mb_data mb_size mutable_advance
  by unfold_locales (auto simp: mutable_advance_def Let_def)

interpretation cb: buffer_view cb_data cb_size const_advance
  by unfold_locales (auto simp: const_advance_def Let_def)

lemma const_advance_of_mutable:
  "const_advance (const_buffer_mutable b) n = const_buffer_mutable (mutable_advance b n)"
  by (simp add: const_advance_def const_buffer_mutable_def mutable_advance_def Let_def)

text \<open>Advancing a constant buffer gives access to exactly the addresses of the buffer from the
  given offset on, never to an address outside the original region; advancing by the size or more
  leaves no accessible address.\<close>

theorem const_advance_range:
  "const_range (const_advance b n) = const_range b - {cb_data b ..< cb_data b + n}"
  using cb.covered_advance[of b n] by (simp add: const_range_def cb.covered_def)

end
