(* ===== verification/CppMap.thy ===== *)
theory CppMap
  imports Prelude "HOL-Library.List_Lexorder" "HOL-Library.Char_ord"
begin

text \<open>
  \<^verbatim>\<open>std::map<K, V>\<close>. A map is the list of its entries in key order (the order in which the sources
  iterate); strings compare as unsigned bytes. The interface the clients use is the locale \<open>std_map\<close>.
  \<open>cmap\<close> is the map of strings to strings that holds the options of a URI.
\<close>

type_synonym cmap = "(string \<times> string) list"

definition cmap_empty :: "('k \<times> 'v) list" where "cmap_empty = []"

fun cmap_put :: "'k::linorder \<Rightarrow> 'v \<Rightarrow> ('k \<times> 'v) list \<Rightarrow> ('k \<times> 'v) list" where
  "cmap_put k v [] = [(k, v)]"
| "cmap_put k v ((k', v') # m) =
     (if k < k' then (k, v) # (k', v') # m
      else if k = k' then (k, v) # m
      else (k', v') # cmap_put k v m)"

definition cmap_get :: "('k \<times> 'v) list \<Rightarrow> 'k \<Rightarrow> 'v option" where
  "cmap_get m k = map_of m k"

definition cmap_count :: "('k \<times> 'v) list \<Rightarrow> 'k \<Rightarrow> bool" where
  "cmap_count m k \<longleftrightarrow> k \<in> fst ` set m"

definition cmap_erase :: "'k \<Rightarrow> ('k \<times> 'v) list \<Rightarrow> ('k \<times> 'v) list" where
  "cmap_erase k m = filter (\<lambda>e. fst e \<noteq> k) m"

definition cmap_inv :: "('k::linorder \<times> 'v) list \<Rightarrow> bool" where
  "cmap_inv m \<longleftrightarrow> sorted_wrt (<) (map fst m)"

subsection \<open>The interface\<close>

locale std_map =
  fixes empty :: 'm and get :: "'m \<Rightarrow> 'k \<Rightarrow> 'v option" and put :: "'k \<Rightarrow> 'v \<Rightarrow> 'm \<Rightarrow> 'm"
    and erase :: "'k \<Rightarrow> 'm \<Rightarrow> 'm" and inv :: "'m \<Rightarrow> bool"
  assumes inv_empty: "inv empty" and inv_put: "inv m \<Longrightarrow> inv (put k v m)"
    and inv_erase: "inv m \<Longrightarrow> inv (erase k m)"
    and get_empty: "get empty k = None"
    and get_put: "inv m \<Longrightarrow> get (put k v m) k' = (if k' = k then Some v else get m k')"
    and get_erase: "inv m \<Longrightarrow> get (erase k m) k' = (if k' = k then None else get m k')"
begin

definition put_all :: "('k \<times> 'v) list \<Rightarrow> 'm \<Rightarrow> 'm" where
  "put_all kvs m = fold (\<lambda>kv. put (fst kv) (snd kv)) kvs m"

lemma inv_put_all: "inv m \<Longrightarrow> inv (put_all kvs m)"
  by (induction kvs arbitrary: m) (simp_all add: put_all_def inv_put)

lemma get_put_all:
  "inv m \<Longrightarrow> get (put_all kvs m) k = (case map_of (rev kvs) k of None \<Rightarrow> get m k | Some v \<Rightarrow> Some v)"
proof (induction kvs rule: rev_induct)
  case Nil
  then show ?case by (simp add: put_all_def)
next
  case (snoc kv kvs)
  have "get (put_all (kvs @ [kv]) m) k = get (put (fst kv) (snd kv) (put_all kvs m)) k"
    by (simp add: put_all_def)
  also have "\<dots> = (if k = fst kv then Some (snd kv) else get (put_all kvs m) k)"
    using snoc.prems by (simp add: get_put inv_put_all)
  finally show ?case
    using snoc by (cases kv) simp
qed

lemma get_erase_put_other: "inv m \<Longrightarrow> k \<noteq> k' \<Longrightarrow> get (erase k (put k' v m)) k' = Some v"
  by (simp add: get_erase get_put inv_put)

end

lemma cmap_put_keys: "fst ` set (cmap_put k v m) = insert k (fst ` set m)"
  by (induction k v m rule: cmap_put.induct) auto

lemma cmap_inv_put: "cmap_inv m \<Longrightarrow> cmap_inv (cmap_put k v m)"
proof (induction k v m rule: cmap_put.induct)
  case (1 k v)
  then show ?case by (simp add: cmap_inv_def)
next
  case (2 k v k' v' m)
  have keys: "x = k \<or> x \<in> fst ` set m" if "x \<in> set (map fst (cmap_put k v m))" for x
    using that cmap_put_keys[of k v m] by auto
  show ?case
  proof (cases "k < k' \<or> k = k'")
    case True
    with 2 show ?thesis by (auto simp: cmap_inv_def dest: less_trans)
  next
    case False
    with 2 have "cmap_inv (cmap_put k v m)" and "k' < k" and "\<forall>x \<in> set m. k' < fst x"
      by (auto simp: cmap_inv_def)
    then have "\<forall>x \<in> set (map fst (cmap_put k v m)). k' < x"
      by (auto dest!: keys simp del: set_map)
    with False \<open>cmap_inv (cmap_put k v m)\<close> show ?thesis by (simp add: cmap_inv_def)
  qed
qed

lemma cmap_get_put: "cmap_get (cmap_put k v m) k' = (if k' = k then Some v else cmap_get m k')"
  by (induction k v m rule: cmap_put.induct) (auto simp: cmap_get_def)

lemma cmap_get_erase: "cmap_get (cmap_erase k m) k' = (if k' = k then None else cmap_get m k')"
  by (induction m) (auto simp: cmap_get_def cmap_erase_def)

lemma cmap_inv_erase: "cmap_inv m \<Longrightarrow> cmap_inv (cmap_erase k m)"
  by (induction m) (auto simp: cmap_inv_def cmap_erase_def)

interpretation cm: std_map cmap_empty cmap_get cmap_put cmap_erase cmap_inv
  by unfold_locales
    (simp_all add: cmap_inv_put cmap_inv_erase cmap_get_put cmap_get_erase,
      simp_all add: cmap_empty_def cmap_inv_def cmap_get_def)

lemma cmap_count_get: "cmap_count m k \<longleftrightarrow> cmap_get m k \<noteq> None"
  by (auto simp: cmap_count_def cmap_get_def map_of_eq_None_iff)

text \<open>Two maps with the same lookups are the same map: the order of the entries is determined.\<close>

lemma cmap_eqI: "cmap_inv m1 \<Longrightarrow> cmap_inv m2 \<Longrightarrow> (\<And>k. cmap_get m1 k = cmap_get m2 k) \<Longrightarrow> m1 = m2"
proof (induction m1 arbitrary: m2)
  case Nil
  show ?case
  proof (cases m2)
    case (Cons e m)
    with Nil(3)[of "fst e"] show ?thesis by (cases e) (simp add: cmap_get_def)
  qed simp
next
  case (Cons e m1)
  obtain k v where e: "e = (k, v)" by (cases e)
  obtain k2 v2 m2' where m2: "m2 = (k2, v2) # m2'"
    using Cons.prems(3)[of k] by (cases m2) (auto simp: cmap_get_def e)
  have lt1: "x \<in> fst ` set m1 \<Longrightarrow> k < x" for x
    using Cons.prems(1) by (auto simp: cmap_inv_def e)
  have lt2: "x \<in> fst ` set m2' \<Longrightarrow> k2 < x" for x
    using Cons.prems(2) by (auto simp: cmap_inv_def m2)
  have in1: "k2 = k \<or> k2 \<in> fst ` set m1"
  proof -
    have "cmap_get (e # m1) k2 = Some v2"
      using Cons.prems(3)[of k2] by (simp add: cmap_get_def m2)
    then have "cmap_count (e # m1) k2" by (simp add: cmap_count_get)
    then show ?thesis by (auto simp: cmap_count_def e)
  qed
  have in2: "k = k2 \<or> k \<in> fst ` set m2'"
  proof -
    have "cmap_get m2 k = Some v"
      using Cons.prems(3)[of k] by (simp add: cmap_get_def e)
    then have "cmap_count m2 k" by (simp add: cmap_count_get)
    then show ?thesis by (auto simp: cmap_count_def m2)
  qed
  from in1 in2 lt1 lt2 have k: "k2 = k" by (metis less_asym)
  with Cons.prems(3)[of k] have v: "v2 = v" by (simp add: cmap_get_def e m2)
  have "m1 = m2'"
  proof (rule Cons.IH)
    show "cmap_inv m1" "cmap_inv m2'"
      using Cons.prems(1,2) by (simp_all add: cmap_inv_def e m2)
    fix x
    have "map_of m1 k = None" "map_of m2' k = None"
      using lt1 lt2 k by (auto simp: map_of_eq_None_iff)
    then show "cmap_get m1 x = cmap_get m2' x"
      using Cons.prems(3)[of x] by (auto simp: cmap_get_def e m2 k v split: if_splits)
  qed
  with k v show ?case by (simp add: e m2)
qed

lemma cmap_erase_none: "cmap_get m k = None \<Longrightarrow> cmap_erase k m = m"
  by (induction m) (auto simp: cmap_get_def cmap_erase_def split: if_splits)

end
