(* ===== verification/UriParser.thy ===== *)
theory UriParser
  imports CppMap
begin

text \<open>
  The URI parser of the SRT applications (\<^verbatim>\<open>apps/uriparser.cpp\<close>, \<^verbatim>\<open>apps/uriparser.hpp\<close>), through which
  every address and option of the program comes in. The object is the record \<open>uri\<close>;
  \<open>Parse\<close> is the member function of that name, split into the passes its body has.
\<close>

datatype uri_type = UNKNOWN | FILE | UDP | TCP | SRT | RTMP | HTTP | RTP
datatype default_expect = EXPECT_FILE | EXPECT_HOST

record uri =
  m_origUri :: string
  m_proto :: string
  m_host :: string
  m_port :: string
  m_path :: string
  m_uriType :: uri_type
  m_expect :: default_expect
  m_mapQuery :: cmap

definition g_types :: "(string \<times> uri_type) list" where
  "g_types =
     [(''file'', FILE), (''udp'', UDP), (''tcp'', TCP), (''srt'', SRT), (''rtmp'', RTMP),
      (''http'', HTTP), (''rtp'', RTP), ('''', UNKNOWN)]"

subsection \<open>Percent decoding\<close>

definition percent_at :: "string \<Rightarrow> nat \<Rightarrow> char option" where
  "percent_at str idx =
     (if idx + 2 \<ge> length str then None
      else if \<not> is_digit_of 16 (str ! (idx + 1)) \<or> \<not> is_digit_of 16 (str ! (idx + 2)) then None
      else let hex = digits_value 16 [str ! (idx + 1), str ! (idx + 2)]
           in if hex = 0 then None else Some (char_of hex))"

function url_decode_from :: "string \<Rightarrow> nat \<Rightarrow> string \<Rightarrow> string" where
  "url_decode_from str prev_idx ret =
     (case find_char (CHR 0x25) str prev_idx of
        None \<Rightarrow> ret @ substr str prev_idx (length str - prev_idx)
      | Some idx \<Rightarrow>
          (case percent_at str idx of
             None \<Rightarrow> ret @ substr str prev_idx (length str - prev_idx)
           | Some c \<Rightarrow> url_decode_from str (idx + 3) (ret @ substr str prev_idx (idx - prev_idx) @ [c])))"
  by pat_completeness auto
termination
  by (relation "measure (\<lambda>(str, prev_idx, ret). length str - prev_idx)")
    (auto simp: find_char_Some)

declare url_decode_from.simps [simp del]

definition url_decode :: "string \<Rightarrow> string" where
  "url_decode str = url_decode_from str 0 []"

subsection \<open>The passes of Parse\<close>

definition split_query :: "string \<Rightarrow> string \<times> nat option" where
  "split_query strUrl =
     (case find_char (CHR ''?'') strUrl 0 of
        Some idx \<Rightarrow> (substr strUrl 0 idx, Some (idx + 1))
      | None \<Rightarrow> (strUrl, None))"

definition split_proto :: "string \<Rightarrow> string \<times> string" where
  "split_proto host =
     (case find_str ''://'' host 0 of
        Some idx \<Rightarrow> (tolower (substr host 0 idx), substr host (idx + 3) (length host - (idx + 3)))
      | None \<Rightarrow> ([], host))"

definition split_path :: "string \<Rightarrow> nat option \<Rightarrow> string \<times> string" where
  "split_path host i6pos =
     (let path_since =
            (case i6pos of None \<Rightarrow> 0
             | Some i \<Rightarrow> (case find_char (CHR '']'') host i of None \<Rightarrow> 0 | Some e \<Rightarrow> e))
      in case find_char (CHR ''/'') host path_since of
           Some idx \<Rightarrow> (substr host idx (length host - idx), substr host 0 idx)
         | None \<Rightarrow> ([], host))"

definition split_user :: "string \<Rightarrow> cmap \<Rightarrow> string \<times> cmap" where
  "split_user host q =
     (case find_char (CHR ''@'') host 0 of
        None \<Rightarrow> (host, q)
      | Some atp \<Rightarrow>
          (drop (atp + 1) host,
           if atp > 0 then
             let prehost = substr host 0 atp in
             (case find_char (CHR '':'') prehost 0 of
                Some colon \<Rightarrow>
                  cmap_put ''password'' (drop (colon + 1) prehost)
                    (cmap_put ''user'' (if colon > 0 then substr prehost 0 colon else []) q)
              | None \<Rightarrow> cmap_put ''user'' prehost q)
           else cmap_put ''multicast'' ''1'' q))"

text \<open>The position of the colon before the port, and whether the brackets are stripped.\<close>

definition find_port :: "string \<Rightarrow> nat option \<Rightarrow> nat option \<times> bool \<times> nat" where
  "find_port host i6pos =
     (case i6pos of
        None \<Rightarrow> (rfind_char (CHR '':'') host, False, 0)
      | Some i6 \<Rightarrow>
          (let idx = rfind_char (CHR '':'') host in
           case find_char (CHR '']'') host i6 of
             None \<Rightarrow> (idx, False, 0)
           | Some hostend \<Rightarrow>
               (let (idx', lasthost) =
                      (case idx of
                         Some i \<Rightarrow> if i < hostend then (None, Some (length host)) else (Some i, Some i)
                       | None \<Rightarrow> (None, None))
                in (idx', i6 = 0 \<and> (case lasthost of None \<Rightarrow> False | Some l \<Rightarrow> Suc hostend = l), hostend))))"

definition split_port :: "string \<Rightarrow> nat option \<Rightarrow> string \<times> string" where
  "split_port host i6pos =
     (let (idx, stripbrackets, hostend) = find_port host i6pos;
          (port, host) = (case idx of
                            Some i \<Rightarrow> (substr host (i + 1) (length host - (i + 1)), substr host 0 i)
                          | None \<Rightarrow> ([], host));
          host = (if stripbrackets
                  then substr host 1 ((if hostend = 0 then length host - 1 else hostend) - 1)
                  else host)
      in if port = [] \<and> host \<noteq> [] \<and>
            (case strtol_parse 10 host of None \<Rightarrow> False | Some (v, rest) \<Rightarrow> v > 0 \<and> rest = [])
         then (host, [])
         else (port, host))"

definition put_pair :: "string \<Rightarrow> cmap \<Rightarrow> cmap" where
  "put_pair strQueryPair q =
     (case find_char (CHR ''='') strQueryPair 0 of
        Some idx \<Rightarrow> cmap_put (url_decode (substr strQueryPair 0 idx))
                      (url_decode (substr strQueryPair (idx + 1) (length strQueryPair - (idx + 1)))) q
      | None \<Rightarrow> q)"

function parse_query :: "string \<Rightarrow> nat \<Rightarrow> cmap \<Rightarrow> cmap" where
  "parse_query strUrl iQueryStart q =
     (case find_char (CHR ''&'') strUrl iQueryStart of
        Some idx \<Rightarrow>
          parse_query strUrl (idx + 1) (put_pair (substr strUrl iQueryStart (idx - iQueryStart)) q)
      | None \<Rightarrow> put_pair (substr strUrl iQueryStart (length strUrl - iQueryStart)) q)"
  by pat_completeness auto
termination
  by (relation "measure (\<lambda>(s, i, q). length s - i)") (auto simp: find_char_Some)

declare parse_query.simps [simp del]

definition Parse :: "string \<Rightarrow> default_expect \<Rightarrow> uri" where
  "Parse strUrl exp =
     (let (host, iQueryStart) = split_query strUrl;
          (proto, host) = split_proto host;
          i6pos = find_char (CHR ''['') host 0;
          (path, host) = split_path host i6pos;
          (host, q) = split_user host cmap_empty;
          (port, host) = split_port host i6pos;
          q = (case iQueryStart of Some i \<Rightarrow> parse_query strUrl i q | None \<Rightarrow> q);
          path = (if proto = ''file'' \<and> length path > 3 \<and> substr path 0 3 = ''/./'' then drop 3 path else path);
          (proto, path, host) =
            (if exp = EXPECT_FILE \<and> proto = [] \<and> port = [] then (''file'', host @ path, [])
             else (proto, path, host));
          ty = (case map_of g_types proto of Some t \<Rightarrow> t | None \<Rightarrow> UNKNOWN)
      in \<lparr>m_origUri = strUrl, m_proto = proto, m_host = host, m_port = port, m_path = path,
          m_uriType = ty, m_expect = exp, m_mapQuery = q\<rparr>)"

subsection \<open>Accessors\<close>

abbreviation parameters :: "uri \<Rightarrow> cmap" where
  "parameters u \<equiv> m_mapQuery u"

definition portno :: "uri \<Rightarrow> int" where
  "portno u = (let i = atoi (m_port u) in if i \<le> 0 \<or> i > 65535 then 0 else i)"

definition queryValue :: "uri \<Rightarrow> string \<Rightarrow> cpp_exn + string" where
  "queryValue u k = (case cmap_get (m_mapQuery u) k of None \<Rightarrow> Inl (Std_out_of_range ''map::at'') | Some v \<Rightarrow> Inr v)"

text \<open>\<^verbatim>\<open>uri[key] = value\<close> and \<^verbatim>\<open>uri[key].exists()\<close>, through \<^verbatim>\<open>MapProxy\<close>.\<close>

definition param_set :: "string \<Rightarrow> string \<Rightarrow> uri \<Rightarrow> uri" where
  "param_set k v u = u\<lparr>m_mapQuery := cmap_put k v (m_mapQuery u)\<rparr>"

definition param_exists :: "uri \<Rightarrow> string \<Rightarrow> bool" where
  "param_exists u k = cmap_count (m_mapQuery u) k"

fun render_query :: "cmap \<Rightarrow> string" where
  "render_query [] = []"
| "render_query [(k, v)] = k @ ''='' @ v"
| "render_query ((k, v) # m) = k @ ''='' @ v @ ''&'' @ render_query m"

definition makeUri :: "uri \<Rightarrow> uri \<times> string" where
  "makeUri u =
     (let prefix = (if m_proto u \<noteq> [] then m_proto u @ ''://'' else []);
          out = prefix @ m_host u;
          out = (if (m_port u = [] \<or> m_port u = ''0'') \<and> m_expect u = EXPECT_FILE then out
                 else out @ '':'' @ m_port u);
          out = (if m_path u \<noteq> [] then out @ (if m_path u ! 0 \<noteq> CHR ''/'' then ''/'' else []) @ m_path u else out);
          out = (if m_mapQuery u \<noteq> [] then out @ ''?'' @ render_query (m_mapQuery u) else out)
      in (u\<lparr>m_origUri := out\<rparr>, out))"

subsection \<open>Searching in a concatenation\<close>

lemma find_char_append [simp]: "c \<notin> set A \<Longrightarrow> find_char c (A @ c # B) 0 = Some (length A)"
  by (auto simp: find_char_Some nth_append in_set_conv_nth)

declare find_char_notin [simp]

lemma find_char_append_from:
  "c \<notin> set B \<Longrightarrow> find_char c (A @ B @ c # C) (length A) = Some (length A + length B)"
  by (auto simp: find_char_Some nth_append in_set_conv_nth)

lemma find_char_append_from_None: "c \<notin> set B \<Longrightarrow> find_char c (A @ B) (length A) = None"
proof -
  assume c: "c \<notin> set B"
  have "B ! (j - length A) \<noteq> c" if "length A \<le> j" "j < length A + length B" for j
    using c nth_mem[of "j - length A" B] that by auto
  then show ?thesis by (auto simp: find_char_None nth_append)
qed

lemma rfind_char_append [simp]: "c \<notin> set B \<Longrightarrow> rfind_char c (A @ c # B) = Some (length A)"
proof -
  assume c: "c \<notin> set B"
  have "(A @ c # B) ! j \<noteq> c" if "length A < j" "j < length (A @ c # B)" for j
  proof -
    from that have "(A @ c # B) ! j = B ! (j - length A - 1)" and "j - length A - 1 < length B"
      by (simp_all add: nth_append)
    with c show ?thesis by (metis nth_mem)
  qed
  then show ?thesis by (simp add: rfind_char_Some)
qed

lemma find_proto: "CHR '':'' \<notin> set P \<Longrightarrow> find_str ''://'' (P @ ''://'' @ H) 0 = Some (length P)"
proof -
  assume P: "CHR '':'' \<notin> set P"
  have no: "take (length ''://'') (drop j (P @ ''://'' @ H)) \<noteq> ''://''" if "j < length P" for j
  proof
    assume "take (length ''://'') (drop j (P @ ''://'' @ H)) = ''://''"
    then have "take (length ''://'') (drop j (P @ ''://'' @ H)) ! 0 = CHR '':''"
      by (metis nth_Cons_0)
    with that have "P ! j = CHR '':''" by (simp add: nth_append)
    with that P show False by (metis nth_mem)
  qed
  show ?thesis
    unfolding find_str_Some using no by auto
qed

subsection \<open>The passes on a canonical URI\<close>

lemma url_decode_plain: "CHR 0x25 \<notin> set s \<Longrightarrow> url_decode s = s"
  by (simp add: url_decode_def url_decode_from.simps[of s] substr_def)

lemma split_query_canonical:
  "CHR ''?'' \<notin> set A \<Longrightarrow> split_query (A @ ''?'' @ Q) = (A, Some (length A + 1))"
  by (simp add: split_query_def substr_def)

lemma split_proto_canonical:
  "CHR '':'' \<notin> set P \<Longrightarrow> split_proto (P @ ''://'' @ H) = (tolower P, H)"
  using find_proto[of P H] by (simp add: split_proto_def substr_def)

lemma split_port_canonical:
  assumes "CHR '':'' \<notin> set p" and "p \<noteq> []"
  shows "split_port (h @ '':'' @ p) None = (p, h)"
proof -
  have "rfind_char (CHR '':'') (h @ '':'' @ p) = Some (length h)"
    using assms(1) by simp
  then have "find_port (h @ '':'' @ p) None = (Some (length h), False, 0)"
    by (simp add: find_port_def)
  with assms(2) show ?thesis
    by (simp add: split_port_def substr_def)
qed

definition plain_entry :: "string \<times> string \<Rightarrow> bool" where
  "plain_entry e \<longleftrightarrow> CHR ''='' \<notin> set (fst e)
     \<and> CHR ''&'' \<notin> set (fst e @ snd e) \<and> CHR 0x25 \<notin> set (fst e @ snd e)"

lemma put_pair_plain: "plain_entry (k, v) \<Longrightarrow> put_pair (k @ ''='' @ v) q = cmap_put k v q"
  by (simp add: plain_entry_def put_pair_def substr_def url_decode_plain)

lemma parse_query_render:
  "m \<noteq> [] \<Longrightarrow> list_all plain_entry m \<Longrightarrow>
     parse_query (A @ render_query m) (length A) q = cm.put_all m q"
proof (induction m arbitrary: A q rule: render_query.induct)
  case 1
  then show ?case by simp
next
  case (2 k v)
  let ?s = "k @ ''='' @ v"
  have "CHR ''&'' \<notin> set ?s" using 2 by (simp add: plain_entry_def)
  then have n: "find_char (CHR ''&'') (A @ ?s) (length A) = None"
    by (rule find_char_append_from_None)
  then show ?case
    using 2 put_pair_plain[of k v q]
    by (simp add: parse_query.simps[of "A @ _"] substr_def cm.put_all_def)
next
  case (3 k v e m)
  let ?s = "k @ ''='' @ v" and ?rest = "render_query (e # m)"
  have "CHR ''&'' \<notin> set ?s" using 3 by (simp add: plain_entry_def)
  then have n: "find_char (CHR ''&'') (A @ ?s @ CHR ''&'' # ?rest) (length A) = Some (length A + length ?s)"
    by (rule find_char_append_from)
  have "parse_query (A @ render_query ((k, v) # e # m)) (length A) q
      = parse_query ((A @ ?s @ ''&'') @ ?rest) (length (A @ ?s @ ''&'')) (put_pair ?s q)"
    using n by (simp add: parse_query.simps[of "A @ _"] substr_def)
  also have "\<dots> = cm.put_all (e # m) (put_pair ?s q)"
    using 3 by (intro "3.IH") simp_all
  also have "put_pair ?s q = cmap_put k v q"
    using 3 by (intro put_pair_plain) simp
  finally show ?case by (simp add: cm.put_all_def)
qed

lemma put_all_empty: "cmap_inv m \<Longrightarrow> cm.put_all m cmap_empty = m"
proof (rule cmap_eqI)
  assume m: "cmap_inv m"
  show "cmap_inv (cm.put_all m cmap_empty)"
    by (rule cm.inv_put_all) (rule cm.inv_empty)
  show "cmap_inv m" by (rule m)
  have "distinct (map fst m)"
    using m by (simp add: cmap_inv_def strict_sorted_iff)
  then have "map_of (rev m) = map_of m"
    by (intro map_of_inject_set[THEN iffD2]) (simp_all add: rev_map[symmetric])
  then show "cmap_get (cm.put_all m cmap_empty) k = cmap_get m k" for k
    by (simp add: cm.get_put_all cm.inv_empty cm.get_empty) (simp add: cmap_get_def cmap_empty_def split: option.split)
qed

text \<open>
  A URI in canonical form: a lower-case scheme, a host and a port without the characters that
  delimit the parts, no path, at least one parameter, and no percent sign or ampersand in the parameters.
\<close>

definition canonical :: "uri \<Rightarrow> bool" where
  "canonical u \<longleftrightarrow>
     m_proto u \<noteq> [] \<and> tolower (m_proto u) = m_proto u
     \<and> set (m_proto u) \<inter> set '':?'' = {} \<and> set (m_host u) \<inter> set '':?/[@'' = {}
     \<and> set (m_port u) \<inter> set '':?/[@'' = {} \<and> m_port u \<noteq> [] \<and> m_port u \<noteq> ''0'' \<and> m_path u = []
     \<and> m_mapQuery u \<noteq> [] \<and> cmap_inv (m_mapQuery u) \<and> list_all plain_entry (m_mapQuery u)
     \<and> m_uriType u = (case map_of g_types (m_proto u) of Some t \<Rightarrow> t | None \<Rightarrow> UNKNOWN)"

text \<open>C11: printing a canonical URI with \<^verbatim>\<open>makeUri\<close> and parsing the result gives back the same URI: scheme,
  type, host, port and every parameter.\<close>

theorem Parse_makeUri:
  assumes c: "canonical u"
  shows "Parse (snd (makeUri u)) (m_expect u) = fst (makeUri u)"
proof -
  let ?H = "m_host u @ '':'' @ m_port u" and ?Q = "render_query (m_mapQuery u)"
  let ?A = "m_proto u @ ''://'' @ ?H"
  have out: "snd (makeUri u) = ?A @ ''?'' @ ?Q" and new: "fst (makeUri u) = u\<lparr>m_origUri := ?A @ ''?'' @ ?Q\<rparr>"
    using c by (simp_all add: makeUri_def canonical_def Let_def)
  have "CHR ''?'' \<notin> set ?A" using c by (auto simp: canonical_def)
  then have s1: "split_query (?A @ ''?'' @ ?Q) = (?A, Some (length ?A + 1))"
    by (rule split_query_canonical)
  have "CHR '':'' \<notin> set (m_proto u)" using c by (auto simp: canonical_def)
  then have s2: "split_proto ?A = (m_proto u, ?H)"
    using c split_proto_canonical[of "m_proto u" ?H] by (simp add: canonical_def)
  have br: "CHR ''['' \<notin> set ?H" and sl: "CHR ''/'' \<notin> set ?H" and at: "CHR ''@'' \<notin> set ?H"
    using c by (auto simp: canonical_def)
  have s3: "split_path ?H None = ([], ?H)" and s4: "split_user ?H cmap_empty = (?H, cmap_empty)"
    by (simp_all only: split_path_def split_user_def find_char_notin[OF sl] find_char_notin[OF at]
        option.case Let_def)
  have s5: "split_port ?H None = (m_port u, m_host u)"
    using c by (intro split_port_canonical) (auto simp: canonical_def)
  have s6: "parse_query (?A @ ''?'' @ ?Q) (length ?A + 1) cmap_empty = m_mapQuery u"
    using c parse_query_render[of "m_mapQuery u" "?A @ ''?''" cmap_empty] put_all_empty[of "m_mapQuery u"]
    by (simp add: canonical_def)
  have ne: "m_proto u \<noteq> []" using c by (simp add: canonical_def)
  have ty: "m_uriType u = (case map_of g_types (m_proto u) of Some t \<Rightarrow> t | None \<Rightarrow> UNKNOWN)"
    "m_path u = []"
    using c by (simp_all add: canonical_def)
  show ?thesis
    unfolding out new Parse_def
    by (simp only: s1 s2 Let_def prod.case find_char_notin[OF br] s3 s4 s5 option.case s6)
      (simp add: ne ty)
qed

theorem Parse_makeUri_witness:
  "Parse ''srt://host:42?latency=120'' EXPECT_FILE =
     \<lparr>m_origUri = ''srt://host:42?latency=120'', m_proto = ''srt'', m_host = ''host'', m_port = ''42'',
      m_path = [], m_uriType = SRT, m_expect = EXPECT_FILE, m_mapQuery = [(''latency'', ''120'')]\<rparr>"
proof -
  let ?u = "\<lparr>m_origUri = [], m_proto = ''srt'', m_host = ''host'', m_port = ''42'',
      m_path = [], m_uriType = SRT, m_expect = EXPECT_FILE, m_mapQuery = [(''latency'', ''120'')]\<rparr>"
  have "canonical ?u"
    by (simp add: canonical_def tolower_def tolower_char_def cmap_inv_def plain_entry_def g_types_def)
  from Parse_makeUri[OF this] show ?thesis
    by (simp add: makeUri_def Let_def)
qed

text \<open>\<^verbatim>\<open>portno()\<close> is always a valid port number, and it is the number that was printed into the port
  field when that number is between 1 and 65535, otherwise 0 for every number of up to 31 bits.\<close>

theorem portno_range:
  "0 \<le> portno u \<and> portno u \<le> 65535
   \<and> (n < 2 ^ 31 \<longrightarrow> portno (u\<lparr>m_port := nat_to_string n\<rparr>) = (if n \<le> 65535 then int n else 0))"
proof -
  have "portno (u\<lparr>m_port := nat_to_string n\<rparr>) = (if n \<le> 65535 then int n else 0)" if "n < 2 ^ 31"
  proof -
    have "atoi (nat_to_string n) = int n"
      using that by (simp add: atoi_def strtol_parse_nat_to_string clamp64_def wrap_int_id in_int_def)
    then show ?thesis by (simp add: portno_def Let_def)
  qed
  then show ?thesis by (auto simp: portno_def Let_def)
qed

theorem portno_range_witness:
  "(4200::nat) < 2 ^ 31 \<and>
   portno (Parse ''srt://h:1'' EXPECT_FILE\<lparr>m_port := nat_to_string 4200\<rparr>) = 4200"
  using portno_range[of "Parse ''srt://h:1'' EXPECT_FILE" 4200] by simp

end
