(* ===== verification/Effects.thy ===== *)
theory Effects
  imports Prelude
begin

text \<open>
  Effectful code as a value. A \<open>prog\<close> is a tree of calls to the environment (the SRT library, the
  clock, the file system, the atomic flags): \<open>Call c k\<close> performs the call \<open>c\<close> and continues with
  \<open>k\<close> applied to the reply. \<open>Ret\<close> is a normal return, \<open>Exc\<close> a C++ exception in flight and \<open>NoFuel\<close>
  the end of the fuel of a loop. Two semantics are given and related:
  \<open>runs p tr out\<close> holds when \<open>p\<close> can produce the trace \<open>tr\<close> of calls with their replies and end with
  \<open>out\<close>, for whatever the environment replies; \<open>exec p env h\<close> executes \<open>p\<close> against a given
  environment. Every theorem about all \<open>runs\<close> therefore holds in every environment, threads that
  change a shared flag between two reads included.
\<close>

datatype ('c, 'r, 'a) prog =
    Ret 'a
  | Exc cpp_exn
  | NoFuel
  | Call 'c "'r \<Rightarrow> ('c, 'r, 'a) prog"

datatype 'a outcome = Ok 'a | Raised cpp_exn | Fuel_out

type_synonym ('c, 'r) trace = "('c \<times> 'r) list"

primrec bindP :: "('c, 'r, 'a) prog \<Rightarrow> ('a \<Rightarrow> ('c, 'r, 'b) prog) \<Rightarrow> ('c, 'r, 'b) prog" where
  "bindP (Ret x) f = f x"
| "bindP (Exc e) f = Exc e"
| "bindP NoFuel f = NoFuel"
| "bindP (Call c k) f = Call c (\<lambda>r. bindP (k r) f)"

text \<open>\<^verbatim>\<open>try { p } catch\<close>: the handler sees every exception and re-raises those it does not name.\<close>

primrec catchP :: "('c, 'r, 'a) prog \<Rightarrow> (cpp_exn \<Rightarrow> ('c, 'r, 'a) prog) \<Rightarrow> ('c, 'r, 'a) prog" where
  "catchP (Ret x) h = Ret x"
| "catchP (Exc e) h = h e"
| "catchP NoFuel h = NoFuel"
| "catchP (Call c k) h = Call c (\<lambda>r. catchP (k r) h)"

definition callP :: "'c \<Rightarrow> ('c, 'r, 'r) prog" where
  "callP c = Call c Ret"

primrec forP :: "('x \<Rightarrow> ('c, 'r, unit) prog) \<Rightarrow> 'x list \<Rightarrow> ('c, 'r, unit) prog" where
  "forP f [] = Ret ()"
| "forP f (x # xs) = bindP (f x) (\<lambda>_. forP f xs)"

primrec foldP :: "('x \<Rightarrow> 's \<Rightarrow> ('c, 'r, 's) prog) \<Rightarrow> 'x list \<Rightarrow> 's \<Rightarrow> ('c, 'r, 's) prog" where
  "foldP f [] s = Ret s"
| "foldP f (x # xs) s = bindP (f x s) (foldP f xs)"

text \<open>A loop: the body returns \<open>Inl\<close> of the next state to go on, \<open>Inr\<close> of a result to stop.\<close>

primrec loopP :: "nat \<Rightarrow> ('s \<Rightarrow> ('c, 'r, 's + 'a) prog) \<Rightarrow> 's \<Rightarrow> ('c, 'r, 'a) prog" where
  "loopP 0 body s = NoFuel"
| "loopP (Suc n) body s =
     bindP (body s) (\<lambda>x. case x of Inl s' \<Rightarrow> loopP n body s' | Inr a \<Rightarrow> Ret a)"

primrec runs :: "('c, 'r, 'a) prog \<Rightarrow> ('c, 'r) trace \<Rightarrow> 'a outcome \<Rightarrow> bool" where
  "runs (Ret x) tr out \<longleftrightarrow> tr = [] \<and> out = Ok x"
| "runs (Exc e) tr out \<longleftrightarrow> tr = [] \<and> out = Raised e"
| "runs NoFuel tr out \<longleftrightarrow> tr = [] \<and> out = Fuel_out"
| "runs (Call c k) tr out \<longleftrightarrow>
     (case tr of [] \<Rightarrow> False | e # tr' \<Rightarrow> fst e = c \<and> runs (k (snd e)) tr' out)"

primrec exec ::
  "('c, 'r, 'a) prog \<Rightarrow> (('c, 'r) trace \<Rightarrow> 'c \<Rightarrow> 'r) \<Rightarrow> ('c, 'r) trace \<Rightarrow> ('c, 'r) trace \<times> 'a outcome" where
  "exec (Ret x) env h = ([], Ok x)"
| "exec (Exc e) env h = ([], Raised e)"
| "exec NoFuel env h = ([], Fuel_out)"
| "exec (Call c k) env h =
     (let r = env h c; (tr, out) = exec (k r) env (h @ [(c, r)]) in ((c, r) # tr, out))"

text \<open>Replies taken from a list, in order: a convenient concrete environment.\<close>

primrec scripted :: "('c, 'r, 'a) prog \<Rightarrow> 'r list \<Rightarrow> (('c, 'r) trace \<times> 'a outcome) option" where
  "scripted (Ret x) rs = Some ([], Ok x)"
| "scripted (Exc e) rs = Some ([], Raised e)"
| "scripted NoFuel rs = Some ([], Fuel_out)"
| "scripted (Call c k) rs =
     (case rs of [] \<Rightarrow> None
      | r # rs' \<Rightarrow> map_option (\<lambda>(tr, out). ((c, r) # tr, out)) (scripted (k r) rs'))"

definition consistent :: "(('c, 'r) trace \<Rightarrow> 'c \<Rightarrow> 'r) \<Rightarrow> ('c, 'r) trace \<Rightarrow> ('c, 'r) trace \<Rightarrow> bool" where
  "consistent env h tr \<longleftrightarrow>
     (\<forall>i < length tr. snd (tr ! i) = env (h @ take i tr) (fst (tr ! i)))"

subsection \<open>The two semantics agree\<close>

lemma runs_exec: "runs p (fst (exec p env h)) (snd (exec p env h))"
proof (induction p arbitrary: h)
  case (Call c k)
  show ?case
    using Call[OF rangeI, of "env h c" "h @ [(c, env h c)]"]
    by (simp add: Let_def split_beta)
qed simp_all

lemma consistent_Nil [simp]: "consistent env h []"
  by (simp add: consistent_def)

lemma consistent_Cons [simp]:
  "consistent env h ((c, r) # tr) \<longleftrightarrow> r = env h c \<and> consistent env (h @ [(c, r)]) tr"
  by (auto simp: consistent_def nth_Cons less_Suc_eq_0_disj split: nat.splits)

lemma exec_consistent: "consistent env h (fst (exec p env h))"
proof (induction p arbitrary: h)
  case (Call c k)
  show ?case
    using Call[OF rangeI, of "h @ [(c, env h c)]" "env h c"]
    by (simp add: Let_def split_beta)
qed simp_all

lemma runs_consistent_exec:
  "runs p tr out \<Longrightarrow> consistent env h tr \<Longrightarrow> exec p env h = (tr, out)"
proof (induction p arbitrary: tr h)
  case (Call c k)
  from Call.prems(1) obtain r tr' where tr: "tr = (c, r) # tr'" and run: "runs (k r) tr' out"
    by (cases tr) (auto split: prod.splits)
  with Call.prems(2) have r: "r = env h c" and con: "consistent env (h @ [(c, r)]) tr'"
    by auto
  have "exec (k r) env (h @ [(c, r)]) = (tr', out)"
    by (rule Call.IH[OF rangeI run con])
  with r tr show ?case
    by (simp add: Let_def)
qed simp_all

lemma runs_scripted: "scripted p rs = Some (tr, out) \<Longrightarrow> runs p tr out"
proof (induction p arbitrary: rs tr)
  case (Call c k)
  then show ?case
    by (cases rs) auto
qed auto

subsection \<open>Runs of composed programs\<close>

lemma runs_Call:
  "runs (Call c k) tr out \<longleftrightarrow> (\<exists>r tr'. tr = (c, r) # tr' \<and> runs (k r) tr' out)"
  by (cases tr) (auto split: prod.splits)

lemma runs_Call_split:
  "(\<exists>tr1 tr2. e # tr = tr1 @ tr2 \<and> runs (Call c k) tr1 o1 \<and> P tr2) \<longleftrightarrow>
     fst e = c \<and> (\<exists>tr1 tr2. tr = tr1 @ tr2 \<and> runs (k (snd e)) tr1 o1 \<and> P tr2)"
proof
  assume "\<exists>tr1 tr2. e # tr = tr1 @ tr2 \<and> runs (Call c k) tr1 o1 \<and> P tr2"
  then show "fst e = c \<and> (\<exists>tr1 tr2. tr = tr1 @ tr2 \<and> runs (k (snd e)) tr1 o1 \<and> P tr2)"
    by (auto simp: Cons_eq_append_conv) blast
next
  assume "fst e = c \<and> (\<exists>tr1 tr2. tr = tr1 @ tr2 \<and> runs (k (snd e)) tr1 o1 \<and> P tr2)"
  then obtain tr1 tr2 where "fst e = c" "tr = tr1 @ tr2" "runs (k (snd e)) tr1 o1" "P tr2"
    by blast
  then have "e # tr = (e # tr1) @ tr2 \<and> runs (Call c k) (e # tr1) o1 \<and> P tr2"
    by simp
  then show "\<exists>tr1 tr2. e # tr = tr1 @ tr2 \<and> runs (Call c k) tr1 o1 \<and> P tr2"
    by blast
qed

lemma runs_bindP:
  "runs (bindP p f) tr out \<longleftrightarrow>
     (\<exists>x tr1 tr2. tr = tr1 @ tr2 \<and> runs p tr1 (Ok x) \<and> runs (f x) tr2 out)
     \<or> (\<exists>e. out = Raised e \<and> runs p tr (Raised e))
     \<or> (out = Fuel_out \<and> runs p tr Fuel_out)"
proof (induction p arbitrary: tr)
  case (Call c k)
  show ?case
  proof (cases tr)
    case (Cons e tr')
    then show ?thesis
      unfolding Cons runs_Call_split
      by (cases "fst e = c") (simp_all add: Call[OF rangeI])
  qed simp
qed auto

lemma runs_bindP_Ok:
  "runs (bindP p f) tr (Ok y) \<longleftrightarrow>
     (\<exists>x tr1 tr2. tr = tr1 @ tr2 \<and> runs p tr1 (Ok x) \<and> runs (f x) tr2 (Ok y))"
  by (simp add: runs_bindP)

text \<open>A program that always returns is followed by its continuation.\<close>

definition returns :: "('c, 'r, 'a) prog \<Rightarrow> bool" where
  "returns p \<longleftrightarrow> (\<forall>tr out. runs p tr out \<longrightarrow> (\<exists>x. out = Ok x))"

lemma runs_bindP_returns:
  assumes "returns p"
  shows "runs (bindP p f) tr out \<longleftrightarrow> (\<exists>x tr1 tr2. tr = tr1 @ tr2 \<and> runs p tr1 (Ok x) \<and> runs (f x) tr2 out)"
  using assms unfolding returns_def runs_bindP by blast

lemma runs_catchP:
  "runs (catchP p h) tr out \<longleftrightarrow>
     (\<exists>x. out = Ok x \<and> runs p tr (Ok x))
     \<or> (\<exists>e tr1 tr2. tr = tr1 @ tr2 \<and> runs p tr1 (Raised e) \<and> runs (h e) tr2 out)
     \<or> (out = Fuel_out \<and> runs p tr Fuel_out)"
proof (induction p arbitrary: tr)
  case (Call c k)
  show ?case
  proof (cases tr)
    case (Cons e tr')
    then show ?thesis
      unfolding Cons runs_Call_split
      by (cases "fst e = c") (simp_all add: Call[OF rangeI])
  qed simp
qed auto

lemma runs_callP [simp]: "runs (callP c) tr out \<longleftrightarrow> (\<exists>r. tr = [(c, r)] \<and> out = Ok r)"
  by (auto simp: callP_def runs_Call simp del: runs.simps(4))

lemma bindP_callP [simp]: "bindP (callP c) f = Call c f"
  by (simp add: callP_def)

lemma bindP_assoc: "bindP (bindP p f) g = bindP p (\<lambda>x. bindP (f x) g)"
  by (induction p) simp_all

lemma bindP_if [simp]: "bindP (if b then p else q) f = (if b then bindP p f else bindP q f)"
  by simp

lemma runs_if: "runs (if b then p else q) tr out \<longleftrightarrow> (if b then runs p tr out else runs q tr out)"
  by simp

text \<open>\<open>runs_call_simps\<close> turns a run of a straight-line program into equations on its trace.\<close>

lemmas runs_call_simps = runs.simps(1,2,3) runs_Call runs_if

subsection \<open>Rules for the loop\<close>

text \<open>
  The invariant rule. \<open>I s h\<close> relates the loop state and the history; each iteration keeps it, and
  the ways to leave the loop establish \<open>Q\<close> (a result), \<open>E\<close> (an exception) or \<open>F\<close> (the end of the fuel, of the loop
  or of its body).
\<close>

lemma runs_loopP_outcome:
  assumes run: "runs (loopP n body s) tr out" and init: "I s h"
    and step: "\<And>s h tr s'. I s h \<Longrightarrow> runs (body s) tr (Ok (Inl s')) \<Longrightarrow> I s' (h @ tr)"
    and ret: "\<And>s h tr a. I s h \<Longrightarrow> runs (body s) tr (Ok (Inr a)) \<Longrightarrow> Q a (h @ tr)"
    and exc: "\<And>s h tr e. I s h \<Longrightarrow> runs (body s) tr (Raised e) \<Longrightarrow> E e (h @ tr)"
    and fuel: "\<And>s h tr. I s h \<Longrightarrow> runs (body s) tr Fuel_out \<Longrightarrow> F (h @ tr)"
    and stop: "\<And>s h. I s h \<Longrightarrow> F h"
  shows "case out of Ok a \<Rightarrow> Q a (h @ tr) | Raised e \<Rightarrow> E e (h @ tr) | Fuel_out \<Rightarrow> F (h @ tr)"
  using run init
proof (induction n arbitrary: s h tr)
  case 0
  then show ?case by (auto dest: stop)
next
  case (Suc n)
  from Suc.prems(1) consider
      x tr1 tr2 where "tr = tr1 @ tr2" "runs (body s) tr1 (Ok x)"
        "runs (case x of Inl s' \<Rightarrow> loopP n body s' | Inr a \<Rightarrow> Ret a) tr2 out"
    | e where "out = Raised e" "runs (body s) tr (Raised e)"
    | "out = Fuel_out" "runs (body s) tr Fuel_out"
    by (auto simp: runs_bindP)
  then show ?case
  proof cases
    case 1
    show ?thesis
    proof (cases x)
      case (Inl s')
      with 1 Suc.prems(2) have "I s' (h @ tr1)" by (auto intro: step)
      with 1 Inl show ?thesis using Suc.IH[of s' tr2 "h @ tr1"] by (cases out) simp_all
    next
      case (Inr a)
      with 1 have "runs (body s) tr1 (Ok (Inr a))" and o: "out = Ok a" "tr = tr1"
        by simp_all
      with Suc.prems(2) have "Q a (h @ tr1)" by (blast intro: ret)
      with o show ?thesis by simp
    qed
  next
    case 2
    with Suc.prems(2) have "E e (h @ tr)" by (blast intro: exc)
    with 2 show ?thesis by simp
  next
    case 3
    with Suc.prems(2) have "F (h @ tr)" by (blast intro: fuel)
    with 3 show ?thesis by simp
  qed
qed

text \<open>The same rule when nothing is claimed of a loop that ran out of fuel.\<close>

lemma runs_loopP_invariant:
  assumes "runs (loopP n body s) tr out" and "I s h"
    and "\<And>s h tr s'. I s h \<Longrightarrow> runs (body s) tr (Ok (Inl s')) \<Longrightarrow> I s' (h @ tr)"
    and "\<And>s h tr a. I s h \<Longrightarrow> runs (body s) tr (Ok (Inr a)) \<Longrightarrow> Q a (h @ tr)"
    and "\<And>s h tr e. I s h \<Longrightarrow> runs (body s) tr (Raised e) \<Longrightarrow> E e (h @ tr)"
  shows "case out of Ok a \<Rightarrow> Q a (h @ tr) | Raised e \<Rightarrow> E e (h @ tr) | Fuel_out \<Rightarrow> True"
  by (rule runs_loopP_outcome[where I = I and F = "\<lambda>_. True"]) (blast intro: assms)+

text \<open>Every exit of the loop is an exit of one iteration whose state satisfies the invariant.\<close>

lemma runs_loopP_Ok:
  assumes "runs (loopP n body s) tr (Ok a)" and "I s h"
    and "\<And>s h tr s'. I s h \<Longrightarrow> runs (body s) tr (Ok (Inl s')) \<Longrightarrow> I s' (h @ tr)"
    and "\<And>s h tr a. I s h \<Longrightarrow> runs (body s) tr (Ok (Inr a)) \<Longrightarrow> Q a (h @ tr)"
  shows "Q a (h @ tr)"
proof -
  have "case Ok a of Ok a \<Rightarrow> Q a (h @ tr) | Raised e \<Rightarrow> True | Fuel_out \<Rightarrow> True"
    by (rule runs_loopP_invariant[where E = "\<lambda>_ _. True" and I = I]) (blast intro: assms)+
  then show ?thesis by simp
qed

text \<open>More fuel does not change a run that ended.\<close>

lemma runs_loopP_mono:
  "runs (loopP n body s) tr out \<Longrightarrow> out \<noteq> Fuel_out \<Longrightarrow> n \<le> m \<Longrightarrow> runs (loopP m body s) tr out"
proof (induction n arbitrary: m s tr)
  case 0
  then show ?case by simp
next
  case (Suc n)
  then obtain m' where m: "m = Suc m'" "n \<le> m'"
    by (cases m) auto
  have "runs (case x of Inl s' \<Rightarrow> loopP n body s' | Inr a \<Rightarrow> Ret a) t out \<Longrightarrow>
        runs (case x of Inl s' \<Rightarrow> loopP m' body s' | Inr a \<Rightarrow> Ret a) t out" for x t
    using Suc.IH[OF _ Suc.prems(2) m(2)] by (cases x) auto
  with Suc.prems m show ?case
    by (auto simp: runs_bindP) blast
qed

text \<open>A loop whose iterations decrease a measure does not run out of fuel.\<close>

lemma runs_loopP_terminates:
  assumes "runs (loopP n body s) tr out" and "J s" and "m s < n"
    and step: "\<And>s tr s'. J s \<Longrightarrow> runs (body s) tr (Ok (Inl s')) \<Longrightarrow> J s' \<and> m s' < m s"
    and body: "\<And>s tr. J s \<Longrightarrow> \<not> runs (body s) tr Fuel_out"
  shows "out \<noteq> Fuel_out"
  using assms(1,2,3)
proof (induction n arbitrary: s tr)
  case 0
  then show ?case by simp
next
  case (Suc n)
  show ?case
  proof
    assume out: "out = Fuel_out"
    with Suc.prems(1) body[OF Suc.prems(2)] obtain x tr1 tr2 where
      x: "runs (body s) tr1 (Ok x)" "runs (case x of Inl s' \<Rightarrow> loopP n body s' | Inr a \<Rightarrow> Ret a) tr2 Fuel_out"
      by (auto simp: runs_bindP)
    then show False
    proof (cases x)
      case (Inl s')
      with x step[OF Suc.prems(2), of tr1 s'] Suc.prems(3) have "J s'" "m s' < n" by auto
      with Suc.IH[of s' tr2] x(2) Inl out show False by simp
    next
      case (Inr a)
      with x show False by simp
    qed
  qed
qed

subsection \<open>What a program may call and raise\<close>

text \<open>\<open>confined C E p\<close>: every call of \<open>p\<close> is in \<open>C\<close> and every exception that leaves it is in \<open>E\<close>.\<close>

primrec confined :: "('c \<Rightarrow> bool) \<Rightarrow> (cpp_exn \<Rightarrow> bool) \<Rightarrow> ('c, 'r, 'a) prog \<Rightarrow> bool" where
  "confined C E (Ret x) \<longleftrightarrow> True"
| "confined C E (Exc e) \<longleftrightarrow> E e"
| "confined C E NoFuel \<longleftrightarrow> True"
| "confined C E (Call c k) \<longleftrightarrow> C c \<and> (\<forall>r. confined C E (k r))"

named_theorems confined_intros \<open>introduction rules for confined\<close>

lemma confined_bindP [confined_intros]:
  "confined C E p \<Longrightarrow> (\<And>x. confined C E (f x)) \<Longrightarrow> confined C E (bindP p f)"
  by (induction p) simp_all

lemma confined_callP [simp]: "confined C E (callP c) \<longleftrightarrow> C c"
  by (simp add: callP_def)

lemma confined_if [confined_intros]:
  "(b \<Longrightarrow> confined C E p) \<Longrightarrow> (\<not> b \<Longrightarrow> confined C E q) \<Longrightarrow> confined C E (if b then p else q)"
  by simp

lemma confined_catchP:
  "confined C (\<lambda>_. True) p \<Longrightarrow> (\<And>e. confined C E (h e)) \<Longrightarrow> confined C E (catchP p h)"
  by (induction p) simp_all

lemma confined_foldP [confined_intros]: "(\<And>x s. confined C E (f x s)) \<Longrightarrow> confined C E (foldP f xs s)"
  by (induction xs arbitrary: s) (simp_all add: confined_bindP)

lemma confined_forP [confined_intros]: "(\<And>x. confined C E (f x)) \<Longrightarrow> confined C E (forP f xs)"
  by (induction xs) (simp_all add: confined_bindP)

lemma confined_loopP [confined_intros]: "(\<And>s. confined C E (body s)) \<Longrightarrow> confined C E (loopP n body s)"
  by (induction n arbitrary: s) (auto intro!: confined_bindP split: sum.splits)

lemma confined_mono: "confined C E p \<Longrightarrow> (\<And>c. C c \<Longrightarrow> C' c) \<Longrightarrow> (\<And>e. E e \<Longrightarrow> E' e) \<Longrightarrow> confined C' E' p"
  by (induction p) auto

lemma confined_runs: "confined C E p \<Longrightarrow> runs p tr out \<Longrightarrow> list_all (\<lambda>e. C (fst e)) tr"
proof (induction p arbitrary: tr)
  case (Call c k)
  then obtain r tr' where "tr = (c, r) # tr'" "runs (k r) tr' out"
    by (auto simp: runs_Call simp del: runs.simps(4))
  with Call.prems(1) Call.IH[OF rangeI, of r tr'] show ?case by simp
qed simp_all

lemma confined_raised: "confined C E p \<Longrightarrow> runs p tr (Raised e) \<Longrightarrow> E e"
proof (induction p arbitrary: tr)
  case (Call c k)
  then obtain r tr' where "runs (k r) tr' (Raised e)"
    by (auto simp: runs_Call simp del: runs.simps(4))
  with Call.prems(1) Call.IH[OF rangeI, of r tr'] show ?case by simp
qed simp_all

lemma catchP_no_exc: "confined C (\<lambda>_. False) p \<Longrightarrow> catchP p h = p"
  by (induction p) auto

text \<open>Programs without a fuelled loop never run out of fuel.\<close>

primrec loop_free :: "('c, 'r, 'a) prog \<Rightarrow> bool" where
  "loop_free (Ret x) \<longleftrightarrow> True"
| "loop_free (Exc e) \<longleftrightarrow> True"
| "loop_free NoFuel \<longleftrightarrow> False"
| "loop_free (Call c k) \<longleftrightarrow> (\<forall>r. loop_free (k r))"

lemma loop_free_bindP [confined_intros]:
  "loop_free p \<Longrightarrow> (\<And>x. loop_free (f x)) \<Longrightarrow> loop_free (bindP p f)"
  by (induction p) simp_all

lemma loop_free_callP [simp]: "loop_free (callP c)"
  by (simp add: callP_def)

lemma loop_free_catchP: "loop_free p \<Longrightarrow> (\<And>e. loop_free (h e)) \<Longrightarrow> loop_free (catchP p h)"
  by (induction p) simp_all

lemma loop_free_foldP [confined_intros]: "(\<And>x s. loop_free (f x s)) \<Longrightarrow> loop_free (foldP f xs s)"
  by (induction xs arbitrary: s) (simp_all add: loop_free_bindP)

lemma loop_free_forP [confined_intros]: "(\<And>x. loop_free (f x)) \<Longrightarrow> loop_free (forP f xs)"
  by (induction xs) (simp_all add: loop_free_bindP)

lemma loop_free_if [confined_intros]:
  "(b \<Longrightarrow> loop_free p) \<Longrightarrow> (\<not> b \<Longrightarrow> loop_free q) \<Longrightarrow> loop_free (if b then p else q)"
  by simp

lemma loop_free_runs: "loop_free p \<Longrightarrow> runs p tr out \<Longrightarrow> out \<noteq> Fuel_out"
proof (induction p arbitrary: tr)
  case (Call c k)
  then obtain r tr' where "runs (k r) tr' out"
    by (auto simp: runs_Call simp del: runs.simps(4))
  with Call.prems(1) Call.IH[OF rangeI, of r tr'] show ?case by simp
qed simp_all

text \<open>The invariant rule of \<open>foldP\<close>: \<open>I\<close> relates the elements done, the state and the trace so far.\<close>

lemma runs_foldP_Ok:
  assumes "runs (foldP f xs s) tr (Ok s')" and "I [] s []"
    and step: "\<And>ys x s t t' s'. I ys s t \<Longrightarrow> runs (f x s) t' (Ok s') \<Longrightarrow> I (ys @ [x]) s' (t @ t')"
  shows "I xs s' tr"
proof -
  have "runs (foldP f xs s) tr (Ok s') \<Longrightarrow> I ys s t \<Longrightarrow> I (ys @ xs) s' (t @ tr)" for ys t
  proof (induction xs arbitrary: s tr ys t)
    case Nil
    then show ?case by simp
  next
    case (Cons x xs)
    from Cons.prems(1) obtain s1 t1 t2 where "tr = t1 @ t2" "runs (f x s) t1 (Ok s1)" "runs (foldP f xs s1) t2 (Ok s')"
      by (auto simp: runs_bindP_Ok)
    with Cons.IH[of s1 t2 "ys @ [x]" "t @ t1"] step[OF Cons.prems(2)] show ?case by simp
  qed
  from this[of "[]" "[]"] assms(1,2) show ?thesis by simp
qed

text \<open>Running a program up to its exception: the result or the exception as a value.\<close>

definition tryP :: "('c, 'r, 'a) prog \<Rightarrow> ('c, 'r, cpp_exn + 'a) prog" where
  "tryP p = catchP (bindP p (\<lambda>x. Ret (Inr x))) (\<lambda>e. Ret (Inl e))"

lemma tryP_simps [simp]:
  "tryP (Ret x) = Ret (Inr x)" "tryP (Exc e) = Ret (Inl e)" "tryP NoFuel = NoFuel"
  "tryP (Call c k) = Call c (\<lambda>r. tryP (k r))"
  by (simp_all add: tryP_def)

lemma runs_tryP:
  "runs (tryP p) tr out \<longleftrightarrow>
     (\<exists>x. out = Ok (Inr x) \<and> runs p tr (Ok x)) \<or> (\<exists>e. out = Ok (Inl e) \<and> runs p tr (Raised e))
     \<or> out = Fuel_out \<and> runs p tr Fuel_out"
proof (induction p arbitrary: tr)
  case (Call c k)
  show ?case
  proof (cases tr)
    case (Cons e t)
    then show ?thesis by (cases "fst e = c") (simp_all add: Call[OF rangeI])
  qed simp
qed auto

lemma runs_tryP_Ok [simp]:
  "runs (tryP p) tr (Ok (Inr x)) \<longleftrightarrow> runs p tr (Ok x)" "runs (tryP p) tr (Ok (Inl e)) \<longleftrightarrow> runs p tr (Raised e)"
  by (auto simp: runs_tryP)

lemma confined_tryP: "confined C (\<lambda>_. True) p \<Longrightarrow> confined C E (tryP p)"
  by (induction p) simp_all

lemma loop_free_tryP: "loop_free p \<Longrightarrow> loop_free (tryP p)"
  by (induction p) simp_all

end
