(* ===== verification/SrtApi.thy ===== *)
theory SrtApi
  imports Effects Netaddr Complex_Main
begin

text \<open>
  The interface between the program and its surroundings. The constants, error codes, option symbols
  and data structures are those of \<^verbatim>\<open>srtcore/srt.h\<close>; the functions of the SRT library, of the operating
  system and of the C++ runtime that the sources call are the constructors of \<open>srt_call\<close> and
  \<open>os_call\<close>, their results are fields of \<open>reply\<close>. The library itself is not modelled: a reply may be
  anything the C signature allows, and what a theorem needs of the library is a hypothesis on the trace.
\<close>

subsection \<open>Constants\<close>

definition SRT_ERROR :: int where "SRT_ERROR = -1"
definition SRT_SUCCESS :: int where "SRT_SUCCESS = 0"
definition SRT_INVALID_SOCK :: int where "SRT_INVALID_SOCK = -1"
definition SRT_ECONNLOST :: int where "SRT_ECONNLOST = 1000 * 2 + 1"
definition SRT_EINVSOCK :: int where "SRT_EINVSOCK = 1000 * 5 + 4"
definition SRT_EASYNCSND :: int where "SRT_EASYNCSND = 1000 * 6 + 1"
definition SRT_EASYNCRCV :: int where "SRT_EASYNCRCV = 1000 * 6 + 2"
definition SRT_ETIMEOUT :: int where "SRT_ETIMEOUT = 1000 * 6 + 3"
definition SRT_EPOLL_IN :: int where "SRT_EPOLL_IN = 1"
definition SRT_EPOLL_OUT :: int where "SRT_EPOLL_OUT = 4"
definition SRT_EPOLL_ERR :: int where "SRT_EPOLL_ERR = 8"
definition SRTS_CONNECTED :: int where "SRTS_CONNECTED = 5"
definition SRTS_CLOSING :: int where "SRTS_CLOSING = 7"
definition SRT_GTYPE_BROADCAST :: int where "SRT_GTYPE_BROADCAST = 1"
definition SRT_GTYPE_BACKUP :: int where "SRT_GTYPE_BACKUP = 2"

lemmas srt_consts =
  SRT_ERROR_def SRT_SUCCESS_def SRT_INVALID_SOCK_def SRT_ECONNLOST_def SRT_EINVSOCK_def
  SRT_EASYNCSND_def SRT_EASYNCRCV_def SRT_ETIMEOUT_def SRT_EPOLL_IN_def SRT_EPOLL_OUT_def
  SRT_EPOLL_ERR_def SRTS_CONNECTED_def SRTS_CLOSING_def SRT_GTYPE_BROADCAST_def SRT_GTYPE_BACKUP_def

datatype sockopt =
    SRTO_MSS | SRTO_SNDSYN | SRTO_RCVSYN | SRTO_FC | SRTO_SNDBUF | SRTO_RCVBUF | SRTO_LINGER
  | SRTO_RENDEZVOUS | SRTO_MAXBW | SRTO_SENDER | SRTO_TSBPDMODE | SRTO_LATENCY | SRTO_INPUTBW
  | SRTO_OHEADBW | SRTO_PASSPHRASE | SRTO_PBKEYLEN | SRTO_KMSTATE | SRTO_IPTTL | SRTO_IPTOS
  | SRTO_TLPKTDROP | SRTO_SNDDROPDELAY | SRTO_NAKREPORT | SRTO_CONNTIMEO | SRTO_DRIFTTRACER
  | SRTO_MININPUTBW | SRTO_SNDKMSTATE | SRTO_RCVKMSTATE | SRTO_LOSSMAXTTL | SRTO_RCVLATENCY
  | SRTO_PEERLATENCY | SRTO_MINVERSION | SRTO_STREAMID | SRTO_CONGESTION | SRTO_MESSAGEAPI
  | SRTO_PAYLOADSIZE | SRTO_TRANSTYPE | SRTO_KMREFRESHRATE | SRTO_KMPREANNOUNCE
  | SRTO_ENFORCEDENCRYPTION | SRTO_IPV6ONLY | SRTO_PEERIDLETIMEO | SRTO_BINDTODEVICE
  | SRTO_GROUPCONNECT | SRTO_GROUPMINSTABLETIMEO | SRTO_GROUPTYPE | SRTO_PACKETFILTER
  | SRTO_RETRANSMITALGO | SRTO_CRYPTOMODE | SRTO_MAXREXMITBW

text \<open>The value block handed to \<^verbatim>\<open>srt_setsockopt\<close>.\<close>

datatype optval = OV_str string | OV_int int | OV_int64 int | OV_bool bool | OV_linger int int

subsection \<open>Data structures of the library\<close>

text \<open>\<^verbatim>\<open>SRT_TRACEBSTATS\<close>: the fields that the statistics report; a \<^verbatim>\<open>double\<close> is its rational value.\<close>

record perfmon =
  msTimeStamp :: int
  pktSent :: int
  pktRecv :: int
  pktSndLoss :: int
  pktRcvLoss :: int
  pktRetrans :: int
  pktRcvRetrans :: int
  mbpsSendRate :: rat
  mbpsRecvRate :: rat
  pktRcvBelated :: int
  pktSndDrop :: int
  pktRcvDrop :: int
  pktRcvUndecrypt :: int
  byteSent :: int
  byteRecv :: int
  byteRcvLoss :: int
  byteSndDrop :: int
  byteRcvDrop :: int
  usPktSndPeriod :: rat
  pktFlowWindow :: int
  pktCongestionWindow :: int
  pktFlightSize :: int
  msRTT :: rat
  mbpsBandwidth :: rat
  byteAvailSndBuf :: int
  byteAvailRcvBuf :: int
  mbpsMaxBW :: rat
  msSndBuf :: int
  msRcvBuf :: int
  msRcvTsbPdDelay :: int
  pktReorderTolerance :: int
  pktSentUnique :: int
  pktRecvUnique :: int

definition perfmon0 :: perfmon where
  "perfmon0 =
     \<lparr>msTimeStamp = 0, pktSent = 0, pktRecv = 0, pktSndLoss = 0, pktRcvLoss = 0, pktRetrans = 0,
      pktRcvRetrans = 0, mbpsSendRate = 0, mbpsRecvRate = 0, pktRcvBelated = 0, pktSndDrop = 0,
      pktRcvDrop = 0, pktRcvUndecrypt = 0, byteSent = 0, byteRecv = 0, byteRcvLoss = 0,
      byteSndDrop = 0, byteRcvDrop = 0, usPktSndPeriod = 0, pktFlowWindow = 0,
      pktCongestionWindow = 0, pktFlightSize = 0, msRTT = 0, mbpsBandwidth = 0, byteAvailSndBuf = 0,
      byteAvailRcvBuf = 0, mbpsMaxBW = 0, msSndBuf = 0, msRcvBuf = 0, msRcvTsbPdDelay = 0,
      pktReorderTolerance = 0, pktSentUnique = 0, pktRecvUnique = 0\<rparr>"

text \<open>\<^verbatim>\<open>SRT_SOCKGROUPDATA\<close> and \<^verbatim>\<open>SRT_SOCKGROUPCONFIG\<close>; a null source address is an address of family 0.\<close>

record groupdata =
  gd_id :: int
  gd_sockstate :: int
  gd_weight :: int

record groupconfig =
  gc_id :: int
  gc_srcaddr :: "byte list"
  gc_peeraddr :: "byte list"
  gc_weight :: int
  gc_config :: int
  gc_errorcode :: int
  gc_token :: int

subsection \<open>Calls and replies\<close>

datatype srt_call =
    Srt_startup
  | Srt_cleanup
  | Srt_create_socket
  | Srt_create_group int
  | Srt_close int
  | Srt_bind int "byte list" int
  | Srt_listen int int
  | Srt_accept int
  | Srt_accept_bond "int list" int
  | Srt_connect int "byte list" int
  | Srt_connect_group int "groupconfig list"
  | Srt_prepare_endpoint "byte list option" "byte list" int
  | Srt_delete_config int
  | Srt_listen_callback int
  | Srt_connect_callback int
  | Srt_epoll_create
  | Srt_epoll_release int
  | Srt_epoll_add_usock int int int
  | Srt_epoll_remove_usock int int
  | Srt_epoll_wait int bool bool int
  | Srt_setsockopt int sockopt optval
  | Srt_getsockflag int sockopt
  | Srt_getsockstate int
  | Srt_getsockname int
  | Srt_getsndbuffer int
  | Srt_bstats int bool
  | Srt_groupof int
  | Srt_group_data int "nat option"
  | Srt_sendmsg2 int bytes
  | Srt_sendmsg int bytes int bool
  | Srt_recvmsg2 int nat
  | Srt_recvmsg int nat
  | Srt_getlasterror
  | Srt_getlasterror_str
  | Srt_getrejectreason int
  | Srt_rejectreason_str int
  | Srt_setloglevel int
  | Srt_resetlogfa
  | Srt_addlogfa int
  | Srt_clock_type

datatype os_call =
    Clock_now
  | Sleep_until int
  | Sleep_for int
  | Load_flag string
  | Inet_pton int string
  | Getaddrinfo string int
  | Timestamp_now
  | Random_double
  | Fs_open_read string
  | Fs_read nat
  | Fs_open_write string
  | Fs_write string bytes
  | Fs_close string
  | Fs_create_directory string
  | Fs_is_directory string
  | Fs_list_directory string
  | Pacer_wait
  | Generate_payload bytes
  | Validate_packet bytes
  | Stats_open string string int
  | Stats_add_socket int
  | Stats_remove_socket int
  | Udp_open string
  | Udp_read int nat
  | Udp_write int bytes
  | Thread_start string
  | Thread_join string
  | Store_flag string bool
  | Pacer_create int int bool
  | Csv_pacer_create string
  | Validator_stats_csv bool
  | Validator_stats
  | Log_line string
  | Print_line string
  | Sys_initialize_network
  | Sys_cleanup_network
  | Log_set_level string
  | Sys_signal int

datatype call = Srt srt_call | Os os_call

text \<open>
  A reply. \<open>r_int\<close> is the C result; the other fields are the output parameters: ready sockets
  (\<open>r_fds\<close>), received or read bytes, strings, directory entries with their directory flag, statistics,
  group members, a prepared endpoint, a \<^verbatim>\<open>double\<close>, and further numbers (blocks and bytes of \<^verbatim>\<open>srt_getsndbuffer\<close>, the length of an option).
\<close>

record reply =
  r_int :: int
  r_int2 :: int
  r_int3 :: int
  r_fds :: "int list"
  r_bytes :: bytes
  r_raw :: "byte list"
  r_str :: string
  r_entries :: "(string \<times> bool) list"
  r_stats :: perfmon
  r_gdata :: "groupdata list"
  r_gconf :: groupconfig
  r_rat :: rat

definition groupconfig0 :: groupconfig where
  "groupconfig0 = \<lparr>gc_id = -1, gc_srcaddr = [], gc_peeraddr = [], gc_weight = 0, gc_config = 0,
     gc_errorcode = 0, gc_token = -1\<rparr>"

definition reply0 :: reply where
  "reply0 = \<lparr>r_int = 0, r_int2 = 0, r_int3 = 0, r_fds = [], r_bytes = [], r_raw = [], r_str = [], r_entries = [],
     r_stats = perfmon0, r_gdata = [], r_gconf = groupconfig0, r_rat = 0\<rparr>"

definition rint :: "int \<Rightarrow> reply" where "rint n = reply0\<lparr>r_int := n\<rparr>"
definition rdata :: "bytes \<Rightarrow> reply" where "rdata bs = reply0\<lparr>r_int := int (length bs), r_bytes := bs\<rparr>"
definition rstr :: "string \<Rightarrow> reply" where "rstr s = reply0\<lparr>r_str := s\<rparr>"

lemma reply_simps [simp]:
  "r_int (rint n) = n" "r_bytes (rint n) = []" "r_fds (rint n) = []" "r_str (rint n) = []"
  "r_int (rdata bs) = int (length bs)" "r_bytes (rdata bs) = bs"
  "r_str (rstr s) = s" "r_int (rstr s) = 0"
  by (simp_all add: rint_def rdata_def rstr_def reply0_def)

type_synonym 'a sprog = "(call, reply, 'a) prog"
type_synonym strace = "(call \<times> reply) list"

abbreviation srt :: "srt_call \<Rightarrow> reply sprog" where
  "srt c \<equiv> callP (Srt c)"

abbreviation os :: "os_call \<Rightarrow> reply sprog" where
  "os c \<equiv> callP (Os c)"

text \<open>Reading the atomic \<^verbatim>\<open>force_break\<close> flag: another thread may have set it since the last read.\<close>

definition load_force_break :: "bool sprog" where
  "load_force_break = bindP (os (Load_flag ''force_break'')) (\<lambda>r. Ret (r_int r \<noteq> 0))"

definition throw_socket :: "string \<Rightarrow> 'a sprog" where
  "throw_socket msg = Exc (Socket_exception msg)"

text \<open>\<^verbatim>\<open>throw socket::exception(srt_getlasterror_str())\<close>.\<close>

definition throw_lasterror :: "'a sprog" where
  "throw_lasterror = bindP (srt Srt_getlasterror_str) (\<lambda>m. throw_socket (r_str m))"

lemma bindP_throw_socket [simp]: "bindP (throw_socket m) f = throw_socket m"
  by (simp add: throw_socket_def)

lemma runs_throw_socket [simp]:
  "runs (throw_socket m) tr out \<longleftrightarrow> tr = [] \<and> out = Raised (Socket_exception m)"
  by (simp add: throw_socket_def)

lemma throw_socket_confined [simp]:
  "confined C E (throw_socket m) \<longleftrightarrow> E (Socket_exception m)" "loop_free (throw_socket m)"
  by (simp_all add: throw_socket_def)

lemma bindP_throw_lasterror [simp]: "bindP throw_lasterror f = throw_lasterror"
  by (simp add: throw_lasterror_def)

lemma runs_throw_lasterror [simp]:
  "runs throw_lasterror tr out \<longleftrightarrow>
     (\<exists>r. tr = [(Srt Srt_getlasterror_str, r)] \<and> out = Raised (Socket_exception (r_str r)))"
  by (auto simp: throw_lasterror_def runs_Call simp del: runs.simps(4))

lemma runs_load_force_break [simp]:
  "runs load_force_break tr out \<longleftrightarrow>
     (\<exists>r. tr = [(Os (Load_flag ''force_break''), r)] \<and> out = Ok (r_int r \<noteq> 0))"
  by (auto simp: load_force_break_def runs_Call simp del: runs.simps(4))

subsection \<open>What a trace shows\<close>

text \<open>How often the flag was read as not set: the turns a loop on the flag may make.\<close>

definition false_reads :: "strace \<Rightarrow> nat" where
  "false_reads tr = length (filter (\<lambda>e. fst e = Os (Load_flag ''force_break'') \<and> r_int (snd e) = 0) tr)"

lemma false_reads_append [simp]: "false_reads (t1 @ t2) = false_reads t1 + false_reads t2"
  by (simp add: false_reads_def)

lemma false_reads_flag [simp]:
  "false_reads ((Os (Load_flag ''force_break''), r) # t) = (if r_int r = 0 then Suc (false_reads t) else false_reads t)"
  by (simp add: false_reads_def)

definition created_sockets :: "strace \<Rightarrow> int list" where
  "created_sockets tr = [r_int r. (Srt Srt_create_socket, r) \<leftarrow> tr, r_int r \<noteq> SRT_INVALID_SOCK]"

definition closed_sockets :: "strace \<Rightarrow> int list" where
  "closed_sockets tr = [s. (Srt (Srt_close s), r) \<leftarrow> tr]"

definition sent_messages :: "strace \<Rightarrow> (int \<times> bytes) list" where
  "sent_messages tr = [(s, m). (Srt (Srt_sendmsg2 s m), r) \<leftarrow> tr, r_int r \<noteq> SRT_ERROR]"

definition set_options :: "int \<Rightarrow> strace \<Rightarrow> (sockopt \<times> optval) list" where
  "set_options sock tr = [(p, v). (Srt (Srt_setsockopt s p v), r) \<leftarrow> tr, s = sock]"

text \<open>The documented contract of the receive functions: on success they return the number of bytes
  placed in the buffer, which fits the buffer they were given.\<close>

definition recv_ok :: "call \<times> reply \<Rightarrow> bool" where
  "recv_ok e =
     (case e of
        (Srt (Srt_recvmsg2 s n), r) \<Rightarrow>
          r_int r = SRT_ERROR \<or> 0 \<le> r_int r \<and> r_int r = int (length (r_bytes r)) \<and> length (r_bytes r) \<le> n
      | (Srt (Srt_recvmsg s n), r) \<Rightarrow>
          r_int r = SRT_ERROR \<or> 0 \<le> r_int r \<and> r_int r = int (length (r_bytes r)) \<and> length (r_bytes r) \<le> n
      | (Os (Udp_read u n), r) \<Rightarrow>
          r_int r = SRT_ERROR \<or> 0 \<le> r_int r \<and> r_int r = int (length (r_bytes r)) \<and> length (r_bytes r) \<le> n
      | _ \<Rightarrow> True)"

definition recv_contract :: "strace \<Rightarrow> bool" where
  "recv_contract tr \<longleftrightarrow> list_all recv_ok tr"

lemma trace_projections_append:
  "created_sockets (t1 @ t2) = created_sockets t1 @ created_sockets t2"
  "closed_sockets (t1 @ t2) = closed_sockets t1 @ closed_sockets t2"
  "sent_messages (t1 @ t2) = sent_messages t1 @ sent_messages t2"
  "set_options s (t1 @ t2) = set_options s t1 @ set_options s t2"
  "recv_contract (t1 @ t2) \<longleftrightarrow> recv_contract t1 \<and> recv_contract t2"
  by (simp_all add: created_sockets_def closed_sockets_def sent_messages_def set_options_def
      recv_contract_def)

lemmas projection_defs =
  created_sockets_def closed_sockets_def sent_messages_def set_options_def

end
