(* ===== verification/SocketOptions.thy ===== *)
theory SocketOptions
  imports SrtApi CppMap
begin

text \<open>
  The option layer of the SRT applications (\<^verbatim>\<open>apps/socketoptions.hpp\<close>, \<^verbatim>\<open>apps/socketoptions.cpp\<close>): the
  table of options a URI may carry, the conversion of their text to values, the connection mode, and
  the two passes that apply the options before and after a socket is bound.
\<close>

datatype so_type = T_STRING | T_INT | T_INT64 | T_BOOL | T_ENUM
datatype so_binding = PRE | POST
datatype conn_mode = FAILURE | LISTENER | CALLER | RENDEZVOUS

record socket_option =
  so_name :: string
  so_protocol :: int
  so_symbol :: sockopt
  so_binding :: so_binding
  so_type :: so_type
  so_valmap :: "(string \<times> int) list option"

definition true_names :: "string set" where
  "true_names = {''1'', ''yes'', ''on'', ''true''}"

definition false_names :: "string set" where
  "false_names = {''0'', ''no'', ''off'', ''false''}"

definition enummap_transtype :: "(string \<times> int) list" where
  "enummap_transtype = [(''live'', 0), (''file'', 1)]"

text \<open>The build switches that add rows to the table.\<close>

record build_flags =
  ENABLE_BONDING :: bool
  SRT_ENABLE_BINDTODEVICE :: bool
  ENABLE_AEAD_API_PREVIEW :: bool
  ENABLE_MAXREXMITBW :: bool

definition opt :: "string \<Rightarrow> sockopt \<Rightarrow> so_binding \<Rightarrow> so_type \<Rightarrow> socket_option" where
  "opt n s b t = \<lparr>so_name = n, so_protocol = 0, so_symbol = s, so_binding = b, so_type = t, so_valmap = None\<rparr>"

definition srt_options :: "build_flags \<Rightarrow> socket_option list" where
  "srt_options fl =
     [(opt ''transtype'' SRTO_TRANSTYPE PRE T_ENUM)\<lparr>so_valmap := Some enummap_transtype\<rparr>,
      opt ''maxbw'' SRTO_MAXBW POST T_INT64,
      opt ''pbkeylen'' SRTO_PBKEYLEN PRE T_INT,
      opt ''passphrase'' SRTO_PASSPHRASE PRE T_STRING,
      opt ''mss'' SRTO_MSS PRE T_INT,
      opt ''fc'' SRTO_FC PRE T_INT,
      opt ''sndbuf'' SRTO_SNDBUF PRE T_INT,
      opt ''rcvbuf'' SRTO_RCVBUF PRE T_INT,
      opt ''ipttl'' SRTO_IPTTL PRE T_INT,
      opt ''iptos'' SRTO_IPTOS PRE T_INT,
      opt ''inputbw'' SRTO_INPUTBW POST T_INT64,
      opt ''mininputbw'' SRTO_MININPUTBW POST T_INT64,
      opt ''oheadbw'' SRTO_OHEADBW POST T_INT,
      opt ''latency'' SRTO_LATENCY PRE T_INT,
      opt ''tsbpdmode'' SRTO_TSBPDMODE PRE T_BOOL,
      opt ''tlpktdrop'' SRTO_TLPKTDROP PRE T_BOOL,
      opt ''snddropdelay'' SRTO_SNDDROPDELAY POST T_INT,
      opt ''nakreport'' SRTO_NAKREPORT PRE T_BOOL,
      opt ''conntimeo'' SRTO_CONNTIMEO PRE T_INT,
      opt ''drifttracer'' SRTO_DRIFTTRACER POST T_BOOL,
      opt ''lossmaxttl'' SRTO_LOSSMAXTTL POST T_INT,
      opt ''rcvlatency'' SRTO_RCVLATENCY PRE T_INT,
      opt ''peerlatency'' SRTO_PEERLATENCY PRE T_INT,
      opt ''minversion'' SRTO_MINVERSION PRE T_INT,
      opt ''streamid'' SRTO_STREAMID PRE T_STRING,
      opt ''congestion'' SRTO_CONGESTION PRE T_STRING,
      opt ''messageapi'' SRTO_MESSAGEAPI PRE T_BOOL,
      opt ''payloadsize'' SRTO_PAYLOADSIZE PRE T_INT,
      opt ''kmrefreshrate'' SRTO_KMREFRESHRATE PRE T_INT,
      opt ''kmpreannounce'' SRTO_KMPREANNOUNCE PRE T_INT,
      opt ''enforcedencryption'' SRTO_ENFORCEDENCRYPTION PRE T_BOOL,
      opt ''ipv6only'' SRTO_IPV6ONLY PRE T_INT,
      opt ''peeridletimeo'' SRTO_PEERIDLETIMEO PRE T_INT,
      opt ''packetfilter'' SRTO_PACKETFILTER PRE T_STRING]
     @ (if ENABLE_BONDING fl
        then [opt ''groupconnect'' SRTO_GROUPCONNECT PRE T_INT,
              opt ''groupminstabletimeo'' SRTO_GROUPMINSTABLETIMEO PRE T_INT] else [])
     @ (if SRT_ENABLE_BINDTODEVICE fl then [opt ''bindtodevice'' SRTO_BINDTODEVICE PRE T_STRING] else [])
     @ [opt ''retransmitalgo'' SRTO_RETRANSMITALGO PRE T_INT]
     @ (if ENABLE_AEAD_API_PREVIEW fl then [opt ''cryptomode'' SRTO_CRYPTOMODE PRE T_INT] else [])
     @ (if ENABLE_MAXREXMITBW fl then [opt ''maxrexmitbw'' SRTO_MAXREXMITBW POST T_INT64] else [])"

subsection \<open>Values of options\<close>

definition extract_string :: "string \<Rightarrow> optval option" where
  "extract_string value = Some (OV_str value)"

definition extract_int :: "string \<Rightarrow> optval option" where
  "extract_int value = (case sto_int 32 0 value of Inr i \<Rightarrow> Some (OV_int i) | Inl _ \<Rightarrow> None)"

definition extract_int64 :: "string \<Rightarrow> optval option" where
  "extract_int64 value = (case sto_int 64 10 value of Inr l \<Rightarrow> Some (OV_int64 l) | Inl _ \<Rightarrow> None)"

definition extract_bool :: "string \<Rightarrow> optval option" where
  "extract_bool value =
     (if value \<in> false_names then Some (OV_bool False)
      else if value \<in> true_names then Some (OV_bool True) else None)"

definition extract_enum :: "(string \<times> int) list option \<Rightarrow> string \<Rightarrow> optval option" where
  "extract_enum valmap value =
     (case (case valmap of None \<Rightarrow> None | Some m \<Rightarrow> map_of m value) of
        Some i \<Rightarrow> Some (OV_int i)
      | None \<Rightarrow> extract_int value)"

definition extract_value :: "socket_option \<Rightarrow> string \<Rightarrow> optval option" where
  "extract_value opn value =
     (case so_type opn of
        T_STRING \<Rightarrow> extract_string value
      | T_INT \<Rightarrow> extract_int value
      | T_INT64 \<Rightarrow> extract_int64 value
      | T_BOOL \<Rightarrow> extract_bool value
      | T_ENUM \<Rightarrow> extract_enum (so_valmap opn) value)"

definition apply_option :: "socket_option \<Rightarrow> int \<Rightarrow> string \<Rightarrow> bool sprog" where
  "apply_option opn socket value =
     (case extract_value opn value of
        None \<Rightarrow> Ret False
      | Some v \<Rightarrow> bindP (srt (Srt_setsockopt socket (so_symbol opn) v)) (\<lambda>r. Ret (r_int r \<noteq> -1)))"

subsection \<open>Mode and configuration\<close>

definition SrtInterpretMode :: "string \<Rightarrow> string \<Rightarrow> string \<Rightarrow> conn_mode" where
  "SrtInterpretMode modestr host adapter =
     (if modestr = ''client'' \<or> modestr = ''caller'' then CALLER
      else if modestr = ''server'' \<or> modestr = ''listener'' then LISTENER
      else if modestr = ''rendezvous'' then RENDEZVOUS
      else if modestr = ''default'' then
        (if host = '''' then LISTENER else if adapter \<noteq> '''' then RENDEZVOUS else CALLER)
      else FAILURE)"

text \<open>One turn of the loop over the table; the state is the failure list and \<^verbatim>\<open>all_clear\<close>.\<close>

definition configure_step ::
  "so_binding \<Rightarrow> int \<Rightarrow> cmap \<Rightarrow> socket_option \<Rightarrow> string list \<times> bool \<Rightarrow> (string list \<times> bool) sprog" where
  "configure_step b socket options opn st =
     (if so_binding opn = b \<and> cmap_count options (so_name opn) then
        bindP (apply_option opn socket (the (cmap_get options (so_name opn))))
          (\<lambda>ok. Ret (if ok then st else (fst st @ [so_name opn], False)))
      else Ret st)"

definition set_linger :: "int \<Rightarrow> cmap \<Rightarrow> unit sprog" where
  "set_linger socket options =
     (case cmap_get options ''linger'' of
        None \<Rightarrow> Ret ()
      | Some v \<Rightarrow>
          (case stoi v of
             Inl e \<Rightarrow> Exc e
           | Inr l \<Rightarrow> bindP (srt (Srt_setsockopt socket SRTO_LINGER (OV_linger (if l > 0 then 1 else 0) l)))
                         (\<lambda>_. Ret ())))"

definition SrtConfigurePre ::
  "build_flags \<Rightarrow> int \<Rightarrow> string \<Rightarrow> cmap \<Rightarrow> (conn_mode \<times> string list) sprog" where
  "SrtConfigurePre fl socket host options =
     (let modestr = (case cmap_get options ''mode'' of None \<Rightarrow> ''default'' | Some m \<Rightarrow> m);
          adapter = (case cmap_get options ''adapter'' of None \<Rightarrow> '''' | Some a \<Rightarrow> a);
          mode = SrtInterpretMode modestr host adapter;
          fails = (if mode = FAILURE then [''mode''] else [])
      in bindP (set_linger socket options) (\<lambda>_.
         bindP (foldP (configure_step PRE socket options) (srt_options fl) (fails, True)) (\<lambda>(fails, all_clear).
         Ret (if all_clear then mode else FAILURE, fails))))"

definition SrtConfigurePost :: "build_flags \<Rightarrow> int \<Rightarrow> cmap \<Rightarrow> string list sprog" where
  "SrtConfigurePost fl socket options =
     bindP (foldP (configure_step POST socket options) (srt_options fl) ([], True)) (\<lambda>(fails, _). Ret fails)"

subsection \<open>What the two passes do\<close>

text \<open>The options a pass is to set, in table order, with the values their texts denote.\<close>

definition wanted :: "so_binding \<Rightarrow> cmap \<Rightarrow> socket_option list \<Rightarrow> (sockopt \<times> optval option) list" where
  "wanted b options tab =
     map (\<lambda>so. (so_symbol so, extract_value so (the (cmap_get options (so_name so)))))
       (filter (\<lambda>so. so_binding so = b \<and> cmap_count options (so_name so)) tab)"

definition wanted_ok :: "so_binding \<Rightarrow> cmap \<Rightarrow> socket_option list \<Rightarrow> bool" where
  "wanted_ok b options tab \<longleftrightarrow> list_all (\<lambda>e. snd e \<noteq> None) (wanted b options tab)"

definition wanted_values :: "so_binding \<Rightarrow> cmap \<Rightarrow> socket_option list \<Rightarrow> (sockopt \<times> optval) list" where
  "wanted_values b options tab =
     map (\<lambda>(p, v). (p, the v)) (filter (\<lambda>(p, v). v \<noteq> None) (wanted b options tab))"

definition linger_value :: "cmap \<Rightarrow> (sockopt \<times> optval) list" where
  "linger_value options =
     (case cmap_get options ''linger'' of None \<Rightarrow> []
      | Some v \<Rightarrow> (case stoi v of Inl _ \<Rightarrow> [] | Inr l \<Rightarrow> [(SRTO_LINGER, OV_linger (if l > 0 then 1 else 0) l)]))"

text \<open>The library accepted every option of the trace but \<^verbatim>\<open>SRTO_LINGER\<close>, whose result is not read.\<close>

definition setsockopt_accepted :: "call \<times> reply \<Rightarrow> bool" where
  "setsockopt_accepted e =
     (case e of (Srt (Srt_setsockopt s p v), r) \<Rightarrow> p = SRTO_LINGER \<or> r_int r \<noteq> -1 | _ \<Rightarrow> True)"

lemma runs_apply_option:
  "runs (apply_option so s value) tr out \<longleftrightarrow>
     (case extract_value so value of
        None \<Rightarrow> tr = [] \<and> out = Ok False
      | Some v \<Rightarrow> \<exists>r. tr = [(Srt (Srt_setsockopt s (so_symbol so) v), r)] \<and> out = Ok (r_int r \<noteq> -1))"
  by (auto simp: apply_option_def runs_call_simps simp del: runs.simps(4) split: option.splits)

lemma runs_configure_step:
  assumes "runs (configure_step b s options so (fails, clear)) tr out" and "so_symbol so \<noteq> SRTO_LINGER"
  shows "\<exists>more. out = Ok (fails @ more, clear \<and> more = []) \<and>
           set_options s tr = wanted_values b options [so] \<and>
           (more = [] \<longleftrightarrow> list_all setsockopt_accepted tr \<and> wanted_ok b options [so])"
proof (cases "so_binding so = b \<and> cmap_count options (so_name so)")
  case True
  let ?v = "extract_value so (the (cmap_get options (so_name so)))"
  from True assms(1) have
    "\<exists>ok. runs (apply_option so s (the (cmap_get options (so_name so)))) tr (Ok ok) \<and>
        out = Ok (if ok then (fails, clear) else (fails @ [so_name so], False))"
    by (cases ?v) (auto simp: configure_step_def runs_bindP runs_apply_option split: if_splits)
  then obtain ok where ok: "runs (apply_option so s (the (cmap_get options (so_name so)))) tr (Ok ok)"
    and out: "out = Ok (fails @ (if ok then [] else [so_name so]), clear \<and> (if ok then [] else [so_name so]) = [])"
    by auto
  have "set_options s tr = wanted_values b options [so] \<and>
     (ok \<longleftrightarrow> list_all setsockopt_accepted tr \<and> wanted_ok b options [so])"
    using ok True assms(2)
    by (cases ?v) (auto simp: runs_apply_option wanted_values_def wanted_ok_def wanted_def set_options_def
        setsockopt_accepted_def)
  with out show ?thesis by (intro exI[of _ "if ok then [] else [so_name so]"]) auto
next
  case False
  with assms(1) show ?thesis
    by (intro exI[of _ "[]"]) (auto simp: configure_step_def wanted_values_def wanted_ok_def wanted_def set_options_def)
qed

lemma runs_configure_loop:
  assumes "runs (foldP (configure_step b s options) tab (fails, clear)) tr out"
    and "\<forall>so \<in> set tab. so_symbol so \<noteq> SRTO_LINGER"
  shows "\<exists>more. out = Ok (fails @ more, clear \<and> more = []) \<and>
           set_options s tr = wanted_values b options tab \<and>
           (more = [] \<longleftrightarrow> list_all setsockopt_accepted tr \<and> wanted_ok b options tab)"
  using assms
proof (induction tab arbitrary: fails clear tr)
  case Nil
  then show ?case by (simp add: wanted_values_def wanted_ok_def wanted_def set_options_def)
next
  case (Cons so tab)
  have so: "so_symbol so \<noteq> SRTO_LINGER" and tab: "\<forall>so \<in> set tab. so_symbol so \<noteq> SRTO_LINGER"
    using Cons.prems(2) by simp_all
  have "returns (configure_step b s options so (fails, clear))"
    unfolding returns_def using runs_configure_step[OF _ so] by blast
  from Cons.prems(1)[unfolded foldP.simps runs_bindP_returns[OF this]] obtain x tr1 tr2 where
    tr: "tr = tr1 @ tr2" and r1: "runs (configure_step b s options so (fails, clear)) tr1 (Ok x)"
    and r2: "runs (foldP (configure_step b s options) tab x) tr2 out"
    by blast
  from runs_configure_step[OF r1 so] obtain m1 where
    m1: "x = (fails @ m1, clear \<and> m1 = [])" "set_options s tr1 = wanted_values b options [so]"
      "m1 = [] \<longleftrightarrow> list_all setsockopt_accepted tr1 \<and> wanted_ok b options [so]"
    by auto
  from Cons.IH[OF r2[unfolded m1(1)] tab] obtain m2 where
    m2: "out = Ok ((fails @ m1) @ m2, (clear \<and> m1 = []) \<and> m2 = [])"
      "set_options s tr2 = wanted_values b options tab"
      "m2 = [] \<longleftrightarrow> list_all setsockopt_accepted tr2 \<and> wanted_ok b options tab"
    by auto
  have w: "wanted b options (so # tab) = wanted b options [so] @ wanted b options tab"
    by (simp add: wanted_def)
  then have "wanted_values b options (so # tab) = wanted_values b options [so] @ wanted_values b options tab"
    by (simp add: wanted_values_def)
  moreover from w have "wanted_ok b options (so # tab) \<longleftrightarrow> wanted_ok b options [so] \<and> wanted_ok b options tab"
    by (simp add: wanted_ok_def)
  ultimately show ?case
    using m1 m2 by (intro exI[of _ "m1 @ m2"]) (auto simp: tr trace_projections_append)
qed

lemma srt_options_no_linger: "\<forall>so \<in> set (srt_options fl). so_symbol so \<noteq> SRTO_LINGER"
  by (auto simp: srt_options_def opt_def)

lemma runs_set_linger:
  "runs (set_linger s options) tr out \<Longrightarrow>
     (case out of
        Ok _ \<Rightarrow> set_options s tr = linger_value options \<and> list_all setsockopt_accepted tr
      | Raised e \<Rightarrow> tr = [] \<and> (\<exists>v. cmap_get options ''linger'' = Some v \<and> stoi v = Inl e)
      | Fuel_out \<Rightarrow> False)"
  by (auto simp: set_linger_def linger_value_def set_options_def setsockopt_accepted_def runs_call_simps
      simp del: runs.simps(4) split: option.splits sum.splits outcome.splits)

subsection \<open>Properties\<close>

lemma runs_pre_loop:
  assumes "runs (bindP (foldP (configure_step PRE s options) (srt_options fl) (fails, True))
     (\<lambda>(fails, all_clear). Ret (if all_clear then mode else FAILURE, fails))) tr out"
  shows "\<exists>more. out = Ok (if more = [] then mode else FAILURE, fails @ more) \<and>
     set_options s tr = wanted_values PRE options (srt_options fl) \<and>
     (more = [] \<longleftrightarrow> list_all setsockopt_accepted tr \<and> wanted_ok PRE options (srt_options fl))"
proof -
  let ?loop = "foldP (configure_step PRE s options) (srt_options fl) (fails, True)"
  note loop = runs_configure_loop[of PRE s options "srt_options fl" fails True, OF _ srt_options_no_linger]
  have "returns ?loop"
    unfolding returns_def using loop by blast
  from assms[unfolded runs_bindP_returns[OF this]] obtain y where
    y: "runs ?loop tr (Ok y)" "out = Ok (if snd y then mode else FAILURE, fst y)"
    by (auto split: prod.splits)
  from loop[OF y(1)] obtain more where "y = (fails @ more, more = [])"
    "set_options s tr = wanted_values PRE options (srt_options fl)"
    "more = [] \<longleftrightarrow> list_all setsockopt_accepted tr \<and> wanted_ok PRE options (srt_options fl)"
    by auto
  with y(2) show ?thesis by (intro exI[of _ more]) simp
qed

text \<open>C4: \<^verbatim>\<open>SrtConfigurePre\<close>. On every run the pass sets, on the given socket and in table order,
  exactly the PRE options present in the map whose text is well formed (after the linger block when
  it is given), and reports FAILURE with a non-empty failure list when the mode text, a value or the
  library is at fault; otherwise it returns the mode that \<^verbatim>\<open>SrtInterpretMode\<close> computes and no failure.
  It raises only when the linger text is not an int, before any option is set.\<close>

theorem SrtConfigurePre_result:
  assumes "runs (SrtConfigurePre fl s host options) tr out"
  shows "case out of
     Ok (mode, fails) \<Rightarrow>
       set_options s tr = linger_value options @ wanted_values PRE options (srt_options fl) \<and>
       mode = (if list_all setsockopt_accepted tr \<and>
                  wanted_ok PRE options (srt_options fl)
               then SrtInterpretMode (case cmap_get options ''mode'' of None \<Rightarrow> ''default'' | Some m \<Rightarrow> m) host
                      (case cmap_get options ''adapter'' of None \<Rightarrow> '''' | Some a \<Rightarrow> a)
               else FAILURE) \<and>
       (fails = [] \<longleftrightarrow> mode \<noteq> FAILURE)
   | Raised e \<Rightarrow> tr = [] \<and> (\<exists>v. cmap_get options ''linger'' = Some v \<and> stoi v = Inl e)
   | Fuel_out \<Rightarrow> False"
proof -
  let ?mode = "SrtInterpretMode (case cmap_get options ''mode'' of None \<Rightarrow> ''default'' | Some m \<Rightarrow> m) host
                      (case cmap_get options ''adapter'' of None \<Rightarrow> '''' | Some a \<Rightarrow> a)"
  let ?fails = "if ?mode = FAILURE then [''mode''] else []"
  let ?loop = "foldP (configure_step PRE s options) (srt_options fl) (?fails, True)"
  from assms consider
      (ok) x tr1 tr2 where "tr = tr1 @ tr2" "runs (set_linger s options) tr1 (Ok x)"
        "runs (bindP ?loop (\<lambda>(fails, all_clear). Ret (if all_clear then ?mode else FAILURE, fails))) tr2 out"
    | (exc) e where "out = Raised e" "runs (set_linger s options) tr (Raised e)"
    | (fuel) "runs (set_linger s options) tr Fuel_out"
    unfolding SrtConfigurePre_def Let_def runs_bindP[of "set_linger s options"] by blast
  then show ?thesis
  proof cases
    case ok
    from runs_pre_loop[OF ok(3)] obtain more where "out = Ok (if more = [] then ?mode else FAILURE, ?fails @ more)"
      "set_options s tr2 = wanted_values PRE options (srt_options fl)"
      "more = [] \<longleftrightarrow> list_all setsockopt_accepted tr2 \<and> wanted_ok PRE options (srt_options fl)"
      by blast
    with runs_set_linger[OF ok(2)] ok(1) show ?thesis
      by (cases "more = []") (auto simp: trace_projections_append)
  next
    case exc
    then show ?thesis using runs_set_linger[OF exc(2)] by simp
  next
    case fuel
    then show ?thesis using runs_set_linger[OF fuel] by simp
  qed
qed

definition fl0 :: build_flags where
  "fl0 = \<lparr>ENABLE_BONDING = True, SRT_ENABLE_BINDTODEVICE = False, ENABLE_AEAD_API_PREVIEW = False,
     ENABLE_MAXREXMITBW = False\<rparr>"

definition pre_example_trace :: strace where
  "pre_example_trace = [(Srt (Srt_setsockopt 7 SRTO_LATENCY (OV_int 120)), rint 0),
     (Srt (Srt_setsockopt 7 SRTO_TLPKTDROP (OV_bool False)), rint (-1))]"

lemma pre_example_run:
  "runs (SrtConfigurePre fl0 7 ''host'' [(''latency'', ''0x78''), (''tlpktdrop'', ''no'')]) pre_example_trace
     (Ok (FAILURE, [''tlpktdrop'']))"
  by (rule runs_scripted[where rs = "[rint 0, rint (-1)]"])
    (simp add: SrtConfigurePre_def set_linger_def srt_options_def opt_def fl0_def
      configure_step_def cmap_get_def cmap_count_def apply_option_def extract_value_def extract_int_def extract_bool_def
      true_names_def false_names_def sto_int_def strtol_parse_def strip_sign_def detect_base_def is_space_def
      is_digit_of_def digit_val_def digits_value_def in_int_def SrtInterpretMode_def pre_example_trace_def)

theorem SrtConfigurePre_result_witness:
  "runs (SrtConfigurePre fl0 7 ''host'' [(''latency'', ''0x78''), (''tlpktdrop'', ''no'')]) pre_example_trace
     (Ok (FAILURE, [''tlpktdrop''])) \<and>
   set_options 7 pre_example_trace =
     linger_value [(''latency'', ''0x78''), (''tlpktdrop'', ''no'')] @
     wanted_values PRE [(''latency'', ''0x78''), (''tlpktdrop'', ''no'')] (srt_options fl0)"
  using SrtConfigurePre_result[OF pre_example_run] pre_example_run by simp

lemma runs_SrtConfigurePost:
  assumes "runs (SrtConfigurePost fl s options) tr out"
  shows "\<exists>fails. out = Ok fails \<and> set_options s tr = wanted_values POST options (srt_options fl) \<and>
     (fails = [] \<longleftrightarrow> list_all setsockopt_accepted tr \<and> wanted_ok POST options (srt_options fl))"
proof -
  let ?loop = "foldP (configure_step POST s options) (srt_options fl) ([], True)"
  note loop = runs_configure_loop[of POST s options "srt_options fl" "[]" True, OF _ srt_options_no_linger]
  have "returns ?loop"
    unfolding returns_def using loop by blast
  from assms[unfolded SrtConfigurePost_def runs_bindP_returns[OF this]] obtain y where
    y: "runs ?loop tr (Ok y)" "out = Ok (fst y)"
    by (auto split: prod.splits)
  with loop[OF y(1)] show ?thesis by auto
qed

text \<open>C28: \<^verbatim>\<open>SrtConfigurePost\<close>. The second pass always returns; it sets exactly the well-formed POST
  options of the map, in table order, and its failure list is empty iff all were well formed and
  accepted by the library.\<close>

theorem SrtConfigurePost_result:
  assumes "runs (SrtConfigurePost fl s options) tr out"
  shows "\<exists>fails. out = Ok fails \<and> set_options s tr = wanted_values POST options (srt_options fl) \<and>
     (fails = [] \<longleftrightarrow> list_all setsockopt_accepted tr \<and> wanted_ok POST options (srt_options fl))"
  by (rule runs_SrtConfigurePost[OF assms])

theorem SrtConfigurePost_result_witness:
  "\<exists>fails. snd (exec (SrtConfigurePost fl0 7 [(''maxbw'', ''1000''), (''oheadbw'', ''x'')]) (\<lambda>_ _. rint 0) []) = Ok fails \<and>
     set_options 7 (fst (exec (SrtConfigurePost fl0 7 [(''maxbw'', ''1000''), (''oheadbw'', ''x'')]) (\<lambda>_ _. rint 0) [])) =
       wanted_values POST [(''maxbw'', ''1000''), (''oheadbw'', ''x'')] (srt_options fl0)"
  using SrtConfigurePost_result[OF runs_exec] by blast

text \<open>Before and after the connection disjoint sets of options are set: no option is in both passes.\<close>

lemma wanted_disjoint:
  "distinct (map so_symbol tab) \<Longrightarrow>
     fst ` set (wanted PRE options tab) \<inter> fst ` set (wanted POST options tab) = {}"
  by (induction tab) (auto simp: wanted_def)

text \<open>Every build has a part of the table of the build with all options, in the same order.\<close>

definition all_options :: build_flags where
  "all_options = fl0\<lparr>ENABLE_BONDING := True, SRT_ENABLE_BINDTODEVICE := True, ENABLE_AEAD_API_PREVIEW := True,
     ENABLE_MAXREXMITBW := True\<rparr>"

lemma distinct_optional_parts:
  "distinct (A @ (if True then B else []) @ (if True then C else []) @ D @ (if True then E else []) @ (if True then F else [])) \<Longrightarrow>
   distinct (A @ (if b then B else []) @ (if c then C else []) @ D @ (if e then E else []) @ (if f then F else []))"
  by auto

lemma srt_options_distinct_all:
  assumes "distinct (map g (srt_options all_options))"
  shows "distinct (map g (srt_options fl))"
proof -
  have flags: "ENABLE_BONDING all_options = True" "SRT_ENABLE_BINDTODEVICE all_options = True"
    "ENABLE_AEAD_API_PREVIEW all_options = True" "ENABLE_MAXREXMITBW all_options = True"
    by (simp_all add: all_options_def)
  from assms show ?thesis
    unfolding srt_options_def map_append if_distrib[of "map g"] list.map(1) flags by (rule distinct_optional_parts)
qed

lemma srt_options_distinct:
  "distinct (map so_symbol (srt_options fl)) \<and> distinct (map so_name (srt_options fl))"
proof
  show "distinct (map so_symbol (srt_options fl))" by (rule srt_options_distinct_all) code_simp
  show "distinct (map so_name (srt_options fl))" by (rule srt_options_distinct_all) code_simp
qed

end
