(* ===== verification/CreateAddr.thy ===== *)
theory CreateAddr
  imports SrtApi
begin

text \<open>
  \<^verbatim>\<open>create_addr\<close> of \<^verbatim>\<open>misc.cpp\<close>: from a host name and a port to a socket address. \<^verbatim>\<open>inet_pton\<close> and
  \<^verbatim>\<open>getaddrinfo\<close> are calls to the environment; the bytes they write are \<open>r_raw\<close> of the reply.
\<close>

definition c_str :: "string \<Rightarrow> string" where
  "c_str s = takeWhile (\<lambda>c. c \<noteq> CHR 0x00) s"

definition netaddr_new :: "int \<Rightarrow> netaddr_any" where
  "netaddr_new family = netaddr_domain (replicate sizeof_sin6 0) family"

text \<open>\<^verbatim>\<open>inet_pton\<close> writes the address into the bytes \<^verbatim>\<open>get_addr\<close> points to.\<close>

definition store_addr :: "byte list \<Rightarrow> netaddr_any \<Rightarrow> netaddr_any" where
  "store_addr raw a =
     (case get_addr a of None \<Rightarrow> a | Some (off, n) \<Rightarrow> a\<lparr>storage := poke off (take n raw) (storage a)\<rparr>)"

primrec try_families :: "int list \<Rightarrow> string \<Rightarrow> int \<Rightarrow> netaddr_any option sprog" where
  "try_families [] name port = Ret None"
| "try_families (family # fs) name port =
     bindP (os (Inet_pton family (c_str name))) (\<lambda>r.
       if r_int r = 1 then Ret (Some (set_hport port (store_addr (r_raw r) (netaddr_new family))))
       else try_families fs name port)"

definition create_addr_family :: "string \<Rightarrow> int \<Rightarrow> int \<Rightarrow> netaddr_any sprog" where
  "create_addr_family name port0 prefFamily =
     (let port = port0 mod 65536 in
      if name = '''' then Ret (set_hport port (netaddr_new (if prefFamily = AF_INET6 then prefFamily else AF_INET)))
      else
        let first6 = (prefFamily \<noteq> AF_INET);
            families = (if first6 then [AF_INET6, AF_INET] else [AF_INET, AF_INET6])
        in bindP (try_families families name port) (\<lambda>found.
             case found of
               Some a \<Rightarrow> Ret a
             | None \<Rightarrow>
                 bindP (os (Getaddrinfo (c_str name) prefFamily)) (\<lambda>r.
                   let result = netaddr_new AF_UNSPEC in
                   if r_int r = 0 then
                     let result = set_source (r_raw r) result;
                         result = result\<lparr>len := addr_size result\<rparr>
                     in Ret (set_hport port result)
                   else Ret result)))"

text \<open>The declaration gives \<^verbatim>\<open>pref_family\<close> the default \<^verbatim>\<open>AF_UNSPEC\<close>, which every caller uses.\<close>

definition create_addr :: "string \<Rightarrow> int \<Rightarrow> netaddr_any sprog" where
  "create_addr name port = create_addr_family name port AF_UNSPEC"

subsection \<open>Properties\<close>

lemma wf_netaddr_domain [simp]: "length junk = sizeof_sin6 \<Longrightarrow> wf_addr (netaddr_domain junk f)"
  by (simp add: netaddr_domain_def wf_addr_def reset_def set_sa_family_def uninit_def Let_def sizeof_defs)

lemma wf_netaddr_new [simp]: "wf_addr (netaddr_new f)"
  by (simp add: netaddr_new_def)

lemma sa_family_netaddr_new:
  "sa_family (netaddr_new f) = (if f = AF_INET \<or> f = AF_INET6 then f else AF_UNSPEC)"
  by (auto simp: netaddr_new_def netaddr_domain_def sa_family_def reset_def set_sa_family_def uninit_def
      Let_def sizeof_defs af_defs poke_def le16_def of_le16_def)

lemma len_netaddr_new: "len (netaddr_new f) = (if f = AF_INET then int sizeof_sin else int sizeof_sin6)"
  by (simp add: netaddr_new_def netaddr_domain_def Let_def)

lemma wf_store_addr [simp]: "wf_addr a \<Longrightarrow> wf_addr (store_addr raw a)"
  by (auto simp: store_addr_def get_addr_def wf_addr_def sizeof_defs split: option.splits)

lemma sa_family_store_addr [simp]:
  assumes "wf_addr a"
  shows "sa_family (store_addr raw a) = sa_family a"
proof -
  have "poke off bs m ! i = m ! i" if "i < off" "off \<le> length m" for off bs i and m :: "byte list"
    using that by (simp add: poke_def nth_append)
  with assms show ?thesis
    by (auto simp: store_addr_def get_addr_def sa_family_def wf_addr_def sizeof_defs split: option.splits)
qed

lemma len_store_addr [simp]: "len (store_addr raw a) = len a"
  by (auto simp: store_addr_def split: option.splits)

lemma len_set_hport [simp]: "len (set_hport p a) = len a"
  by (simp add: set_hport_def)

lemma be16_mod [simp]: "be16 (port mod 65536) = be16 port"
proof -
  have "port mod 65536 div 256 mod 256 = port div 256 mod 256" "port mod 65536 mod 256 = port mod 256"
    unfolding mod_65536[of port] by simp_all
  then show ?thesis by (simp add: be16_def)
qed

text \<open>The address \<open>a\<close> stores the family \<open>f\<close>, the port, the address bytes \<open>bs\<close> and the length of the family.\<close>

definition stores :: "int \<Rightarrow> int \<Rightarrow> byte list \<Rightarrow> netaddr_any \<Rightarrow> bool" where
  "stores f port bs a \<longleftrightarrow> wf_addr a \<and> addr_view a = (f, be16 port, bs) \<and> len a = size_of_family f"

lemma stores_set_hport:
  assumes "wf_addr a" and "addr_view a = (f, p, bs)" and "len a = size_of_family f"
  shows "stores f port bs (set_hport (port mod 65536) a)"
proof -
  have "r_port (set_hport v a) = be16 v" for v
    using assms(1) by (simp add: r_port_def set_hport_def wf_addr_def sizeof_defs nth_poke) (simp add: be16_def)
  with assms show ?thesis
    by (simp add: stores_def addr_view_def netaddr_simps split: if_splits)
qed

lemma addr_view_new:
  assumes "f = AF_INET \<or> f = AF_INET6"
  shows "addr_view (netaddr_new f) = (f, [0, 0], replicate (if f = AF_INET then 4 else 16) 0)"
proof -
  have "storage (netaddr_new f) = le16 f @ replicate 26 0"
    using assms by (auto simp: netaddr_new_def netaddr_domain_def reset_def set_sa_family_def uninit_def Let_def
        sizeof_defs af_defs poke_def)
  moreover have "length (le16 f) = 2" by simp
  ultimately show ?thesis
    using assms
    by (auto simp: addr_view_def sa_family_netaddr_new r_port_def sin_addr_def sin6_addr_def nth_append af_defs)
qed

lemma addr_view_store:
  assumes "f = AF_INET \<or> f = AF_INET6" and "length raw = (if f = AF_INET6 then 16 else 4)"
  shows "addr_view (store_addr raw (netaddr_new f)) = (f, [0, 0], raw)"
proof -
  let ?a = "store_addr raw (netaddr_new f)"
  let ?off = "if f = AF_INET6 then 8 else 4"
  have len: "length (storage (netaddr_new f)) = 28"
    using wf_netaddr_new[of f] by (simp add: wf_addr_def sizeof_defs)
  have st: "storage ?a = poke ?off raw (storage (netaddr_new f))"
    using assms by (auto simp: store_addr_def get_addr_def sa_family_netaddr_new af_defs)
  have "take (length raw) (drop ?off (storage ?a)) = raw"
    using assms(2) len by (simp add: st poke_def)
  moreover have "r_port ?a = [0, 0]"
    using addr_view_new[OF assms(1)] assms(2) len by (auto simp: r_port_def st nth_poke addr_view_def)
  ultimately show ?thesis
    using assms by (auto simp: addr_view_def sa_family_netaddr_new sin_addr_def sin6_addr_def af_defs)
qed

lemma stores_new:
  assumes "f = AF_INET \<or> f = AF_INET6"
  shows "stores f port (replicate (if f = AF_INET then 4 else 16) 0) (set_hport (port mod 65536) (netaddr_new f))"
  by (rule stores_set_hport[OF wf_netaddr_new addr_view_new[OF assms]])
    (use assms in \<open>auto simp: len_netaddr_new size_of_family_def af_defs\<close>)

lemma stores_pton:
  assumes "f = AF_INET \<or> f = AF_INET6" and "length raw = (if f = AF_INET6 then 16 else 4)"
  shows "stores f port raw (set_hport (port mod 65536) (store_addr raw (netaddr_new f)))"
  by (rule stores_set_hport[OF _ addr_view_store[OF assms]])
    (use assms in \<open>auto simp: len_netaddr_new size_of_family_def af_defs\<close>)

text \<open>What the documentation of the resolver promises: \<^verbatim>\<open>inet_pton\<close> writes a \<^verbatim>\<open>struct in_addr\<close> (4 bytes) or a
  \<^verbatim>\<open>struct in6_addr\<close> (16 bytes); a successful \<^verbatim>\<open>getaddrinfo\<close> gives a complete socket address of its family
  (16 bytes for IPv4, 28 for IPv6), which here is one of the two IP families.\<close>

definition resolver_ok :: "call \<times> reply \<Rightarrow> bool" where
  "resolver_ok e =
     (case e of
        (Os (Inet_pton f h), r) \<Rightarrow> r_int r = 1 \<longrightarrow> length (r_raw r) = (if f = AF_INET6 then 16 else 4)
      | (Os (Getaddrinfo h f), r) \<Rightarrow>
          r_int r = 0 \<longrightarrow> complete_source (r_raw r) \<and> source_family (r_raw r) \<in> {AF_INET, AF_INET6}
      | _ \<Rightarrow> True)"

text \<open>The address bytes of a socket address somewhere in memory.\<close>

definition source_addr :: "byte list \<Rightarrow> byte list" where
  "source_addr src = (if source_family src = AF_INET then take 4 (drop 4 src) else take 16 (drop 8 src))"

lemma stores_resolved:
  assumes "complete_source raw" and "source_family raw \<in> {AF_INET, AF_INET6}"
  shows "stores (source_family raw) port (source_addr raw) (set_hport (port mod 65536)
           ((set_source raw (netaddr_new f))\<lparr>len := addr_size (set_source raw (netaddr_new f))\<rparr>))"
proof (rule stores_set_hport)
  let ?a = "set_source raw (netaddr_new f)"
  have v: "addr_view ?a = bytes_view raw"
    using assms by (intro addr_view_set_source) auto
  then show "addr_view (?a\<lparr>len := addr_size ?a\<rparr>) = (source_family raw, [raw ! 2, raw ! 3], source_addr raw)"
    using assms(2)
    by (auto simp: addr_view_def bytes_view_def source_addr_def r_port_def sin_addr_def sin6_addr_def af_defs)
  from v have "sa_family ?a = source_family raw" by (rule bytes_view_family)
  then show "len (?a\<lparr>len := addr_size ?a\<rparr>) = size_of_family (source_family raw)"
    by (simp add: addr_size_def)
  show "wf_addr (?a\<lparr>len := addr_size ?a\<rparr>)"
    using wf_set_source[OF wf_netaddr_new assms(1)] by simp
qed

lemma runs_try_families_returns: "runs (try_families fs name port) tr out \<Longrightarrow> \<exists>found. out = Ok found"
proof (induction fs arbitrary: tr)
  case (Cons f fs)
  from Cons.prems obtain r :: reply and tr' where
    "runs (if r_int r = 1 then Ret (Some (set_hport port (store_addr (r_raw r) (netaddr_new f))))
           else try_families fs name port) tr' out"
    unfolding try_families.simps bindP_callP runs_Call by blast
  with Cons.IH show ?case by (cases "r_int r = 1") auto
qed simp

lemma runs_create_addr_returns: "runs (create_addr name port) tr out \<Longrightarrow> \<exists>sa. out = Ok sa"
  by (auto simp: create_addr_def create_addr_family_def Let_def runs_bindP runs_call_simps
      simp del: runs.simps(4) dest: runs_try_families_returns split: if_splits option.splits)

text \<open>The three calls \<open>create_addr\<close> can make for a name, in their order, and what it returns after them.\<close>

lemma runs_create_addr_name:
  assumes "runs (create_addr_family name port pref) tr out" and "name \<noteq> ''''"
    and f: "(f1, f2) = (if pref = AF_INET then (AF_INET, AF_INET6) else (AF_INET6, AF_INET))"
  shows "(\<exists>r. tr = [(Os (Inet_pton f1 (c_str name)), r)] \<and> r_int r = 1 \<and>
            out = Ok (set_hport (port mod 65536) (store_addr (r_raw r) (netaddr_new f1))))
       \<or> (\<exists>r1 r. tr = [(Os (Inet_pton f1 (c_str name)), r1), (Os (Inet_pton f2 (c_str name)), r)] \<and>
            r_int r1 \<noteq> 1 \<and> r_int r = 1 \<and> out = Ok (set_hport (port mod 65536) (store_addr (r_raw r) (netaddr_new f2))))
       \<or> (\<exists>r1 r2 r. tr = [(Os (Inet_pton f1 (c_str name)), r1), (Os (Inet_pton f2 (c_str name)), r2),
                 (Os (Getaddrinfo (c_str name) pref), r)] \<and> r_int r1 \<noteq> 1 \<and> r_int r2 \<noteq> 1 \<and>
            out = Ok (if r_int r = 0
              then set_hport (port mod 65536) ((set_source (r_raw r) (netaddr_new AF_UNSPEC))
                     \<lparr>len := addr_size (set_source (r_raw r) (netaddr_new AF_UNSPEC))\<rparr>)
              else netaddr_new AF_UNSPEC))"
proof (cases "pref = AF_INET")
  case True
  with assms show ?thesis
    by (auto simp: create_addr_family_def Let_def runs_call_simps simp del: runs.simps(4) split: if_splits)
next
  case False
  with assms show ?thesis
    by (auto simp: create_addr_family_def Let_def runs_call_simps simp del: runs.simps(4) split: if_splits)
qed

text \<open>C22: \<^verbatim>\<open>create_addr\<close> stores the address that was found, for every name, port and preferred family, and never
  raises an exception. The empty name gives the zero address of IPv6 when that is preferred and of IPv4
  otherwise, without asking anybody.
  Another name is tried as a numeric address, IPv4 first when that is preferred and IPv6 first otherwise, and the
  first success is taken over with its family and exactly its bytes; only when both fail is \<^verbatim>\<open>getaddrinfo\<close> asked,
  once, and the family and address bytes of its answer are taken over. In each case the port is
  the argument reduced to 16 bits in network order and the length is the one of the family. A name that cannot be
  resolved gives the unspecified address (no exception, although the callers expect \<^verbatim>\<open>std::invalid_argument\<close>).\<close>

theorem create_addr_result:
  assumes "runs (create_addr_family name port pref) tr out" and "list_all resolver_ok tr"
    and "(f1, f2) = (if pref = AF_INET then (AF_INET, AF_INET6) else (AF_INET6, AF_INET))"
  shows "\<exists>a. out = Ok a \<and>
     (name = '''' \<and> tr = [] \<and>
        (if pref = AF_INET6 then stores AF_INET6 port (replicate 16 0) a else stores AF_INET port (replicate 4 0) a)
    \<or> name \<noteq> '''' \<and>
       ((\<exists>r. tr = [(Os (Inet_pton f1 (c_str name)), r)] \<and> r_int r = 1 \<and> stores f1 port (r_raw r) a)
      \<or> (\<exists>r1 r. tr = [(Os (Inet_pton f1 (c_str name)), r1), (Os (Inet_pton f2 (c_str name)), r)] \<and>
           r_int r1 \<noteq> 1 \<and> r_int r = 1 \<and> stores f2 port (r_raw r) a)
      \<or> (\<exists>r1 r2 r. tr = [(Os (Inet_pton f1 (c_str name)), r1), (Os (Inet_pton f2 (c_str name)), r2),
             (Os (Getaddrinfo (c_str name) pref), r)] \<and> r_int r1 \<noteq> 1 \<and> r_int r2 \<noteq> 1 \<and>
           (if r_int r = 0 then stores (source_family (r_raw r)) port (source_addr (r_raw r)) a
            else a = netaddr_new AF_UNSPEC))))"
proof (cases "name = ''''")
  case True
  with assms(1) stores_new[of AF_INET port] stores_new[of AF_INET6 port] show ?thesis
    by (auto simp: create_addr_family_def af_defs)
next
  case False
  have f: "f1 = AF_INET \<or> f1 = AF_INET6" "f2 = AF_INET \<or> f2 = AF_INET6"
    using assms(3) by (auto split: if_splits)
  from runs_create_addr_name[OF assms(1) False assms(3)] show ?thesis
  proof (elim disjE exE conjE)
    fix r assume *: "tr = [(Os (Inet_pton f1 (c_str name)), r)]" "r_int r = 1"
      "out = Ok (set_hport (port mod 65536) (store_addr (r_raw r) (netaddr_new f1)))"
    with assms(2) have "stores f1 port (r_raw r) (set_hport (port mod 65536) (store_addr (r_raw r) (netaddr_new f1)))"
      by (intro stores_pton[OF f(1)]) (simp add: resolver_ok_def)
    with * False show ?thesis by auto
  next
    fix r1 r assume *: "tr = [(Os (Inet_pton f1 (c_str name)), r1), (Os (Inet_pton f2 (c_str name)), r)]"
      "r_int r1 \<noteq> 1" "r_int r = 1" "out = Ok (set_hport (port mod 65536) (store_addr (r_raw r) (netaddr_new f2)))"
    with assms(2) have "stores f2 port (r_raw r) (set_hport (port mod 65536) (store_addr (r_raw r) (netaddr_new f2)))"
      by (intro stores_pton[OF f(2)]) (simp add: resolver_ok_def)
    with * False show ?thesis by auto
  next
    fix r1 r2 r assume *: "tr = [(Os (Inet_pton f1 (c_str name)), r1), (Os (Inet_pton f2 (c_str name)), r2),
        (Os (Getaddrinfo (c_str name) pref), r)]" "r_int r1 \<noteq> 1" "r_int r2 \<noteq> 1"
      "out = Ok (if r_int r = 0
              then set_hport (port mod 65536) ((set_source (r_raw r) (netaddr_new AF_UNSPEC))
                     \<lparr>len := addr_size (set_source (r_raw r) (netaddr_new AF_UNSPEC))\<rparr>)
              else netaddr_new AF_UNSPEC)"
    from * assms(2) have "r_int r = 0 \<longrightarrow> complete_source (r_raw r) \<and> source_family (r_raw r) \<in> {AF_INET, AF_INET6}"
      by (simp add: resolver_ok_def)
    with stores_resolved[of "r_raw r" port AF_UNSPEC] * False show ?thesis by auto
  qed
qed

text \<open>The resolver answers a 16-byte IPv4 socket address.\<close>

theorem create_addr_result_witness:
  "\<exists>a. snd (exec (create_addr_family ''localhost'' 70000 0) (\<lambda>_ c. case c of Os (Getaddrinfo h f) \<Rightarrow>
         (rint 0)\<lparr>r_raw := 2 # 0 # 0 # 0 # 127 # 0 # 0 # 1 # replicate 8 0\<rparr> | _ \<Rightarrow> rint 0) []) = Ok a \<and>
     stores AF_INET 70000 [127, 0, 0, 1] a"
proof -
  let ?p = "create_addr_family ''localhost'' 70000 0"
  let ?raw = "2 # 0 # 0 # 0 # 127 # 0 # 0 # 1 # replicate 8 0 :: byte list"
  let ?env = "\<lambda>_ c. case c of Os (Getaddrinfo h f) \<Rightarrow> (rint 0)\<lparr>r_raw := ?raw\<rparr> | _ \<Rightarrow> rint 0"
  have tr: "fst (exec ?p ?env []) = [(Os (Inet_pton AF_INET6 ''localhost''), rint 0), (Os (Inet_pton AF_INET ''localhost''), rint 0),
      (Os (Getaddrinfo ''localhost'' 0), (rint 0)\<lparr>r_raw := ?raw\<rparr>)]"
    by (simp add: create_addr_family_def Let_def AF_INET_def c_str_def)
  have fam: "source_family ?raw = AF_INET"
    by (simp add: source_family_def of_le16_def af_defs)
  then have ok: "list_all resolver_ok (fst (exec ?p ?env []))"
    unfolding tr by (simp add: resolver_ok_def complete_source_def sizeof_defs af_defs)
  have "source_addr ?raw = [127, 0, 0, 1]"
    using fam by (simp add: source_addr_def numeral_eq_Suc)
  then show ?thesis
    using create_addr_result[OF runs_exec ok, of AF_INET6 AF_INET] fam
    unfolding tr by (simp add: AF_INET_def c_str_def)
qed

end
