(* ===== verification/ISocket.thy ===== *)
theory ISocket
  imports SrtApi "HOL-Library.Sublist"
begin

text \<open>
  The interface \<^verbatim>\<open>socket::isocket\<close> (\<^verbatim>\<open>socket.hpp\<close>) as a locale: what a read and a write of a socket
  promise to the pipelines that use them. The messages that crossed the interface are read off the
  trace of calls.
\<close>

definition in_message :: "call \<times> reply \<Rightarrow> bytes list" where
  "in_message e =
     (case e of
        (Srt (Srt_recvmsg2 s n), r) \<Rightarrow> if r_int r \<noteq> SRT_ERROR \<and> r_bytes r \<noteq> [] then [r_bytes r] else []
      | (Srt (Srt_recvmsg s n), r) \<Rightarrow> if r_int r \<noteq> SRT_ERROR \<and> r_bytes r \<noteq> [] then [r_bytes r] else []
      | (Os (Udp_read u n), r) \<Rightarrow> if 0 \<le> r_int r \<and> r_bytes r \<noteq> [] then [r_bytes r] else []
      | _ \<Rightarrow> [])"

definition out_message :: "call \<times> reply \<Rightarrow> bytes list" where
  "out_message e =
     (case e of
        (Srt (Srt_sendmsg2 s m), r) \<Rightarrow> if r_int r \<noteq> SRT_ERROR then [m] else []
      | (Srt (Srt_sendmsg s m ttl inorder), r) \<Rightarrow> if r_int r \<noteq> SRT_ERROR then [m] else []
      | (Os (Udp_write u m), r) \<Rightarrow> if 0 \<le> r_int r then [m] else []
      | _ \<Rightarrow> [])"

text \<open>Sends that the transport did not accept.\<close>

definition refused_send :: "call \<times> reply \<Rightarrow> bool" where
  "refused_send e =
     (case e of
        (Srt (Srt_sendmsg2 s m), r) \<Rightarrow> r_int r = SRT_ERROR
      | (Srt (Srt_sendmsg s m ttl inorder), r) \<Rightarrow> r_int r = SRT_ERROR
      | (Os (Udp_write u m), r) \<Rightarrow> r_int r < 0
      | _ \<Rightarrow> False)"

definition refused_sends :: "strace \<Rightarrow> nat" where
  "refused_sends tr = length (filter refused_send tr)"

text \<open>The messages received from, and accepted by, the transport in the order of the trace.\<close>

definition in_messages :: "strace \<Rightarrow> bytes list" where
  "in_messages tr = concat (map in_message tr)"

definition out_messages :: "strace \<Rightarrow> bytes list" where
  "out_messages tr = concat (map out_message tr)"

lemma messages_append [simp]:
  "refused_sends (t1 @ t2) = refused_sends t1 + refused_sends t2"
  "in_messages (t1 @ t2) = in_messages t1 @ in_messages t2"
  "out_messages (t1 @ t2) = out_messages t1 @ out_messages t2"
  by (simp_all add: in_messages_def out_messages_def refused_sends_def)

lemma messages_Nil [simp]: "in_messages [] = []" "out_messages [] = []" "refused_sends [] = 0"
  by (simp_all add: in_messages_def out_messages_def refused_sends_def)

text \<open>The endpoint a message is received on and sent to: an SRT socket or a UDP socket.\<close>

datatype endpoint = Srt_end int | Udp_end int

definition sends_on :: "call \<Rightarrow> endpoint option" where
  "sends_on c = (case c of Srt (Srt_sendmsg2 s m) \<Rightarrow> Some (Srt_end s) | Srt (Srt_sendmsg s m ttl inorder) \<Rightarrow> Some (Srt_end s)
     | Os (Udp_write u m) \<Rightarrow> Some (Udp_end u) | _ \<Rightarrow> None)"

definition receives_on :: "call \<Rightarrow> endpoint option" where
  "receives_on c = (case c of Srt (Srt_recvmsg2 s n) \<Rightarrow> Some (Srt_end s) | Srt (Srt_recvmsg s n) \<Rightarrow> Some (Srt_end s)
     | Os (Udp_read u n) \<Rightarrow> Some (Udp_end u) | _ \<Rightarrow> None)"

text \<open>A call that receives on an endpoint of \<open>from\<close> only and sends to an endpoint of \<open>to\<close> only.\<close>

definition moves :: "endpoint set \<Rightarrow> endpoint set \<Rightarrow> call \<Rightarrow> bool" where
  "moves from to c \<longleftrightarrow> set_option (receives_on c) \<subseteq> from \<and> set_option (sends_on c) \<subseteq> to"

lemma moves_mono: "moves f t c \<Longrightarrow> f \<subseteq> f' \<Longrightarrow> t \<subseteq> t' \<Longrightarrow> moves f' t' c"
  by (auto simp: moves_def)

lemma moves_simps [simp]:
  "moves f t (Srt (Srt_recvmsg2 s n)) \<longleftrightarrow> Srt_end s \<in> f" "moves f t (Srt (Srt_recvmsg s n)) \<longleftrightarrow> Srt_end s \<in> f"
  "moves f t (Os (Udp_read u n)) \<longleftrightarrow> Udp_end u \<in> f"
  "moves f t (Srt (Srt_sendmsg2 s m)) \<longleftrightarrow> Srt_end s \<in> t" "moves f t (Srt (Srt_sendmsg s m ttl i)) \<longleftrightarrow> Srt_end s \<in> t"
  "moves f t (Os (Udp_write u m)) \<longleftrightarrow> Udp_end u \<in> t"
  "moves f t (Os (Load_flag fl))" "moves f t (Os (Store_flag fl b))" "moves f t (Srt (Srt_epoll_wait e r w ms))"
  "moves f t (Srt Srt_getlasterror)" "moves f t (Srt Srt_getlasterror_str)"
  "moves f t (Srt (Srt_close s))" "moves f t (Srt (Srt_getsockstate s))" "moves f t (Srt (Srt_epoll_remove_usock e s))"
  by (simp_all add: moves_def sends_on_def receives_on_def)

text \<open>Traces without sends and without receives.\<close>

definition is_send :: "call \<Rightarrow> bool" where
  "is_send c = (case c of Srt (Srt_sendmsg2 s m) \<Rightarrow> True | Srt (Srt_sendmsg s m ttl inorder) \<Rightarrow> True
     | Os (Udp_write u m) \<Rightarrow> True | _ \<Rightarrow> False)"

definition is_recv :: "call \<Rightarrow> bool" where
  "is_recv c = (case c of Srt (Srt_recvmsg2 s n) \<Rightarrow> True | Srt (Srt_recvmsg s n) \<Rightarrow> True
     | Os (Udp_read u n) \<Rightarrow> True | _ \<Rightarrow> False)"

lemma not_send_event: "\<not> is_send (fst e) \<Longrightarrow> out_message e = [] \<and> \<not> refused_send e"
proof (cases e)
  case (Pair c r)
  assume "\<not> is_send (fst e)"
  moreover have "\<not> is_send (Srt x) \<Longrightarrow> out_message (Srt x, r) = [] \<and> \<not> refused_send (Srt x, r)" for x
    by (cases x) (simp_all add: is_send_def out_message_def refused_send_def)
  moreover have "\<not> is_send (Os x) \<Longrightarrow> out_message (Os x, r) = [] \<and> \<not> refused_send (Os x, r)" for x
    by (cases x) (simp_all add: is_send_def out_message_def refused_send_def)
  ultimately show ?thesis using Pair by (cases c) simp_all
qed

lemma not_recv_event: "\<not> is_recv (fst e) \<Longrightarrow> in_message e = [] \<and> recv_ok e"
proof (cases e)
  case (Pair c r)
  assume "\<not> is_recv (fst e)"
  moreover have "\<not> is_recv (Srt x) \<Longrightarrow> in_message (Srt x, r) = [] \<and> recv_ok (Srt x, r)" for x
    by (cases x) (simp_all add: is_recv_def in_message_def recv_ok_def)
  moreover have "\<not> is_recv (Os x) \<Longrightarrow> in_message (Os x, r) = [] \<and> recv_ok (Os x, r)" for x
    by (cases x) (simp_all add: is_recv_def in_message_def recv_ok_def)
  ultimately show ?thesis using Pair by (cases c) simp_all
qed

lemma no_sends: "list_all (\<lambda>e. \<not> is_send (fst e)) tr \<Longrightarrow> out_messages tr = [] \<and> refused_sends tr = 0"
  by (induction tr) (simp_all add: out_messages_def refused_sends_def not_send_event)

lemma no_recvs: "list_all (\<lambda>e. \<not> is_recv (fst e)) tr \<Longrightarrow> in_messages tr = [] \<and> recv_contract tr"
  by (induction tr) (simp_all add: in_messages_def recv_contract_def not_recv_event)

lemma recv_contract_append [simp]:
  "recv_contract (t1 @ t2) \<longleftrightarrow> recv_contract t1 \<and> recv_contract t2"
  by (simp add: recv_contract_def)

lemmas message_defs = in_messages_def out_messages_def in_message_def out_message_def refused_sends_def refused_send_def

definition is_socket_exn :: "cpp_exn \<Rightarrow> bool" where
  "is_socket_exn e = (case e of Socket_exception _ \<Rightarrow> True | _ \<Rightarrow> False)"

definition nonempty :: "bytes \<Rightarrow> bytes list" where
  "nonempty bs = (if bs = [] then [] else [bs])"

subsection \<open>The contract\<close>

locale isocket =
  fixes rd :: "'s \<Rightarrow> nat \<Rightarrow> int \<Rightarrow> (nat \<times> bytes) sprog" and wr :: "'s \<Rightarrow> bytes \<Rightarrow> int \<Rightarrow> int sprog"
    and ep :: "'s \<Rightarrow> endpoint"
  assumes rd_result: "runs (rd s n t) tr out \<Longrightarrow> recv_contract tr \<Longrightarrow>
      (case out of
         Ok (k, bs) \<Rightarrow> k = length bs \<and> k \<le> n \<and> in_messages tr = nonempty bs
       | Raised e \<Rightarrow> is_socket_exn e \<and> in_messages tr = []
       | Fuel_out \<Rightarrow> False)"
    and rd_sends_nothing: "runs (rd s n t) tr out \<Longrightarrow> out_messages tr = [] \<and> refused_sends tr = 0"
    and wr_result: "runs (wr s m t) tr wout \<Longrightarrow>
      (case wout of
         Ok k \<Rightarrow> out_messages tr = [m] \<and> refused_sends tr = 0 \<or> k = 0 \<and> out_messages tr = [] \<and> refused_sends tr = 1
       | Raised e \<Rightarrow> is_socket_exn e \<and> out_messages tr = [] \<and> refused_sends tr \<le> 1
       | Fuel_out \<Rightarrow> False)"
    and wr_receives_nothing: "runs (wr s m t) tr wout \<Longrightarrow> in_messages tr = [] \<and> recv_contract tr"
    and rd_loop_free: "loop_free (rd s n t)"
    and wr_loop_free: "loop_free (wr s m t)"
    and rd_moves: "confined (moves {ep s} {}) is_socket_exn (rd s n t)"
    and wr_moves: "confined (moves {} {ep s}) is_socket_exn (wr s m t)"
begin

text \<open>Reading one message and writing it on: the message goes out unless the transport refuses it.\<close>

lemma forward_one:
  assumes "runs (bindP (rd src n t) (\<lambda>(k, bs). if k = 0 then Ret x
                 else bindP (wr dst (take k bs) t') (\<lambda>w. Ret (f w)))) tr out"
    and "recv_contract tr"
  shows "subseq (out_messages tr) (in_messages tr) \<and> (\<forall>m \<in> set (in_messages tr). length m \<le> n) \<and>
    (case out of
       Ok _ \<Rightarrow> length (in_messages tr) = length (out_messages tr) + refused_sends tr
     | Raised e \<Rightarrow> is_socket_exn e \<and> out_messages tr = [] \<and> length (in_messages tr) \<le> 1 \<and> refused_sends tr \<le> 1
     | Fuel_out \<Rightarrow> False)"
proof -
  from assms(1) consider
      (ok) k bs t1 t2 where "tr = t1 @ t2" "runs (rd src n t) t1 (Ok (k, bs))"
        "runs (if k = 0 then Ret x else bindP (wr dst (take k bs) t') (\<lambda>w. Ret (f w))) t2 out"
    | (exc) e where "out = Raised e" "runs (rd src n t) tr (Raised e)"
    | (fuel) "out = Fuel_out" "runs (rd src n t) tr Fuel_out"
    unfolding runs_bindP[of "rd src n t"] by fastforce
  then show ?thesis
  proof cases
    case ok
    with assms(2) have c: "recv_contract t1" by simp
    from rd_result[OF ok(2) c] have k: "k = length bs" "k \<le> n" "in_messages t1 = nonempty bs" by simp_all
    have o1: "out_messages t1 = []" "refused_sends t1 = 0" using rd_sends_nothing[OF ok(2)] by simp_all
    show ?thesis
    proof (cases "k = 0")
      case True
      with ok k o1 show ?thesis by (simp add: nonempty_def)
    next
      case False
      with ok(3) k(1) have "\<exists>o'. runs (wr dst bs t') t2 o' \<and> out = (case o' of Ok w \<Rightarrow> Ok (f w) | Raised e \<Rightarrow> Raised e | Fuel_out \<Rightarrow> Fuel_out)"
        by (auto simp: runs_bindP split: outcome.splits)
      then obtain o' where o': "runs (wr dst bs t') t2 o'"
        "out = (case o' of Ok w \<Rightarrow> Ok (f w) | Raised e \<Rightarrow> Raised e | Fuel_out \<Rightarrow> Fuel_out)" by blast
      from wr_result[OF o'(1)] wr_receives_nothing[OF o'(1)] ok(1) k o1 False o'(2)
      show ?thesis by (cases o') (auto simp: nonempty_def)
    qed
  next
    case exc
    with rd_result[OF exc(2) assms(2)] rd_sends_nothing[OF exc(2)] show ?thesis by simp
  next
    case fuel
    with loop_free_runs[OF rd_loop_free] show ?thesis by blast
  qed
qed

text \<open>It receives on the endpoint of the one socket only and sends to the endpoint of the other only.\<close>

lemma forward_one_moves:
  "confined (moves {ep src} {ep dst}) is_socket_exn
     (bindP (rd src n t) (\<lambda>(k, bs). if k = 0 then Ret x else bindP (wr dst (take k bs) t') (\<lambda>w. Ret (f w))))"
proof -
  have "moves {ep src} {} c \<Longrightarrow> moves {ep src} {ep dst} c" "moves {} {ep dst} c \<Longrightarrow> moves {ep src} {ep dst} c" for c
    by (auto intro: moves_mono)
  then have "confined (moves {ep src} {ep dst}) is_socket_exn (rd src n t)"
    "confined (moves {ep src} {ep dst}) is_socket_exn (wr dst m t')" for m
    using confined_mono[OF rd_moves] confined_mono[OF wr_moves] by blast+
  then show ?thesis by (auto intro!: confined_bindP)
qed

end

end
