(* ===== verification/SrtSocket.thy ===== *)
theory SrtSocket
  imports SocketOptions UriParser CreateAddr Buffer ISocket
begin

text \<open>
  The class \<^verbatim>\<open>socket::srt\<close> (\<^verbatim>\<open>srt_socket.hpp\<close>, \<^verbatim>\<open>srt_socket.cpp\<close>): the two constructors, the destructor,
  the configuration passes, listen/accept/connect and the message input and output. The object is
  the record \<open>srt_sock\<close>; a constructor that raises returns no object, so its destructor never runs.
\<close>

record srt_sock =
  ss_bind_socket :: int
  ss_epoll_connect :: int
  ss_epoll_io :: int
  ss_mode :: conn_mode
  ss_blocking_mode :: bool
  ss_host :: string
  ss_port :: int
  ss_options :: cmap

text \<open>The members before any constructor body runs.\<close>

definition srt_sock0 :: srt_sock where
  "srt_sock0 = \<lparr>ss_bind_socket = SRT_INVALID_SOCK, ss_epoll_connect = -1, ss_epoll_io = -1,
     ss_mode = FAILURE, ss_blocking_mode = False, ss_host = '''', ss_port = -1, ss_options = cmap_empty\<rparr>"

subsection \<open>Errors and validation\<close>

definition raise_exception :: "string \<Rightarrow> 'a sprog" where
  "raise_exception place =
     bindP (srt Srt_getlasterror) (\<lambda>_. bindP (srt Srt_getlasterror_str) (\<lambda>m.
       throw_socket (place @ '': '' @ r_str m)))"

definition raise_exception_reason :: "string \<Rightarrow> string \<Rightarrow> 'a sprog" where
  "raise_exception_reason place reason = throw_socket (place @ '': '' @ reason)"

definition assert_options_valid :: "build_flags \<Rightarrow> cmap \<Rightarrow> string list \<Rightarrow> unit sprog" where
  "assert_options_valid fl options extra =
     (case find (\<lambda>(key, val). key \<notin> so_name ` set (srt_options fl) \<and> key \<notin> set extra) options of
        None \<Rightarrow> Ret ()
      | Some (key, val) \<Rightarrow>
          throw_socket (''Invalid URI query option '' @ [CHR 0x27] @ key @ ''='' @ val @ '' (not recognized)!''))"

subsection \<open>Configuration\<close>

definition join_comma :: "string list \<Rightarrow> string" where
  "join_comma fs = concat (map (\<lambda>f. f @ '', '') fs)"

definition configure_pre :: "build_flags \<Rightarrow> int \<Rightarrow> srt_sock \<Rightarrow> (int \<times> srt_sock) sprog" where
  "configure_pre fl sock self =
     bindP (srt (Srt_setsockopt sock SRTO_RCVSYN (OV_int (if ss_blocking_mode self then 1 else 0)))) (\<lambda>r.
     if r_int r = -1 then Ret (r_int r, self)
     else bindP (SrtConfigurePre fl sock (ss_host self) (ss_options self)) (\<lambda>(conmode, failures).
       if conmode = FAILURE then throw_socket (''Wrong value of option(s): '' @ join_comma failures)
       else
         let self = self\<lparr>ss_mode := conmode\<rparr> in
         if ss_mode self = RENDEZVOUS then
           bindP (srt (Srt_setsockopt sock SRTO_RENDEZVOUS (OV_int 1))) (\<lambda>r.
             if r_int r = -1 then Ret (r_int r, self) else Ret (SRT_SUCCESS, self))
         else Ret (SRT_SUCCESS, self)))"

definition configure_post :: "build_flags \<Rightarrow> int \<Rightarrow> srt_sock \<Rightarrow> int sprog" where
  "configure_post fl sock self =
     (let is_blocking = (if ss_blocking_mode self then 1 else 0) in
      bindP (srt (Srt_setsockopt sock SRTO_SNDSYN (OV_int is_blocking))) (\<lambda>r.
      if r_int r = -1 then Ret (r_int r)
      else bindP (srt (Srt_setsockopt sock SRTO_RCVSYN (OV_int is_blocking))) (\<lambda>r.
      if r_int r = -1 then Ret (r_int r)
      else bindP (SrtConfigurePost fl sock (ss_options self)) (\<lambda>failures. Ret 0))))"

subsection \<open>Binding\<close>

definition sizeof_sockaddr :: int where "sizeof_sockaddr = 16"

definition bind_me :: "int \<Rightarrow> netaddr_any \<Rightarrow> unit sprog" where
  "bind_me sock sa =
     bindP (srt (Srt_bind sock (storage sa) sizeof_sockaddr)) (\<lambda>r.
       if r_int r < 0 then bindP (srt (Srt_close sock)) (\<lambda>_. raise_exception ''srt::bind'') else Ret ())"

text \<open>The handlers of \<^verbatim>\<open>std::invalid_argument\<close> around \<^verbatim>\<open>create_addr\<close>.\<close>

definition create_addr_or :: "(string \<Rightarrow> netaddr_any sprog) \<Rightarrow> string \<Rightarrow> int \<Rightarrow> netaddr_any sprog" where
  "create_addr_or handler name port =
     catchP (create_addr name port) (\<lambda>e. case e of Invalid_argument w \<Rightarrow> handler w | _ \<Rightarrow> Exc e)"

definition parse_bind :: "string \<Rightarrow> int \<Rightarrow> cpp_exn + (string \<times> int)" where
  "parse_bind value dflt_port =
     (let bindipport = tolower value;
          idx = find_char (CHR '':'') bindipport 0
      in case idx of
           None \<Rightarrow> Inr (bindipport, dflt_port)
         | Some i \<Rightarrow>
             (case stoi (substr bindipport (i + 1) (length bindipport - (i + 1))) of
                Inl e \<Rightarrow> Inl e
              | Inr p \<Rightarrow> Inr (substr bindipport 0 i, p)))"

definition handle_hosts :: "srt_sock \<Rightarrow> srt_sock sprog" where
  "handle_hosts self =
     (case cmap_get (ss_options self) ''bind'' of
        Some value \<Rightarrow>
          (case parse_bind value (ss_port self) of
             Inl e \<Rightarrow> Exc e
           | Inr (bindip, bindport) \<Rightarrow>
               let self = self\<lparr>ss_options := cmap_erase ''bind'' (ss_options self)\<rparr> in
               bindP (create_addr_or (\<lambda>_. throw_socket ''create_addr_inet failed'') bindip bindport) (\<lambda>sa.
               bindP (bind_me (ss_bind_socket self) sa) (\<lambda>_. Ret self)))
      | None \<Rightarrow>
          if ss_mode self = RENDEZVOUS then
            bindP (create_addr_or (raise_exception_reason ''create_addr'') '''' (ss_port self)) (\<lambda>sa.
            bindP (bind_me (ss_bind_socket self) sa) (\<lambda>_. Ret self))
          else if ss_mode self = LISTENER then
            bindP (create_addr_or (raise_exception_reason ''create_addr'') (ss_host self) (ss_port self)) (\<lambda>sa.
            bindP (bind_me (ss_bind_socket self) sa) (\<lambda>_. Ret self))
          else Ret self)"

subsection \<open>Constructors and destructor\<close>

text \<open>The block \<^verbatim>\<open>if (!m_blocking_mode)\<close> of the first constructor.\<close>

definition setup_epolls :: "srt_sock \<Rightarrow> srt_sock sprog" where
  "setup_epolls self =
     (if \<not> ss_blocking_mode self then
        bindP (srt Srt_epoll_create) (\<lambda>ec.
        let self = self\<lparr>ss_epoll_connect := r_int ec\<rparr> in
        if ss_epoll_connect self = -1 then throw_lasterror
        else
          let to_accept = (ss_mode self = LISTENER);
              modes = SRT_EPOLL_ERR + (if to_accept then SRT_EPOLL_IN else SRT_EPOLL_OUT)
          in bindP (srt (Srt_epoll_add_usock (ss_epoll_connect self) (ss_bind_socket self) modes)) (\<lambda>r.
             if r_int r = SRT_ERROR then throw_lasterror
             else bindP (srt Srt_epoll_create) (\<lambda>ei.
               let self = self\<lparr>ss_epoll_io := r_int ei\<rparr> in
               bindP (srt (Srt_epoll_add_usock (ss_epoll_io self) (ss_bind_socket self)
                             (SRT_EPOLL_IN + SRT_EPOLL_OUT + SRT_EPOLL_ERR))) (\<lambda>r.
                 if r_int r = SRT_ERROR then throw_lasterror else Ret self))))
      else Ret self)"

definition take_blocking :: "srt_sock \<Rightarrow> srt_sock" where
  "take_blocking self =
     (case cmap_get (ss_options self) ''blocking'' of
        Some v \<Rightarrow> self\<lparr>ss_blocking_mode := (v \<notin> false_names),
                       ss_options := cmap_erase ''blocking'' (ss_options self)\<rparr>
      | None \<Rightarrow> self)"

definition srt_ctor :: "build_flags \<Rightarrow> uri \<Rightarrow> srt_sock sprog" where
  "srt_ctor fl src_uri =
     bindP (srt Srt_create_socket) (\<lambda>r.
     let self = srt_sock0\<lparr>ss_host := m_host src_uri, ss_port := portno src_uri,
                  ss_options := parameters src_uri, ss_bind_socket := r_int r\<rparr> in
     if ss_bind_socket self = SRT_INVALID_SOCK then throw_lasterror
     else
       let self = take_blocking self in
       bindP (assert_options_valid fl (ss_options self) [''bind'', ''mode'']) (\<lambda>_.
       bindP (configure_pre fl (ss_bind_socket self) self) (\<lambda>(res, self).
       if SRT_SUCCESS \<noteq> res then throw_lasterror
       else bindP (setup_epolls self) handle_hosts)))"

definition srt_of_sock :: "int \<Rightarrow> bool \<Rightarrow> srt_sock sprog" where
  "srt_of_sock sock blocking =
     (let self = srt_sock0\<lparr>ss_bind_socket := sock, ss_blocking_mode := blocking\<rparr> in
      if \<not> ss_blocking_mode self then
        bindP (srt Srt_epoll_create) (\<lambda>ei.
        let self = self\<lparr>ss_epoll_io := r_int ei\<rparr> in
        bindP (srt (Srt_epoll_add_usock (ss_epoll_io self) (ss_bind_socket self)
                      (SRT_EPOLL_IN + SRT_EPOLL_OUT + SRT_EPOLL_ERR))) (\<lambda>r.
          if r_int r = SRT_ERROR then throw_lasterror else Ret self))
      else Ret self)"

definition srt_dtor :: "srt_sock \<Rightarrow> unit sprog" where
  "srt_dtor self =
     bindP (if \<not> ss_blocking_mode self then
              bindP (if ss_epoll_connect self \<noteq> -1
                     then bindP (srt (Srt_epoll_release (ss_epoll_connect self))) (\<lambda>_. Ret ())
                     else Ret ()) (\<lambda>_.
              bindP (srt (Srt_epoll_release (ss_epoll_io self))) (\<lambda>_. Ret ()))
            else Ret ()) (\<lambda>_.
     bindP (srt (Srt_close (ss_bind_socket self))) (\<lambda>_. Ret ()))"

subsection \<open>The negotiated configuration\<close>

definition cryptomodes :: "(int \<times> string) list" where
  "cryptomodes = [(0, ''AUTO''), (1, ''AES-CTR''), (2, ''AES-GCM'')]"

definition km_states :: "(int \<times> string) list" where
  "km_states = [(0, ''UNSECURED''), (1, ''SECURING''), (2, ''SECURED''), (3, ''NOSECRET''), (4, ''BADSECRET'')]"

definition convert :: "int \<Rightarrow> (int \<times> string) list \<Rightarrow> string" where
  "convert v vals = (case map_of vals v of None \<Rightarrow> ''INVALID'' | Some s \<Rightarrow> s)"

text \<open>The value of a socket flag is the second number of the reply.\<close>

definition get_sock_value :: "int \<Rightarrow> sockopt \<Rightarrow> int sprog" where
  "get_sock_value s sopt =
     bindP (srt (Srt_getsockflag s sopt)) (\<lambda>r. Ret (if r_int r \<noteq> SRT_SUCCESS then -1 else r_int2 r))"

definition latency_str :: "int \<Rightarrow> string sprog" where
  "latency_str sock =
     bindP (get_sock_value sock SRTO_TSBPDMODE) (\<lambda>tsbpd.
     if tsbpd > 0 then
       bindP (get_sock_value sock SRTO_RCVLATENCY) (\<lambda>latency_rcv.
       bindP (get_sock_value sock SRTO_PEERLATENCY) (\<lambda>latency_peer.
       Ret (''Latency RCV '' @ int_to_string latency_rcv @ ''ms, peer '' @ int_to_string latency_peer @ ''ms'')))
     else Ret ''off'')"

text \<open>The 512 bytes of \<^verbatim>\<open>streamid\<close> after \<^verbatim>\<open>srt_getsockflag\<close> wrote the stream identifier into them.\<close>

definition streamid_buffer :: "string \<Rightarrow> string" where
  "streamid_buffer written = take 512 (written @ replicate 512 (CHR 0x00))"

definition print_negotiated_config :: "build_flags \<Rightarrow> int \<Rightarrow> string sprog" where
  "print_negotiated_config fl sock =
     bindP (get_sock_value sock SRTO_PBKEYLEN) (\<lambda>pbkeylen.
     bindP (get_sock_value sock SRTO_KMSTATE) (\<lambda>km_state.
     bindP (get_sock_value sock SRTO_RCVKMSTATE) (\<lambda>km_state_rcv.
     bindP (get_sock_value sock SRTO_SNDKMSTATE) (\<lambda>km_state_snd.
     bindP (latency_str sock) (\<lambda>latency.
     bindP (if ENABLE_AEAD_API_PREVIEW fl
            then bindP (get_sock_value sock SRTO_CRYPTOMODE) (\<lambda>cm. Ret (convert cm cryptomodes))
            else Ret '''') (\<lambda>crypto_mode_str.
     bindP (srt (Srt_getsockflag sock SRTO_STREAMID)) (\<lambda>r.
     let streamid_len = (if r_int r \<noteq> SRT_SUCCESS then 0 else r_int2 r) in
     Ret (''TSBPD '' @ latency @ ''. KM state '' @ convert km_state km_states @ '' (RCV ''
          @ convert km_state_rcv km_states @ '', SND '' @ convert km_state_snd km_states
          @ ''). PB key length: '' @ int_to_string pbkeylen @ ''. Cryptomode '' @ crypto_mode_str
          @ ''. Stream ID: '' @ (if streamid_len > 0 then streamid_buffer (r_str r) else ''not set'')))))))))"

subsection \<open>Connecting\<close>

definition srt_listen :: "build_flags \<Rightarrow> srt_sock \<Rightarrow> unit sprog" where
  "srt_listen fl self =
     bindP (srt (Srt_listen (ss_bind_socket self) 2)) (\<lambda>r.
     bindP (if r_int r = SRT_ERROR
            then bindP (srt (Srt_close (ss_bind_socket self))) (\<lambda>_. raise_exception ''listen'')
            else Ret ()) (\<lambda>_.
     bindP (configure_post fl (ss_bind_socket self) self) (\<lambda>res.
       if res = SRT_ERROR then raise_exception ''listen::configure_post'' else Ret ())))"

definition srt_accept :: "build_flags \<Rightarrow> srt_sock \<Rightarrow> srt_sock sprog" where
  "srt_accept fl self =
     bindP (if \<not> ss_blocking_mode self then
              bindP (srt (Srt_epoll_wait (ss_epoll_connect self) True False (-1))) (\<lambda>r.
                if r_int r = -1 then raise_exception ''accept::epoll_wait'' else Ret ())
            else Ret ()) (\<lambda>_.
     bindP (srt (Srt_accept (ss_bind_socket self))) (\<lambda>r.
     let sock = r_int r in
     if sock = SRT_INVALID_SOCK then raise_exception ''accept''
     else bindP (configure_post fl sock self) (\<lambda>res.
       if res = SRT_ERROR then raise_exception ''accept::configure_post''
       else bindP (print_negotiated_config fl sock) (\<lambda>_.
         srt_of_sock sock (ss_blocking_mode self)))))"

text \<open>\<^verbatim>\<open>connect\<close> returns the object itself (\<^verbatim>\<open>shared_from_this\<close>).\<close>

definition wait_connected :: "srt_sock \<Rightarrow> unit sprog" where
  "wait_connected self =
     bindP (srt (Srt_epoll_wait (ss_epoll_connect self) False True (-1))) (\<lambda>r.
     if r_int r \<noteq> -1 then
       bindP (srt (Srt_getsockstate (ss_bind_socket self))) (\<lambda>st.
       if r_int st \<noteq> SRTS_CONNECTED then
         bindP (srt (Srt_getrejectreason (ss_bind_socket self))) (\<lambda>reason.
         bindP (srt (Srt_rejectreason_str (r_int reason))) (\<lambda>m.
         raise_exception_reason ''connect failed'' (r_str m)))
       else Ret ())
     else raise_exception ''connect.epoll_wait'')"

definition srt_connect :: "build_flags \<Rightarrow> srt_sock \<Rightarrow> srt_sock sprog" where
  "srt_connect fl self =
     bindP (create_addr_or (raise_exception_reason ''connect::create_addr'') (ss_host self) (ss_port self)) (\<lambda>sa.
     bindP (srt (Srt_connect (ss_bind_socket self) (storage sa) (addr_size sa))) (\<lambda>r.
     bindP (if r_int r = SRT_ERROR then
              bindP (srt (Srt_getrejectreason (ss_bind_socket self))) (\<lambda>reason.
              bindP (srt (Srt_close (ss_bind_socket self))) (\<lambda>_.
              bindP (srt Srt_getlasterror_str) (\<lambda>m.
              bindP (srt (Srt_rejectreason_str (r_int reason))) (\<lambda>m2.
              raise_exception_reason ''connect failed'' (r_str m @ ''. Reject reason: '' @ r_str m2)))))
            else Ret ()) (\<lambda>_.
     bindP (if \<not> ss_blocking_mode self then wait_connected self else Ret ()) (\<lambda>_.
     bindP (configure_post fl (ss_bind_socket self) self) (\<lambda>res.
     if res = SRT_ERROR then raise_exception ''connect::onfigure_post''
     else bindP (print_negotiated_config fl (ss_bind_socket self)) (\<lambda>_. Ret self))))))"

text \<open>The asynchronous forms: what runs in the calling thread and what the future computes.\<close>

definition srt_async_connect :: "build_flags \<Rightarrow> srt_sock \<Rightarrow> srt_sock sprog sprog" where
  "srt_async_connect fl self = Ret (srt_connect fl self)"

definition srt_async_accept :: "build_flags \<Rightarrow> srt_sock \<Rightarrow> srt_sock sprog sprog" where
  "srt_async_accept fl self = bindP (srt_listen fl self) (\<lambda>_. Ret (srt_accept fl self))"

subsection \<open>Input and output\<close>

text \<open>\<^verbatim>\<open>read\<close> returns the count and leaves the received bytes in the buffer of \<open>n\<close> bytes.\<close>

definition srt_read :: "srt_sock \<Rightarrow> nat \<Rightarrow> int \<Rightarrow> (nat \<times> bytes) sprog" where
  "srt_read self n timeout_ms =
     (let recv = bindP (srt (Srt_recvmsg2 (ss_bind_socket self) n)) (\<lambda>res.
            if r_int res = SRT_ERROR then
              bindP (srt Srt_getlasterror) (\<lambda>err.
                if r_int err \<noteq> SRT_EASYNCRCV then raise_exception ''read::recv'' else Ret (0, []))
            else Ret (nat (r_int res), r_bytes res))
      in if \<not> ss_blocking_mode self then
           bindP (srt (Srt_epoll_wait (ss_epoll_io self) True False timeout_ms)) (\<lambda>r.
             if r_int r = SRT_ERROR then
               bindP (srt Srt_getlasterror) (\<lambda>err.
                 if r_int err = SRT_ETIMEOUT then Ret (0, []) else raise_exception ''read::epoll'')
             else recv)
         else recv)"

definition srt_write :: "srt_sock \<Rightarrow> bytes \<Rightarrow> int \<Rightarrow> int sprog" where
  "srt_write self buffer timeout_ms =
     bindP (if \<not> ss_blocking_mode self then
              bindP (srt (Srt_epoll_wait (ss_epoll_io self) True True timeout_ms)) (\<lambda>r.
                if r_int r = SRT_ERROR then raise_exception ''write::epoll'' else Ret ())
            else Ret ()) (\<lambda>_.
     bindP (srt (Srt_sendmsg2 (ss_bind_socket self) buffer)) (\<lambda>res.
     if r_int res = SRT_ERROR then
       bindP (srt Srt_getlasterror) (\<lambda>err.
         if r_int err = SRT_EASYNCSND then Ret 0
         else bindP (srt Srt_getlasterror_str) (\<lambda>m. raise_exception_reason ''write::send'' (r_str m)))
     else Ret (r_int res)))"

definition srt_is_caller :: "srt_sock \<Rightarrow> bool" where
  "srt_is_caller self \<longleftrightarrow> ss_mode self = CALLER"

subsection \<open>The contract of \<^verbatim>\<open>isocket\<close> holds\<close>

lemma runs_raise_exception [simp]:
  "runs (raise_exception place) tr out \<longleftrightarrow>
     (\<exists>r1 r2. tr = [(Srt Srt_getlasterror, r1), (Srt Srt_getlasterror_str, r2)] \<and>
        out = Raised (Socket_exception (place @ '': '' @ r_str r2)))"
  by (auto simp: raise_exception_def runs_call_simps simp del: runs.simps(4))

lemma runs_raise_exception_reason [simp]:
  "runs (raise_exception_reason place reason) tr out \<longleftrightarrow>
     tr = [] \<and> out = Raised (Socket_exception (place @ '': '' @ reason))"
  by (simp add: raise_exception_reason_def)

lemma bindP_raise [simp]:
  "bindP (raise_exception place) f = raise_exception place"
  "bindP (raise_exception_reason place reason) f' = raise_exception_reason place reason"
  by (simp_all add: raise_exception_def raise_exception_reason_def)

text \<open>The part of \<^verbatim>\<open>read\<close> after the readiness check.\<close>

definition srt_recv :: "int \<Rightarrow> nat \<Rightarrow> (nat \<times> bytes) sprog" where
  "srt_recv s n = bindP (srt (Srt_recvmsg2 s n)) (\<lambda>res.
            if r_int res = SRT_ERROR then
              bindP (srt Srt_getlasterror) (\<lambda>err.
                if r_int err \<noteq> SRT_EASYNCRCV then raise_exception ''read::recv'' else Ret (0, []))
            else Ret (nat (r_int res), r_bytes res))"

lemma runs_srt_recv:
  assumes "runs (srt_recv s n) tr out" and "recv_contract tr"
  shows "case out of
         Ok (k, bs) \<Rightarrow> k = length bs \<and> k \<le> n \<and> in_messages tr = nonempty bs
       | Raised e \<Rightarrow> is_socket_exn e \<and> in_messages tr = []
       | Fuel_out \<Rightarrow> False"
  using assms
  by (auto simp: srt_recv_def runs_call_simps message_defs nonempty_def recv_contract_def recv_ok_def
      is_socket_exn_def simp del: runs.simps(4) split: if_splits)



lemma srt_read_alt:
  "srt_read self n t =
     (if \<not> ss_blocking_mode self then
        Call (Srt (Srt_epoll_wait (ss_epoll_io self) True False t)) (\<lambda>r.
             if r_int r = SRT_ERROR then
               Call (Srt Srt_getlasterror) (\<lambda>err.
                 if r_int err = SRT_ETIMEOUT then Ret (0, []) else raise_exception ''read::epoll'')
             else srt_recv (ss_bind_socket self) n)
      else srt_recv (ss_bind_socket self) n)"
  unfolding srt_read_def srt_recv_def Let_def bindP_callP by (rule refl)

text \<open>A run of \<^verbatim>\<open>read\<close> is a run of the receiving part after a prefix without messages, or it ends before it.\<close>

lemma runs_srt_read:
  assumes "runs (srt_read self n t) tr out"
  shows "(\<exists>pre post. tr = pre @ post \<and> in_messages pre = [] \<and> out_messages pre = [] \<and>
            runs (srt_recv (ss_bind_socket self) n) post out)
       \<or> in_messages tr = [] \<and> out_messages tr = [] \<and> (out = Ok (0, []) \<or> (\<exists>m. out = Raised (Socket_exception m)))"
proof (cases "ss_blocking_mode self")
  case True
  with assms have "tr = [] @ tr \<and> in_messages [] = [] \<and> out_messages [] = [] \<and> runs (srt_recv (ss_bind_socket self) n) tr out"
    by (simp add: srt_read_alt)
  then show ?thesis by blast
next
  case False
  with assms obtain r :: reply and tr' where
    tr: "tr = [(Srt (Srt_epoll_wait (ss_epoll_io self) True False t), r)] @ tr'" and
    r: "runs (if r_int r = SRT_ERROR then
               Call (Srt Srt_getlasterror) (\<lambda>err.
                 if r_int err = SRT_ETIMEOUT then Ret (0, []) else raise_exception ''read::epoll'')
             else srt_recv (ss_bind_socket self) n) tr' out"
    unfolding srt_read_alt by (auto simp: runs_Call simp del: runs.simps(4))
  show ?thesis
  proof (cases "r_int r = SRT_ERROR")
    case True
    with r have "in_messages tr = [] \<and> out_messages tr = [] \<and> (out = Ok (0, []) \<or> (\<exists>m. out = Raised (Socket_exception m)))"
      by (auto simp: tr runs_call_simps message_defs simp del: runs.simps(4) split: if_splits)
    then show ?thesis by blast
  next
    case False
    with r have "runs (srt_recv (ss_bind_socket self) n) tr' out" by simp
    moreover have "in_messages [(Srt (Srt_epoll_wait (ss_epoll_io self) True False t), r)] = []"
      "out_messages [(Srt (Srt_epoll_wait (ss_epoll_io self) True False t), r)] = []"
      by (simp_all add: message_defs)
    ultimately show ?thesis using tr by blast
  qed
qed

lemma runs_srt_write:
  assumes "runs (srt_write self m t) tr out"
  shows "in_messages tr = [] \<and> recv_contract tr \<and>
    (case out of
         Ok k \<Rightarrow> out_messages tr = [m] \<and> refused_sends tr = 0 \<or> k = 0 \<and> out_messages tr = [] \<and> refused_sends tr = 1
       | Raised e \<Rightarrow> is_socket_exn e \<and> out_messages tr = [] \<and> refused_sends tr \<le> 1
       | Fuel_out \<Rightarrow> False)"
  using assms
  by (auto simp: srt_write_def runs_call_simps message_defs is_socket_exn_def recv_contract_def recv_ok_def
      simp del: runs.simps(4) split: if_splits)

definition srt_end :: "srt_sock \<Rightarrow> endpoint" where
  "srt_end self = Srt_end (ss_bind_socket self)"

interpretation srt_sock: isocket srt_read srt_write srt_end
proof
  fix s n t tr and out :: "(nat \<times> bytes) outcome"
  assume run: "runs (srt_read s n t) tr out"
  have "confined (\<lambda>c. \<not> is_send c) (\<lambda>_. True) (srt_read s n t)"
    by (auto simp: srt_read_def raise_exception_def is_send_def Let_def intro!: confined_intros)
  from no_sends[OF confined_runs[OF this run]] show "out_messages tr = [] \<and> refused_sends tr = 0" .
  assume c: "recv_contract tr"
  show "case out of
         Ok (k, bs) \<Rightarrow> k = length bs \<and> k \<le> n \<and> in_messages tr = nonempty bs
       | Raised e \<Rightarrow> is_socket_exn e \<and> in_messages tr = []
       | Fuel_out \<Rightarrow> False"
    using runs_srt_read[OF run]
  proof (elim disjE exE conjE)
    fix pre post
    assume "tr = pre @ post" "in_messages pre = []" "runs (srt_recv (ss_bind_socket s) n) post out"
    with runs_srt_recv[of "ss_bind_socket s" n post out] c show ?thesis by (cases out) auto
  qed (simp_all add: nonempty_def is_socket_exn_def)
next
  fix s m t tr and out :: "int outcome"
  assume "runs (srt_write s m t) tr out"
  from runs_srt_write[OF this]
  show "case out of
         Ok k \<Rightarrow> out_messages tr = [m] \<and> refused_sends tr = 0 \<or> k = 0 \<and> out_messages tr = [] \<and> refused_sends tr = 1
       | Raised e \<Rightarrow> is_socket_exn e \<and> out_messages tr = [] \<and> refused_sends tr \<le> 1
       | Fuel_out \<Rightarrow> False"
    and "in_messages tr = [] \<and> recv_contract tr"
    by simp_all
next
  show "loop_free (srt_read s n t)" for s n t
    by (auto simp: srt_read_def raise_exception_def Let_def intro!: confined_intros)
  show "loop_free (srt_write s m t)" for s m t
    by (auto simp: srt_write_def raise_exception_def raise_exception_reason_def intro!: confined_intros)
  show "confined (moves {srt_end s} {}) is_socket_exn (srt_read s n t)" for s n t
    by (auto simp: srt_read_def srt_end_def raise_exception_def is_socket_exn_def Let_def intro!: confined_intros)
  show "confined (moves {} {srt_end s}) is_socket_exn (srt_write s m t)" for s m t
    by (auto simp: srt_write_def srt_end_def raise_exception_def raise_exception_reason_def is_socket_exn_def
        intro!: confined_intros)
qed

subsection \<open>Ownership of the transport socket\<close>

text \<open>Calls that only configure: they neither create, bind, connect, listen on nor close a socket.\<close>

definition keeps_sockets :: "call \<Rightarrow> bool" where
  "keeps_sockets c =
     (case c of
        Srt (Srt_close s) \<Rightarrow> False | Srt Srt_create_socket \<Rightarrow> False | Srt (Srt_bind s a l) \<Rightarrow> False
      | Srt (Srt_listen s n) \<Rightarrow> False | Srt (Srt_connect s a l) \<Rightarrow> False | Srt (Srt_accept s) \<Rightarrow> False
      | _ \<Rightarrow> True)"

definition bind_failed :: "strace \<Rightarrow> bool" where
  "bind_failed tr = list_ex (\<lambda>e. case e of (Srt (Srt_bind s a l), r) \<Rightarrow> r_int r < 0 | _ \<Rightarrow> False) tr"

lemma bind_failed_append [simp]: "bind_failed (t1 @ t2) \<longleftrightarrow> bind_failed t1 \<or> bind_failed t2"
  by (simp add: bind_failed_def)

definition neutral :: "strace \<Rightarrow> bool" where
  "neutral tr \<longleftrightarrow> created_sockets tr = [] \<and> closed_sockets tr = [] \<and> \<not> bind_failed tr"

lemma neutral_append [simp]: "neutral (t1 @ t2) \<longleftrightarrow> neutral t1 \<and> neutral t2"
  by (auto simp: neutral_def trace_projections_append)

lemma neutral_event: "keeps_sockets c \<Longrightarrow> neutral [(c, r)]"
  by (cases c; cases "case c of Srt x \<Rightarrow> x | _ \<Rightarrow> Srt_cleanup")
    (simp_all add: neutral_def bind_failed_def projection_defs keeps_sockets_def)

lemma confined_neutral:
  assumes "confined keeps_sockets E p" and "runs p tr out"
  shows "neutral tr"
proof -
  have "list_all (\<lambda>e. keeps_sockets (fst e)) tr \<Longrightarrow> neutral tr"
  proof (induction tr)
    case Nil
    show ?case by (simp add: neutral_def bind_failed_def projection_defs)
  next
    case (Cons e tr)
    with neutral_event[of "fst e" "snd e"] neutral_append[of "[e]" tr] show ?case by simp
  qed
  with confined_runs[OF assms] show ?thesis by blast
qed

lemma keeps_sockets_simps [simp]:
  "keeps_sockets (Srt (Srt_setsockopt s p v))" "keeps_sockets (Srt (Srt_getsockflag s p))"
  "keeps_sockets (Srt Srt_getlasterror)" "keeps_sockets (Srt Srt_getlasterror_str)"
  "keeps_sockets (Srt Srt_epoll_create)" "keeps_sockets (Srt (Srt_epoll_add_usock a b c))"
  "keeps_sockets (Srt (Srt_epoll_wait a b1 b2 t))"
  "keeps_sockets (Os oc)"
  by (simp_all add: keeps_sockets_def)

lemma confined_throw [simp]:
  "confined C E (throw_socket m) \<longleftrightarrow> E (Socket_exception m)"
  "confined C E (raise_exception_reason p q) \<longleftrightarrow> E (Socket_exception (p @ '': '' @ q))"
  by (simp_all add: throw_socket_def raise_exception_reason_def)

lemma confined_throw_lasterror:
  "C (Srt Srt_getlasterror_str) \<Longrightarrow> (\<And>m. E (Socket_exception m)) \<Longrightarrow> confined C E throw_lasterror"
  by (simp add: throw_lasterror_def)

lemma confined_raise_exception:
  "C (Srt Srt_getlasterror) \<Longrightarrow> C (Srt Srt_getlasterror_str) \<Longrightarrow> (\<And>m. E (Socket_exception m)) \<Longrightarrow>
     confined C E (raise_exception p)"
  by (simp add: raise_exception_def)

lemma confined_configure_step: "confined keeps_sockets E (configure_step b s options so st)"
  by (auto simp: configure_step_def apply_option_def intro!: confined_intros split: option.splits)

lemma confined_SrtConfigurePre: "confined keeps_sockets (\<lambda>_. True) (SrtConfigurePre fl s host options)"
  by (auto simp: SrtConfigurePre_def set_linger_def Let_def intro!: confined_intros confined_configure_step
      split: option.splits sum.splits prod.splits)

lemma confined_configure_pre: "confined keeps_sockets (\<lambda>_. True) (configure_pre fl s self)"
  by (auto simp: configure_pre_def Let_def intro!: confined_intros confined_SrtConfigurePre split: prod.splits)

lemma confined_setup_epolls: "confined keeps_sockets (\<lambda>_. True) (setup_epolls self)"
  by (auto simp: setup_epolls_def Let_def intro!: confined_intros confined_throw_lasterror)

lemma confined_try_families: "confined keeps_sockets E (try_families fs name port)"
  by (induction fs) simp_all

lemma confined_create_addr: "confined keeps_sockets E (create_addr name port)"
  by (auto simp: create_addr_def create_addr_family_def Let_def intro!: confined_intros confined_try_families
      split: option.splits)

lemma confined_assert_options_valid: "confined keeps_sockets (\<lambda>_. True) (assert_options_valid fl options extra)"
  by (auto simp: assert_options_valid_def split: option.splits)

text \<open>\<^verbatim>\<open>create_addr\<close> raises nothing, so the handlers around it are never entered.\<close>

lemma create_addr_or_eq: "create_addr_or h name port = create_addr name port"
  unfolding create_addr_or_def by (rule catchP_no_exc[OF confined_create_addr])

lemma runs_create_addr_Ok: "runs (create_addr name port) tr out \<Longrightarrow> \<exists>sa. out = Ok sa \<and> neutral tr"
  using confined_neutral[OF confined_create_addr] runs_create_addr_returns by blast

lemma runs_bind_me:
  assumes "runs (bind_me s sa) tr out"
  shows "created_sockets tr = [] \<and>
    (if bind_failed tr then closed_sockets tr = [s] \<and> (\<exists>m. out = Raised (Socket_exception m))
     else closed_sockets tr = [] \<and> out = Ok ())"
  using assms
  by (auto simp: bind_me_def runs_call_simps projection_defs bind_failed_def simp del: runs.simps(4) split: if_splits)

text \<open>A binding attempt: resolve, then bind.\<close>

lemma runs_resolve_bind:
  assumes "runs (bindP (create_addr_or h name port) (\<lambda>sa. bindP (bind_me s sa) (\<lambda>_. Ret self))) tr out"
  shows "created_sockets tr = [] \<and>
    (if bind_failed tr then closed_sockets tr = [s] \<and> (\<exists>m. out = Raised (Socket_exception m))
     else closed_sockets tr = [] \<and> out = Ok self)"
proof -
  have "returns (create_addr name port)"
    unfolding returns_def using runs_create_addr_Ok by blast
  from assms[unfolded create_addr_or_eq runs_bindP_returns[OF this]] obtain sa t1 t2 where
    tr: "tr = t1 @ t2" and r1: "runs (create_addr name port) t1 (Ok sa)"
    and r2: "runs (bindP (bind_me s sa) (\<lambda>_. Ret self)) t2 out"
    by blast
  from r2 obtain o' where o': "runs (bind_me s sa) t2 o'" "o' = Ok () \<and> out = Ok self \<or> (\<exists>e. o' = Raised e \<and> out = Raised e)"
    using runs_bind_me[of s sa t2 Fuel_out] by (auto simp: runs_bindP split: if_splits)
  have "neutral t1" using runs_create_addr_Ok[OF r1] by blast
  with runs_bind_me[OF o'(1)] o'(2) show ?thesis
    by (auto simp: tr neutral_def trace_projections_append split: if_splits)
qed

lemma runs_handle_hosts:
  assumes "runs (handle_hosts self) tr out"
  shows "created_sockets tr = [] \<and>
    (if bind_failed tr then closed_sockets tr = [ss_bind_socket self] \<and> (\<exists>m. out = Raised (Socket_exception m))
     else closed_sockets tr = [] \<and>
       (out = Ok (self\<lparr>ss_options := cmap_erase ''bind'' (ss_options self)\<rparr>) \<or>
        (\<exists>v e. cmap_get (ss_options self) ''bind'' = Some v \<and> parse_bind v (ss_port self) = Inl e \<and> out = Raised e)))"
proof (cases "cmap_get (ss_options self) ''bind''")
  case None
  then have erase: "self\<lparr>ss_options := cmap_erase ''bind'' (ss_options self)\<rparr> = self"
    by (simp add: cmap_erase_none)
  show ?thesis
  proof (cases "ss_mode self = RENDEZVOUS \<or> ss_mode self = LISTENER")
    case True
    then obtain h name where
      "runs (bindP (create_addr_or h name (ss_port self)) (\<lambda>sa. bindP (bind_me (ss_bind_socket self) sa) (\<lambda>_. Ret self))) tr out"
      using assms None unfolding handle_hosts_def by (auto split: if_splits)
    from runs_resolve_bind[OF this] erase show ?thesis by (auto split: if_splits)
  next
    case False
    with assms None erase show ?thesis
      by (auto simp: handle_hosts_def projection_defs bind_failed_def)
  qed
next
  case (Some v)
  show ?thesis
  proof (cases "parse_bind v (ss_port self)")
    case (Inl e)
    with assms Some show ?thesis by (auto simp: handle_hosts_def projection_defs bind_failed_def)
  next
    case (Inr ap)
    obtain a p where "ap = (a, p)" by (cases ap)
    with assms Some Inr have "runs (bindP (create_addr_or (\<lambda>_. throw_socket ''create_addr_inet failed'') a p)
       (\<lambda>sa. bindP (bind_me (ss_bind_socket self) sa) (\<lambda>_. Ret (self\<lparr>ss_options := cmap_erase ''bind'' (ss_options self)\<rparr>)))) tr out"
      by (simp add: handle_hosts_def Let_def)
    from runs_resolve_bind[OF this] show ?thesis by (auto split: if_splits)
  qed
qed

subsection \<open>Construction\<close>

lemma loop_free_throw [simp]:
  "loop_free (throw_socket m)" "loop_free throw_lasterror" "loop_free (raise_exception p)"
  "loop_free (raise_exception_reason p q)"
  by (simp_all add: throw_socket_def throw_lasterror_def raise_exception_def raise_exception_reason_def)

lemma loop_free_SrtConfigurePre: "loop_free (SrtConfigurePre fl s host options)"
  by (auto simp: SrtConfigurePre_def set_linger_def Let_def configure_step_def apply_option_def
      intro!: confined_intros split: option.splits sum.splits prod.splits)

lemma loop_free_configure_pre: "loop_free (configure_pre fl s self)"
  by (auto simp: configure_pre_def Let_def intro!: confined_intros loop_free_SrtConfigurePre split: prod.splits)

lemma loop_free_setup_epolls: "loop_free (setup_epolls self)"
  by (auto simp: setup_epolls_def Let_def intro!: confined_intros)

lemma runs_configure_pre_Ok:
  assumes "runs (configure_pre fl s self) tr (Ok (SRT_SUCCESS, self'))"
  shows "\<exists>m. m \<noteq> FAILURE \<and> self' = self\<lparr>ss_mode := m\<rparr>"
  using assms
  by (auto simp: configure_pre_def runs_bindP_Ok runs_call_simps Let_def SRT_SUCCESS_def
      simp del: runs.simps(4) split: if_splits prod.splits)

definition subscribed :: "strace \<Rightarrow> int \<Rightarrow> int \<Rightarrow> int \<Rightarrow> bool" where
  "subscribed tr eid s modes \<longleftrightarrow>
     (\<exists>r. (Srt (Srt_epoll_add_usock eid s modes), r) \<in> set tr \<and> r_int r \<noteq> SRT_ERROR)"

text \<open>The polling state of a socket object: in non-blocking mode both epolls watch the socket, the
  connection epoll for reading when the object is to accept and for writing otherwise.\<close>

definition epolls_ready :: "strace \<Rightarrow> srt_sock \<Rightarrow> bool" where
  "epolls_ready tr self \<longleftrightarrow>
     ss_blocking_mode self \<or>
     subscribed tr (ss_epoll_connect self) (ss_bind_socket self)
       (SRT_EPOLL_ERR + (if ss_mode self = LISTENER then SRT_EPOLL_IN else SRT_EPOLL_OUT)) \<and>
     subscribed tr (ss_epoll_io self) (ss_bind_socket self) (SRT_EPOLL_IN + SRT_EPOLL_OUT + SRT_EPOLL_ERR)"

lemma runs_setup_epolls_Ok:
  assumes "runs (setup_epolls self) tr (Ok self')"
  shows "epolls_ready tr self' \<and>
    self' = self\<lparr>ss_epoll_connect := ss_epoll_connect self', ss_epoll_io := ss_epoll_io self'\<rparr>"
  using assms
  by (auto simp: setup_epolls_def Let_def runs_call_simps epolls_ready_def subscribed_def
      simp del: runs.simps(4) split: if_splits)

text \<open>The body of the constructor after the socket was created, up to \<^verbatim>\<open>handle_hosts\<close>.\<close>

definition srt_ctor_rest :: "build_flags \<Rightarrow> srt_sock \<Rightarrow> srt_sock sprog" where
  "srt_ctor_rest fl self =
     bindP (assert_options_valid fl (ss_options self) [''bind'', ''mode'']) (\<lambda>_.
       bindP (configure_pre fl (ss_bind_socket self) self) (\<lambda>(res, self).
       if SRT_SUCCESS \<noteq> res then throw_lasterror else setup_epolls self))"

lemma srt_ctor_alt:
  "srt_ctor fl u = Call (Srt Srt_create_socket) (\<lambda>r.
     if r_int r = SRT_INVALID_SOCK then throw_lasterror
     else bindP (srt_ctor_rest fl (take_blocking (srt_sock0\<lparr>ss_host := m_host u, ss_port := portno u,
                  ss_options := parameters u, ss_bind_socket := r_int r\<rparr>))) handle_hosts)"
  by (auto simp: srt_ctor_def srt_ctor_rest_def Let_def bindP_assoc split_beta intro!: ext
      arg_cong[where f = "bindP _"] cong: if_cong)

lemma runs_srt_ctor_rest:
  assumes "runs (srt_ctor_rest fl self) tr out"
  shows "neutral tr \<and> out \<noteq> Fuel_out \<and>
    (\<forall>self'. out = Ok self' \<longrightarrow> ss_mode self' \<noteq> FAILURE \<and> epolls_ready tr self' \<and>
       self' = self\<lparr>ss_mode := ss_mode self', ss_epoll_connect := ss_epoll_connect self', ss_epoll_io := ss_epoll_io self'\<rparr>)"
proof -
  have "confined keeps_sockets (\<lambda>_. True) (srt_ctor_rest fl self)"
    by (auto simp: srt_ctor_rest_def intro!: confined_intros confined_assert_options_valid confined_configure_pre
        confined_setup_epolls confined_throw_lasterror split: prod.splits)
  moreover have "loop_free (srt_ctor_rest fl self)"
    by (auto simp: srt_ctor_rest_def assert_options_valid_def intro!: confined_intros loop_free_configure_pre
        loop_free_setup_epolls split: prod.splits option.splits)
  moreover have "ss_mode self' \<noteq> FAILURE \<and> epolls_ready tr self' \<and>
       self' = self\<lparr>ss_mode := ss_mode self', ss_epoll_connect := ss_epoll_connect self', ss_epoll_io := ss_epoll_io self'\<rparr>"
    if "out = Ok self'" for self'
  proof -
    from assms that obtain t1 self1 t2 t3 where tr: "tr = t1 @ t2 @ t3"
      and c: "runs (configure_pre fl (ss_bind_socket self) self) t2 (Ok (SRT_SUCCESS, self1))"
      and s: "runs (setup_epolls self1) t3 (Ok self')"
      by (auto simp: srt_ctor_rest_def runs_bindP_Ok split: if_splits prod.splits)
    from runs_configure_pre_Ok[OF c] obtain m where m: "m \<noteq> FAILURE" "self1 = self\<lparr>ss_mode := m\<rparr>" by blast
    from runs_setup_epolls_Ok[OF s] have e: "epolls_ready t3 self'"
      and self': "self' = self1\<lparr>ss_epoll_connect := ss_epoll_connect self', ss_epoll_io := ss_epoll_io self'\<rparr>"
      by blast+
    from e have "epolls_ready tr self'" by (auto simp: epolls_ready_def subscribed_def tr)
    moreover from self' m have "ss_mode self' = m" by (metis srt_sock.select_convs(4) srt_sock.surjective srt_sock.update_convs(2,3,4))
    ultimately show ?thesis using m self' by (metis srt_sock.surjective srt_sock.update_convs(2,3,4))
  qed
  ultimately show ?thesis
    using confined_neutral[OF _ assms] loop_free_runs[OF _ assms] by blast
qed

lemma runs_srt_ctor:
  assumes "runs (srt_ctor fl u) tr out"
  shows "created_sockets tr = [] \<and> closed_sockets tr = [] \<and> \<not> bind_failed tr \<and> (\<exists>m. out = Raised (Socket_exception m))
    \<or> (\<exists>s. created_sockets tr = [s] \<and> closed_sockets tr = (if bind_failed tr then [s] else []) \<and>
        (case out of
           Ok self \<Rightarrow> \<not> bind_failed tr \<and> ss_bind_socket self = s \<and> ss_mode self \<noteq> FAILURE \<and> epolls_ready tr self \<and>
             ss_host self = m_host u \<and> ss_port self = portno u \<and>
             ss_options self = cmap_erase ''bind'' (cmap_erase ''blocking'' (parameters u))
         | Raised e \<Rightarrow> True
         | Fuel_out \<Rightarrow> False))"
proof -
  from assms obtain r :: reply and tr' where tr: "tr = (Srt Srt_create_socket, r) # tr'"
    and r: "runs (if r_int r = SRT_INVALID_SOCK then throw_lasterror
       else bindP (srt_ctor_rest fl (take_blocking (srt_sock0\<lparr>ss_host := m_host u, ss_port := portno u,
                  ss_options := parameters u, ss_bind_socket := r_int r\<rparr>))) handle_hosts) tr' out"
    unfolding srt_ctor_alt runs_Call by blast
  show ?thesis
  proof (cases "r_int r = SRT_INVALID_SOCK")
    case True
    with r show ?thesis by (auto simp: tr projection_defs bind_failed_def)
  next
    case False
    let ?self = "take_blocking (srt_sock0\<lparr>ss_host := m_host u, ss_port := portno u,
                  ss_options := parameters u, ss_bind_socket := r_int r\<rparr>)"
    have self: "ss_bind_socket ?self = r_int r" "ss_host ?self = m_host u" "ss_port ?self = portno u"
      "ss_options ?self = cmap_erase ''blocking'' (parameters u)"
      by (auto simp: take_blocking_def cmap_erase_none split: option.splits)
    have created: "created_sockets tr = r_int r # created_sockets tr'" "closed_sockets tr = closed_sockets tr'"
      "bind_failed tr = bind_failed tr'"
      using False by (simp_all add: tr projection_defs bind_failed_def)
    from r False consider
        (exc) e where "runs (srt_ctor_rest fl ?self) tr' out" "out = Raised e"
      | (ok) self' t1 t2 where "tr' = t1 @ t2" "runs (srt_ctor_rest fl ?self) t1 (Ok self')" "runs (handle_hosts self') t2 out"
      using runs_srt_ctor_rest[of fl ?self tr' Fuel_out] by (auto simp: runs_bindP)
    then show ?thesis
    proof cases
      case exc
      with runs_srt_ctor_rest[OF exc(1)] show ?thesis by (auto simp: created neutral_def)
    next
      case ok
      from runs_srt_ctor_rest[OF ok(2)] have n: "neutral t1" and mode: "ss_mode self' \<noteq> FAILURE" and ep: "epolls_ready t1 self'"
        and self': "self' = ?self\<lparr>ss_mode := ss_mode self', ss_epoll_connect := ss_epoll_connect self', ss_epoll_io := ss_epoll_io self'\<rparr>"
        by blast+
      from self' self have f: "ss_bind_socket self' = r_int r" "ss_host self' = m_host u" "ss_port self' = portno u"
        "ss_options self' = cmap_erase ''blocking'' (parameters u)"
        by (metis srt_sock.select_convs srt_sock.surjective srt_sock.update_convs(2,3,4))+
      have ep': "epolls_ready tr (self'\<lparr>ss_options := x\<rparr>)" for x
        using ep by (auto simp: epolls_ready_def subscribed_def tr ok(1))
      show ?thesis
        using runs_handle_hosts[OF ok(3)] n f mode ep'
        by (cases "bind_failed t2") (auto simp: created ok(1) neutral_def trace_projections_append)
    qed
  qed
qed

subsection \<open>Properties\<close>

text \<open>C1: the constructor of a socket from a URI. When it returns, exactly one transport socket was
  created and none closed; the object owns it, has a connection mode, the host, the port and the
  options of the URI without \<^verbatim>\<open>blocking\<close> and \<^verbatim>\<open>bind\<close>, and in non-blocking mode both epolls watch the
  socket with the events the mode needs.\<close>

theorem srt_ctor_ok:
  assumes "runs (srt_ctor fl u) tr (Ok self)"
  shows "created_sockets tr = [ss_bind_socket self] \<and> closed_sockets tr = [] \<and>
     ss_mode self \<noteq> FAILURE \<and> epolls_ready tr self \<and>
     ss_host self = m_host u \<and> ss_port self = portno u \<and>
     ss_options self = cmap_erase ''bind'' (cmap_erase ''blocking'' (parameters u))"
  using runs_srt_ctor[OF assms] by auto

text \<open>C34: a constructor that raises leaves its socket open. Whenever an exception leaves the
  constructor after the transport socket was created, the socket is closed only if it was
  \<^verbatim>\<open>srt_bind\<close> that failed; after a rejected option, a failed configuration or epoll call it leaks,
  since the destructor of an object that was never constructed does not run.\<close>

theorem srt_ctor_leak:
  assumes "runs (srt_ctor fl u) tr (Raised e)"
  shows "closed_sockets tr = (if bind_failed tr then created_sockets tr else [])"
  using runs_srt_ctor[OF assms] by auto

definition ok_uri :: uri where
  "ok_uri = \<lparr>m_origUri = '''', m_proto = ''srt'', m_host = ''h'', m_port = ''42'', m_path = '''', m_uriType = SRT,
     m_expect = EXPECT_FILE, m_mapQuery = [(''blocking'', ''yes'')]\<rparr>"

definition bad_uri :: uri where
  "bad_uri = ok_uri\<lparr>m_mapQuery := [(''linger'', ''1'')]\<rparr>"

lemma foldP_no_options: "foldP (configure_step b s []) tab st = Ret st"
  by (induction tab) (simp_all add: configure_step_def cmap_count_def)

lemma ok_uri_run:
  "\<exists>self. snd (exec (srt_ctor fl0 ok_uri) (\<lambda>_ _. rint 7) []) = Ok self"
  by (simp add: srt_ctor_def ok_uri_def Let_def take_blocking_def cmap_get_def srt_sock0_def SRT_INVALID_SOCK_def
      false_names_def assert_options_valid_def cmap_erase_def configure_pre_def SrtConfigurePre_def set_linger_def
      SrtInterpretMode_def foldP_no_options srt_consts setup_epolls_def handle_hosts_def)

theorem srt_ctor_ok_witness:
  "\<exists>self. snd (exec (srt_ctor fl0 ok_uri) (\<lambda>_ _. rint 7) []) = Ok self \<and>
     created_sockets (fst (exec (srt_ctor fl0 ok_uri) (\<lambda>_ _. rint 7) [])) = [ss_bind_socket self]"
proof -
  obtain self where s: "snd (exec (srt_ctor fl0 ok_uri) (\<lambda>_ _. rint 7) []) = Ok self"
    using ok_uri_run by blast
  have "runs (srt_ctor fl0 ok_uri) (fst (exec (srt_ctor fl0 ok_uri) (\<lambda>_ _. rint 7) [])) (Ok self)"
    using runs_exec[of "srt_ctor fl0 ok_uri" "\<lambda>_ _. rint 7" "[]"] by (simp add: s)
  from srt_ctor_ok[OF this] s show ?thesis by blast
qed

theorem srt_ctor_leak_witness:
  "created_sockets [(Srt Srt_create_socket, rint 7)] = [7] \<and> closed_sockets [(Srt Srt_create_socket, rint 7)] = []"
proof -
  have "find (\<lambda>(key, val). key \<notin> so_name ` set (srt_options fl0) \<and> key \<notin> {''bind'', ''mode''}) [(''linger'', ''1'')]
      = Some (''linger'', ''1'')"
    by (simp add: srt_options_def opt_def fl0_def)
  then have "\<exists>e. runs (srt_ctor fl0 bad_uri) [(Srt Srt_create_socket, rint 7)] (Raised e)"
    by (simp add: srt_ctor_def bad_uri_def ok_uri_def Let_def take_blocking_def cmap_get_def SRT_INVALID_SOCK_def
        assert_options_valid_def)
  then obtain e where "runs (srt_ctor fl0 bad_uri) [(Srt Srt_create_socket, rint 7)] (Raised e)" by blast
  from srt_ctor_leak[OF this] show ?thesis
    by (simp add: projection_defs bind_failed_def SRT_INVALID_SOCK_def)
qed

text \<open>C29: \<^verbatim>\<open>read\<close>. Every run of a read returns the received message and its size, at most the size of
  the buffer, or nothing (timeout or spurious wake-up), or raises \<^verbatim>\<open>socket::exception\<close> with no message
  consumed; it never sends and receives at most one message.\<close>

theorem srt_read_result:
  assumes "runs (srt_read self n timeout) tr out" and "recv_contract tr"
  shows "out_messages tr = [] \<and>
     (case out of
        Ok (k, bs) \<Rightarrow> k = length bs \<and> k \<le> n \<and> in_messages tr = nonempty bs
      | Raised e \<Rightarrow> is_socket_exn e \<and> in_messages tr = []
      | Fuel_out \<Rightarrow> False)"
  using srt_sock.rd_result[OF assms] srt_sock.rd_sends_nothing[OF assms(1)] by blast

theorem srt_read_result_witness:
  "in_messages [(Srt (Srt_recvmsg2 7 100), rdata ''abc'')] = [''abc'']"
proof -
  let ?self = "srt_sock0\<lparr>ss_bind_socket := 7, ss_blocking_mode := True\<rparr>"
  have r: "runs (srt_read ?self 100 (-1)) [(Srt (Srt_recvmsg2 7 100), rdata ''abc'')] (Ok (3, ''abc''))"
    by (simp add: srt_read_def srt_consts)
  have c: "recv_contract [(Srt (Srt_recvmsg2 7 100), rdata ''abc'')]"
    by (simp add: recv_contract_def recv_ok_def)
  from srt_read_result[OF r c] show ?thesis by (simp add: nonempty_def)
qed

lemma confined_getsockflag_config:
  "confined (\<lambda>c. \<exists>s p. c = Srt (Srt_getsockflag s p)) E (print_negotiated_config fl sock)"
  by (auto simp: print_negotiated_config_def latency_str_def get_sock_value_def Let_def intro!: confined_intros)

lemma confined_os_create_addr: "confined (\<lambda>c. \<exists>oc. c = Os oc) E (create_addr name port)"
proof -
  have "confined (\<lambda>c. \<exists>oc. c = Os oc) E (try_families fs name p)" for fs p
    by (induction fs) auto
  then show ?thesis
    by (auto simp: create_addr_def create_addr_family_def Let_def intro!: confined_intros split: option.splits)
qed

text \<open>A trace of calls that the projections do not see.\<close>

definition silent_call :: "call \<Rightarrow> bool" where
  "silent_call c = (case c of Srt (Srt_getsockflag _ _) \<Rightarrow> True | Os _ \<Rightarrow> True
     | Srt Srt_getlasterror \<Rightarrow> True | Srt Srt_getlasterror_str \<Rightarrow> True | _ \<Rightarrow> False)"

lemma silent_trace:
  "list_all (\<lambda>e. silent_call (fst e)) tr \<Longrightarrow> set_options s tr = [] \<and> neutral tr"
  by (induction tr) (auto simp: silent_call_def neutral_def bind_failed_def projection_defs split: call.splits srt_call.splits)

lemma create_addr_silent: "runs (create_addr name port) tr out \<Longrightarrow> set_options s tr = [] \<and> neutral tr"
  by (rule silent_trace, rule confined_runs[OF confined_mono[OF confined_os_create_addr]])
    (auto simp: silent_call_def)

lemma print_config_silent: "runs (print_negotiated_config fl sock) tr out \<Longrightarrow> set_options s tr = [] \<and> neutral tr"
  by (rule silent_trace, rule confined_runs[OF confined_mono[OF confined_getsockflag_config]])
    (auto simp: silent_call_def)

lemma runs_configure_post:
  assumes "runs (configure_post fl s self) tr out"
  shows "\<exists>res. out = Ok res \<and> neutral tr \<and> (res \<noteq> -1 \<longrightarrow>
    set_options s tr = (let b = OV_int (if ss_blocking_mode self then 1 else 0) in [(SRTO_SNDSYN, b), (SRTO_RCVSYN, b)]) @
       wanted_values POST (ss_options self) (srt_options fl))"
proof -
  have post: "\<exists>fails. o' = Ok fails \<and> set_options s t = wanted_values POST (ss_options self) (srt_options fl)"
    if "runs (SrtConfigurePost fl s (ss_options self)) t o'" for t o'
    using runs_SrtConfigurePost[OF that] by blast
  have "confined keeps_sockets (\<lambda>_. True) (configure_post fl s self)"
    by (auto simp: configure_post_def SrtConfigurePost_def Let_def intro!: confined_intros confined_configure_step
        split: prod.splits)
  with assms have "neutral tr" by (rule confined_neutral[rotated])
  moreover have "\<exists>res. out = Ok res \<and> (res \<noteq> -1 \<longrightarrow>
    set_options s tr = (let b = OV_int (if ss_blocking_mode self then 1 else 0) in [(SRTO_SNDSYN, b), (SRTO_RCVSYN, b)]) @
       wanted_values POST (ss_options self) (srt_options fl))"
    using assms
    by (auto simp: configure_post_def Let_def runs_bindP runs_call_simps set_options_def[of s "_ # _"]
        simp del: runs.simps(4) split: if_splits dest!: post) (simp_all add: set_options_def)
  ultimately show ?thesis by blast
qed

definition connect_refused :: "strace \<Rightarrow> bool" where
  "connect_refused tr = list_ex (\<lambda>e. case e of (Srt (Srt_connect s a l), r) \<Rightarrow> r_int r = SRT_ERROR | _ \<Rightarrow> False) tr"

lemma not_connect_refused:
  assumes "list_all (\<lambda>e. \<forall>a b l. fst e \<noteq> Srt (Srt_connect a b l)) tr"
  shows "\<not> connect_refused tr"
proof
  assume "connect_refused tr"
  then obtain c r where e: "(c, r) \<in> set tr" "case c of Srt (Srt_connect s a l) \<Rightarrow> r_int r = SRT_ERROR | _ \<Rightarrow> False"
    by (auto simp: connect_refused_def list_ex_iff)
  then have "\<exists>s a l. c = Srt (Srt_connect s a l)"
    by (cases c) (auto split: srt_call.splits)
  with e(1) assms show False by (fastforce simp: list_all_iff)
qed

text \<open>The parts of \<^verbatim>\<open>connect\<close> after the address is known and after the call to \<^verbatim>\<open>srt_connect\<close>.\<close>

definition connect_rest :: "build_flags \<Rightarrow> srt_sock \<Rightarrow> srt_sock sprog" where
  "connect_rest fl self =
     bindP (if \<not> ss_blocking_mode self then wait_connected self else Ret ()) (\<lambda>_.
     bindP (configure_post fl (ss_bind_socket self) self) (\<lambda>res.
     if res = SRT_ERROR then raise_exception ''connect::onfigure_post''
     else bindP (print_negotiated_config fl (ss_bind_socket self)) (\<lambda>_. Ret self)))"

definition connect_to :: "build_flags \<Rightarrow> srt_sock \<Rightarrow> netaddr_any \<Rightarrow> srt_sock sprog" where
  "connect_to fl self sa =
     bindP (srt (Srt_connect (ss_bind_socket self) (storage sa) (addr_size sa))) (\<lambda>r.
     bindP (if r_int r = SRT_ERROR then
              bindP (srt (Srt_getrejectreason (ss_bind_socket self))) (\<lambda>reason.
              bindP (srt (Srt_close (ss_bind_socket self))) (\<lambda>_.
              bindP (srt Srt_getlasterror_str) (\<lambda>m.
              bindP (srt (Srt_rejectreason_str (r_int reason))) (\<lambda>m2.
              raise_exception_reason ''connect failed'' (r_str m @ ''. Reject reason: '' @ r_str m2)))))
            else Ret ()) (\<lambda>_. connect_rest fl self))"

text \<open>Either the library refuses the connection, or the rest runs.\<close>

lemma runs_connect_to:
  assumes "runs (connect_to fl self sa) tr out"
  shows "\<exists>r t. tr = (Srt (Srt_connect (ss_bind_socket self) (storage sa) (addr_size sa)), r) # t \<and>
    (if r_int r = SRT_ERROR then closed_sockets t = [ss_bind_socket self] \<and> (\<exists>m. out = Raised (Socket_exception m))
     else runs (connect_rest fl self) t out)"
proof -
  from assms obtain r :: reply and t where
    tr: "tr = (Srt (Srt_connect (ss_bind_socket self) (storage sa) (addr_size sa)), r) # t" and
    t: "runs (bindP (if r_int r = SRT_ERROR then
              bindP (srt (Srt_getrejectreason (ss_bind_socket self))) (\<lambda>reason.
              bindP (srt (Srt_close (ss_bind_socket self))) (\<lambda>_.
              bindP (srt Srt_getlasterror_str) (\<lambda>m.
              bindP (srt (Srt_rejectreason_str (r_int reason))) (\<lambda>m2.
              raise_exception_reason ''connect failed'' (r_str m @ ''. Reject reason: '' @ r_str m2)))))
            else Ret ()) (\<lambda>_. connect_rest fl self)) t out"
    unfolding connect_to_def bindP_callP[of "Srt (Srt_connect _ _ _)"] runs_Call by blast
  have "if r_int r = SRT_ERROR then closed_sockets t = [ss_bind_socket self] \<and> (\<exists>m. out = Raised (Socket_exception m))
     else runs (connect_rest fl self) t out"
  proof (cases "r_int r = SRT_ERROR")
    case True
    with t have "closed_sockets t = [ss_bind_socket self] \<and> (\<exists>m. out = Raised (Socket_exception m))"
      by (auto simp: runs_call_simps projection_defs simp del: runs.simps(4))
    with True show ?thesis by simp
  next
    case False
    with t show ?thesis by simp
  qed
  with tr show ?thesis by blast
qed

lemma confined_no_connect:
  "confined (\<lambda>c. \<forall>a b l. c \<noteq> Srt (Srt_connect a b l)) (\<lambda>_. True) (connect_rest fl self)"
proof -
  let ?C = "\<lambda>c. \<forall>a b l. c \<noteq> Srt (Srt_connect a b l)"
  have "confined ?C (\<lambda>_. True) (wait_connected self)"
    by (auto simp: wait_connected_def intro!: confined_intros confined_raise_exception)
  moreover have "confined ?C (\<lambda>_. True) (configure_post fl s self)" for s
    by (auto simp: configure_post_def SrtConfigurePost_def configure_step_def apply_option_def Let_def
        intro!: confined_intros split: option.splits prod.splits)
  moreover have "confined ?C (\<lambda>_. True) (print_negotiated_config fl s)" for s
    by (rule confined_mono[OF confined_getsockflag_config]) auto
  ultimately show ?thesis
    unfolding connect_rest_def
    by (intro confined_intros) (simp_all add: confined_raise_exception)
qed

lemma runs_srt_connect:
  "runs (srt_connect fl self) tr out \<longleftrightarrow>
     (\<exists>sa t1 t2. tr = t1 @ t2 \<and> runs (create_addr (ss_host self) (ss_port self)) t1 (Ok sa) \<and>
        runs (connect_to fl self sa) t2 out)"
proof -
  have "returns (create_addr (ss_host self) (ss_port self))"
    unfolding returns_def using runs_create_addr_returns by blast
  moreover have "srt_connect fl self = bindP (create_addr (ss_host self) (ss_port self)) (connect_to fl self)"
    unfolding srt_connect_def create_addr_or_eq connect_to_def connect_rest_def by (rule refl)
  ultimately show ?thesis
    by (simp only: runs_bindP_returns)
qed

lemma runs_wait_connected_Ok:
  assumes "runs (wait_connected self) tr (Ok x)"
  shows "set_options s tr = [] \<and> neutral tr \<and>
    (\<exists>st. (Srt (Srt_getsockstate (ss_bind_socket self)), st) \<in> set tr \<and> r_int st = SRTS_CONNECTED)"
  using assms
  by (auto simp: wait_connected_def runs_call_simps neutral_def bind_failed_def projection_defs
      simp del: runs.simps(4) split: if_splits)

lemma runs_connect_to_Ok:
  assumes "runs (connect_to fl self sa) tr (Ok self')"
  shows "self' = self \<and> neutral tr \<and>
     set_options (ss_bind_socket self) tr =
       (let b = OV_int (if ss_blocking_mode self then 1 else 0) in [(SRTO_SNDSYN, b), (SRTO_RCVSYN, b)]) @
       wanted_values POST (ss_options self) (srt_options fl) \<and>
     (ss_blocking_mode self \<or>
       (\<exists>st. (Srt (Srt_getsockstate (ss_bind_socket self)), st) \<in> set tr \<and> r_int st = SRTS_CONNECTED))"
proof -
  let ?s = "ss_bind_socket self"
  from runs_connect_to[OF assms] obtain r :: reply and t where
    tr0: "tr = (Srt (Srt_connect ?s (storage sa) (addr_size sa)), r) # t" and "runs (connect_rest fl self) t (Ok self')"
    by (auto split: if_splits)
  then obtain t2 t3 t4 res x where t: "t = t2 @ t3 @ t4"
    and w: "runs (if \<not> ss_blocking_mode self then wait_connected self else Ret ()) t2 (Ok ())"
    and p: "runs (configure_post fl ?s self) t3 (Ok res)" "res \<noteq> SRT_ERROR"
    and n: "runs (print_negotiated_config fl ?s) t4 (Ok x)" and self': "self' = self"
    unfolding connect_rest_def runs_bindP_Ok by (fastforce split: if_splits simp: runs_bindP_Ok)
  note tr = tr0[unfolded t]
  have 2: "set_options ?s t2 = [] \<and> neutral t2 \<and>
     (ss_blocking_mode self \<or> (\<exists>st. (Srt (Srt_getsockstate ?s), st) \<in> set t2 \<and> r_int st = SRTS_CONNECTED))"
    using w runs_wait_connected_Ok[of self t2 "()" ?s]
    by (cases "ss_blocking_mode self") (auto simp: neutral_def bind_failed_def projection_defs)
  have 1: "set_options ?s ((Srt (Srt_connect ?s (storage sa) (addr_size sa)), r) # t) = set_options ?s t"
    "neutral ((Srt (Srt_connect ?s (storage sa) (addr_size sa)), r) # t) = neutral t" for t
    by (simp_all add: neutral_def bind_failed_def projection_defs)
  show ?thesis
    using 2 runs_configure_post[OF p(1)] p(2) print_config_silent[OF n, of ?s]
    by (auto simp: tr 1 trace_projections_append self' SRT_ERROR_def)
qed

text \<open>C19: \<^verbatim>\<open>connect\<close>. When it returns, it returns the object itself, the transport socket is still open,
  exactly the synchronisation flags and the well-formed POST options were set on it, and in
  non-blocking mode the socket was seen in the connected state.\<close>

theorem srt_connect_ok:
  assumes "runs (srt_connect fl self) tr (Ok self')"
  shows "self' = self \<and> closed_sockets tr = [] \<and>
     set_options (ss_bind_socket self) tr =
       (let b = OV_int (if ss_blocking_mode self then 1 else 0) in [(SRTO_SNDSYN, b), (SRTO_RCVSYN, b)]) @
       wanted_values POST (ss_options self) (srt_options fl) \<and>
     (ss_blocking_mode self \<or>
       (\<exists>st. (Srt (Srt_getsockstate (ss_bind_socket self)), st) \<in> set tr \<and> r_int st = SRTS_CONNECTED))"
proof -
  from assms obtain sa t1 t2 where tr: "tr = t1 @ t2"
    and a: "runs (create_addr (ss_host self) (ss_port self)) t1 (Ok sa)" and c: "runs (connect_to fl self sa) t2 (Ok self')"
    unfolding runs_srt_connect by blast
  from runs_connect_to_Ok[OF c] create_addr_silent[OF a, of "ss_bind_socket self"] show ?thesis
    by (auto simp: tr neutral_def trace_projections_append)
qed

definition caller0 :: srt_sock where
  "caller0 = srt_sock0\<lparr>ss_bind_socket := 7, ss_blocking_mode := True, ss_mode := CALLER, ss_port := 42\<rparr>"

theorem srt_connect_ok_witness:
  "snd (exec (srt_connect fl0 caller0) (\<lambda>_ _. rint 0) []) = Ok caller0 \<and>
   closed_sockets (fst (exec (srt_connect fl0 caller0) (\<lambda>_ _. rint 0) [])) = []"
proof -
  have ok: "snd (exec (srt_connect fl0 caller0) (\<lambda>_ _. rint 0) []) = Ok caller0"
    by (simp add: srt_connect_def create_addr_or_eq create_addr_def create_addr_family_def caller0_def srt_sock0_def
        srt_consts configure_post_def SrtConfigurePost_def cmap_empty_def foldP_no_options print_negotiated_config_def
        get_sock_value_def latency_str_def fl0_def Let_def)
  then have "runs (srt_connect fl0 caller0) (fst (exec (srt_connect fl0 caller0) (\<lambda>_ _. rint 0) [])) (Ok caller0)"
    using runs_exec[of "srt_connect fl0 caller0" "\<lambda>_ _. rint 0" "[]"] by simp
  from srt_connect_ok[OF this] ok show ?thesis by blast
qed

subsection \<open>Closing twice\<close>

lemma runs_srt_dtor:
  "runs (srt_dtor self) tr out \<Longrightarrow> out = Ok () \<and> closed_sockets tr = [ss_bind_socket self] \<and> created_sockets tr = []"
  by (auto simp: srt_dtor_def runs_call_simps projection_defs simp del: runs.simps(4) split: if_splits)

text \<open>C35: a refused connection closes the transport socket twice: \<^verbatim>\<open>connect\<close> closes it before raising,
  and the destructor of the object, which still holds the handle, closes it again.\<close>

theorem srt_connect_double_close:
  assumes "runs (srt_connect fl self) tr (Raised e)" and "connect_refused tr"
    and "runs (srt_dtor self) tr' (Ok ())"
  shows "closed_sockets (tr @ tr') = [ss_bind_socket self, ss_bind_socket self]"
proof -
  let ?s = "ss_bind_socket self"
  from assms(1) obtain sa t1 t2 where tr: "tr = t1 @ t2"
    and a: "runs (create_addr (ss_host self) (ss_port self)) t1 (Ok sa)" and c: "runs (connect_to fl self sa) t2 (Raised e)"
    unfolding runs_srt_connect by blast
  have os: "list_all (\<lambda>e. \<exists>oc. fst e = Os oc) t1"
    by (rule confined_runs[OF confined_os_create_addr a])
  have "\<not> connect_refused t1"
    by (rule not_connect_refused) (use os in \<open>auto simp: list_all_iff\<close>)
  with assms(2) have ref: "connect_refused t2"
    by (simp add: connect_refused_def tr)
  from runs_connect_to[OF c] obtain r :: reply and t3 where
    t2: "t2 = (Srt (Srt_connect ?s (storage sa) (addr_size sa)), r) # t3"
    and t3: "if r_int r = SRT_ERROR then closed_sockets t3 = [?s] else runs (connect_rest fl self) t3 (Raised e)"
    by (auto split: if_splits)
  have "r_int r = SRT_ERROR"
  proof (rule ccontr)
    assume ne: "r_int r \<noteq> SRT_ERROR"
    with t3 have "list_all (\<lambda>e. \<forall>a b l. fst e \<noteq> Srt (Srt_connect a b l)) t3"
      by (auto intro: confined_runs[OF confined_no_connect])
    then have "\<not> connect_refused t3"
      by (rule not_connect_refused)
    with ref ne show False by (simp add: t2 connect_refused_def)
  qed
  with t3 have "closed_sockets t2 = [?s]"
    by (simp add: t2 projection_defs)
  with create_addr_silent[OF a, of ?s] runs_srt_dtor[OF assms(3)] show ?thesis
    by (simp add: tr trace_projections_append neutral_def)
qed

definition refusing :: "strace \<Rightarrow> call \<Rightarrow> reply" where
  "refusing h c = (case c of Srt (Srt_connect s a l) \<Rightarrow> rint (-1) | _ \<Rightarrow> rint 0)"

theorem srt_connect_double_close_witness:
  "closed_sockets (fst (exec (srt_connect fl0 caller0) refusing []) @ fst (exec (srt_dtor caller0) refusing [])) = [7, 7]"
proof -
  let ?p = "exec (srt_connect fl0 caller0) refusing []" and ?q = "exec (srt_dtor caller0) refusing []"
  note defs = srt_connect_def create_addr_or_eq create_addr_def create_addr_family_def caller0_def srt_sock0_def
    srt_consts refusing_def connect_refused_def raise_exception_reason_def throw_socket_def srt_dtor_def
  have "\<exists>e. snd ?p = Raised e" and ref: "connect_refused (fst ?p)" and "snd ?q = Ok ()"
    by (simp_all add: defs af_defs Let_def)
  then obtain e where p: "runs (srt_connect fl0 caller0) (fst ?p) (Raised e)" and q: "runs (srt_dtor caller0) (fst ?q) (Ok ())"
    using runs_exec[of "srt_connect fl0 caller0" refusing "[]"] runs_exec[of "srt_dtor caller0" refusing "[]"] by auto
  from srt_connect_double_close[OF p ref q] show ?thesis by (simp add: caller0_def)
qed

end
