(* ===== verification/SrtStats.thy ===== *)
theory SrtStats
  imports SrtSocket
begin

text \<open>
  The statistics reports of \<^verbatim>\<open>socket::srt\<close> and \<^verbatim>\<open>socket::srt_group\<close> (\<^verbatim>\<open>stats_to_csv\<close>, \<^verbatim>\<open>stats_to_json\<close>,
  \<^verbatim>\<open>get_statistics\<close>), with the stream formatting of integers and doubles they use. A JSON document is a
  value of \<open>json\<close>; its serialisation \<^verbatim>\<open>dump\<close> belongs to nlohmann/json and is an argument.
\<close>

subsection \<open>Formatting\<close>

text \<open>\<^verbatim>\<open>operator<<(double)\<close> with the default format: \<^verbatim>\<open>%g\<close> with six significant digits. The decimal
  exponent of a finite double lies between -324 and 308.\<close>

definition round_half_even :: "rat \<Rightarrow> nat" where
  "round_half_even x =
     (let f = nat \<lfloor>x\<rfloor>; d = x - of_int \<lfloor>x\<rfloor>
      in if d < 1/2 then f else if d > 1/2 then f + 1 else if even f then f else f + 1)"

definition pow10 :: "int \<Rightarrow> rat" where
  "pow10 e = (if 0 \<le> e then 10 ^ nat e else 1 / 10 ^ nat (- e))"

definition decimal_exponent :: "rat \<Rightarrow> int" where
  "decimal_exponent x = (case find (\<lambda>e. pow10 e \<le> x) (rev [-330..310]) of None \<Rightarrow> -330 | Some e \<Rightarrow> e)"

definition strip_zeros :: "string \<Rightarrow> string" where
  "strip_zeros s = rev (dropWhile (\<lambda>c. c = CHR ''0'') (rev s))"

definition with_fraction :: "string \<Rightarrow> string \<Rightarrow> string" where
  "with_fraction whole fr = (let f = strip_zeros fr in if f = [] then whole else whole @ ''.'' @ f)"

definition two_digits :: "nat \<Rightarrow> string" where
  "two_digits n = (if n < 10 then ''0'' @ nat_to_string n else nat_to_string n)"

definition show_positive :: "rat \<Rightarrow> string" where
  "show_positive x =
     (let e0 = decimal_exponent x;
          m0 = round_half_even (x / pow10 (e0 - 5));
          (m, e) = (if m0 \<ge> 1000000 then (m0 div 10, e0 + 1) else (m0, e0));
          ds = nat_to_string m
      in if e < -4 \<or> 6 \<le> e
         then with_fraction (take 1 ds) (drop 1 ds) @ ''e'' @ (if e < 0 then ''-'' else ''+'') @ two_digits (nat \<bar>e\<bar>)
         else if 0 \<le> e then with_fraction (take (nat e + 1) ds) (drop (nat e + 1) ds)
         else with_fraction ''0'' (replicate (nat (- e) - 1) (CHR ''0'') @ ds))"

definition show_double :: "rat \<Rightarrow> string" where
  "show_double x = (if x = 0 then ''0'' else if x < 0 then ''-'' @ show_positive (- x) else show_positive x)"

text \<open>\<^verbatim>\<open>print_timestamp_now\<close> (\<^verbatim>\<open>misc.hpp\<close>): the date and time printed by \<^verbatim>\<open>put_time\<close> is the string of the
  reply, the microseconds its number, padded to six digits, and the offset from UTC its bytes.\<close>

definition pad6 :: "string \<Rightarrow> string" where
  "pad6 s = replicate (6 - length s) (CHR ''0'') @ s"

definition print_timestamp_now :: "string sprog" where
  "print_timestamp_now =
     bindP (os Timestamp_now) (\<lambda>r. Ret (r_str r @ pad6 (int_to_string (r_int2 r)) @ r_bytes r))"

subsection \<open>Build configuration\<close>

record srt_version =
  SRT_VERSION_MAJOR :: nat
  SRT_VERSION_MINOR :: nat
  SRT_VERSION_PATCH :: nat
  HAS_PUT_TIME :: bool

definition HAS_PKT_REORDER_TOL :: "srt_version \<Rightarrow> bool" where
  "HAS_PKT_REORDER_TOL v \<longleftrightarrow> SRT_VERSION_MAJOR v \<ge> 1 \<and> SRT_VERSION_MINOR v \<ge> 4 \<and> SRT_VERSION_PATCH v > 0"

definition HAS_UNIQUE_PKTS :: "srt_version \<Rightarrow> bool" where
  "HAS_UNIQUE_PKTS v \<longleftrightarrow> SRT_VERSION_MAJOR v = 1 \<and>
     (SRT_VERSION_MINOR v > 4 \<or> SRT_VERSION_MINOR v = 4 \<and> SRT_VERSION_PATCH v \<ge> 2)"

subsection \<open>CSV\<close>

definition endl :: string where "endl = [CHR 0x0A]"

definition csv_header :: "srt_version \<Rightarrow> string" where
  "csv_header v =
     (if HAS_PUT_TIME v then ''Timepoint,'' else '''')
     @ ''Time,SocketID,weight,pktFlowWindow,pktCongestionWindow,pktFlightSize,''
     @ ''msRTT,mbpsBandwidth,mbpsMaxBW,pktSent,''
     @ (if HAS_UNIQUE_PKTS v then ''pktSentUnique,'' else '''')
     @ ''pktSndLoss,pktSndDrop,pktRetrans,byteSent,''
     @ ''byteAvailSndBuf,byteSndDrop,mbpsSendRate,usPktSndPeriod,msSndBuf,pktRecv,''
     @ (if HAS_UNIQUE_PKTS v then ''pktRecvUnique,'' else '''')
     @ ''pktRcvLoss,pktRcvDrop,pktRcvUndecrypt,pktRcvRetrans,pktRcvBelated,''
     @ ''byteRecv,byteAvailRcvBuf,byteRcvLoss,byteRcvDrop,mbpsRecvRate,msRcvBuf,msRcvTsbPdDelay''
     @ (if HAS_PKT_REORDER_TOL v then '',pktReorderTolerance'' else '''')
     @ endl"

definition csv_row :: "srt_version \<Rightarrow> string \<Rightarrow> int \<Rightarrow> perfmon \<Rightarrow> int \<Rightarrow> string" where
  "csv_row v timepoint socketid stats weight =
     (if HAS_PUT_TIME v then timepoint @ '','' else '''')
     @ int_to_string (msTimeStamp stats) @ '',''
     @ int_to_string socketid @ '',''
     @ int_to_string weight @ '',''
     @ int_to_string (pktFlowWindow stats) @ '',''
     @ int_to_string (pktCongestionWindow stats) @ '',''
     @ int_to_string (pktFlightSize stats) @ '',''
     @ show_double (msRTT stats) @ '',''
     @ show_double (mbpsBandwidth stats) @ '',''
     @ show_double (mbpsMaxBW stats) @ '',''
     @ int_to_string (pktSent stats) @ '',''
     @ (if HAS_UNIQUE_PKTS v then int_to_string (pktSentUnique stats) @ '','' else '''')
     @ int_to_string (pktSndLoss stats) @ '',''
     @ int_to_string (pktSndDrop stats) @ '',''
     @ int_to_string (pktRetrans stats) @ '',''
     @ int_to_string (byteSent stats) @ '',''
     @ int_to_string (byteAvailSndBuf stats) @ '',''
     @ int_to_string (byteSndDrop stats) @ '',''
     @ show_double (mbpsSendRate stats) @ '',''
     @ show_double (usPktSndPeriod stats) @ '',''
     @ int_to_string (msSndBuf stats) @ '',''
     @ int_to_string (pktRecv stats) @ '',''
     @ (if HAS_UNIQUE_PKTS v then int_to_string (pktRecvUnique stats) @ '','' else '''')
     @ int_to_string (pktRcvLoss stats) @ '',''
     @ int_to_string (pktRcvDrop stats) @ '',''
     @ int_to_string (pktRcvUndecrypt stats) @ '',''
     @ int_to_string (pktRcvRetrans stats) @ '',''
     @ int_to_string (pktRcvBelated stats) @ '',''
     @ int_to_string (byteRecv stats) @ '',''
     @ int_to_string (byteAvailRcvBuf stats) @ '',''
     @ int_to_string (byteRcvLoss stats) @ '',''
     @ int_to_string (byteRcvDrop stats) @ '',''
     @ show_double (mbpsRecvRate stats) @ '',''
     @ int_to_string (msRcvBuf stats) @ '',''
     @ int_to_string (msRcvTsbPdDelay stats)
     @ (if HAS_PKT_REORDER_TOL v then '','' @ int_to_string (pktReorderTolerance stats) else '''')
     @ endl"

definition timepoint :: "srt_version \<Rightarrow> string sprog" where
  "timepoint v = (if HAS_PUT_TIME v then print_timestamp_now else Ret '''')"

definition group_stats_to_csv :: "srt_version \<Rightarrow> int \<Rightarrow> perfmon \<Rightarrow> int \<Rightarrow> bool \<Rightarrow> string sprog" where
  "group_stats_to_csv v socketid stats weight print_header =
     (if print_header then Ret (csv_header v)
      else bindP (timepoint v) (\<lambda>tp. Ret (csv_row v tp socketid stats weight)))"

text \<open>The socket version prints 0 for the weight.\<close>

definition srt_stats_to_csv :: "srt_version \<Rightarrow> int \<Rightarrow> perfmon \<Rightarrow> bool \<Rightarrow> string sprog" where
  "srt_stats_to_csv v socketid stats print_header =
     (if print_header then Ret (csv_header v)
      else bindP (timepoint v) (\<lambda>tp. Ret (csv_row v tp socketid stats 0)))"

subsection \<open>JSON\<close>

datatype json =
    JNull
  | JInt int
  | JDouble rat
  | JArr "json list"
  | JObj "(string \<times> json) list"

text \<open>An object lists its members in the order of assignment (\<^verbatim>\<open>root[k] = v\<close> with distinct keys).
  \<^verbatim>\<open>Timepoint\<close> is absent: \<^verbatim>\<open>HAS_PUT_TIME\<close> was undefined by \<^verbatim>\<open>stats_to_csv\<close> above it.\<close>

definition optional_members :: "srt_version \<Rightarrow> perfmon \<Rightarrow> (string \<times> json) list" where
  "optional_members v stats =
     (if HAS_PKT_REORDER_TOL v then [(''pktReorderTolerance'', JInt (pktReorderTolerance stats))] else [])
     @ (if HAS_UNIQUE_PKTS v then [(''pktSentUnique'', JInt (pktSentUnique stats)),
                                  (''pktRecvUnique'', JInt (pktRecvUnique stats))] else [])"

definition srt_stats_to_json :: "srt_version \<Rightarrow> int \<Rightarrow> perfmon \<Rightarrow> (string \<times> json) list" where
  "srt_stats_to_json v socketid stats =
     [(''Time'', JInt (msTimeStamp stats)),
      (''SocketID'', JInt socketid),
      (''pktFlowWindow'', JInt (pktFlowWindow stats)),
      (''pktCongestionWindow'', JInt (pktCongestionWindow stats)),
      (''pktFlightSize'', JInt (pktFlightSize stats)),
      (''msRTT'', JDouble (msRTT stats)),
      (''mbpsBandwidth'', JDouble (mbpsBandwidth stats)),
      (''mbpsMaxBW'', JDouble (mbpsMaxBW stats)),
      (''pktSent'', JInt (pktSent stats)),
      (''pktSndLoss'', JInt (pktSndLoss stats)),
      (''pktSndDrop'', JInt (pktSndDrop stats)),
      (''pktRetrans'', JInt (pktRetrans stats)),
      (''byteSent'', JInt (byteSent stats)),
      (''byteAvailSndBuf'', JInt (byteAvailSndBuf stats)),
      (''byteSndDrop'', JInt (byteSndDrop stats)),
      (''mbpsSendRate'', JDouble (mbpsSendRate stats)),
      (''usPktSndPeriod'', JDouble (usPktSndPeriod stats)),
      (''msSndBuf'', JInt (msSndBuf stats)),
      (''pktRecv'', JInt (pktRecv stats)),
      (''pktRcvLoss'', JInt (pktRcvLoss stats)),
      (''pktRcvDrop'', JInt (pktRcvDrop stats)),
      (''pktRcvUndecrypt'', JInt (pktRcvUndecrypt stats)),
      (''mbpsRecvRate'', JDouble (mbpsRecvRate stats)),
      (''msRcvBuf'', JInt (msRcvBuf stats)),
      (''msRcvTsbPdDelay'', JInt (msRcvTsbPdDelay stats))]
     @ optional_members v stats"

definition group_stats_to_json :: "srt_version \<Rightarrow> int \<Rightarrow> perfmon \<Rightarrow> int \<Rightarrow> (string \<times> json) list" where
  "group_stats_to_json v socketid stats weight =
     [(''Time'', JInt (msTimeStamp stats)),
      (''SocketID'', JInt socketid),
      (''weight'', JInt weight),
      (''pktFlowWindow'', JInt (pktFlowWindow stats)),
      (''pktCongestionWindow'', JInt (pktCongestionWindow stats)),
      (''pktFlightSize'', JInt (pktFlightSize stats)),
      (''msRTT'', JDouble (msRTT stats)),
      (''mbpsBandwidth'', JDouble (mbpsBandwidth stats)),
      (''mbpsMaxBW'', JDouble (mbpsMaxBW stats)),
      (''pktSent'', JInt (pktSent stats)),
      (''pktSndLoss'', JInt (pktSndLoss stats)),
      (''pktSndDrop'', JInt (pktSndDrop stats)),
      (''pktRetrans'', JInt (pktRetrans stats)),
      (''byteSent'', JInt (byteSent stats)),
      (''byteAvailSndBuf'', JInt (byteAvailSndBuf stats)),
      (''byteSndDrop'', JInt (byteSndDrop stats)),
      (''mbpsSendRate'', JDouble (mbpsSendRate stats)),
      (''usPktSndPeriod'', JDouble (usPktSndPeriod stats)),
      (''msSndBuf'', JInt (msSndBuf stats)),
      (''pktRecv'', JInt (pktRecv stats)),
      (''pktRcvLoss'', JInt (pktRcvLoss stats)),
      (''pktRcvDrop'', JInt (pktRcvDrop stats)),
      (''pktRcvRetrans'', JInt (pktRcvRetrans stats)),
      (''pktRcvBelated'', JInt (pktRcvBelated stats)),
      (''byteRecv'', JInt (byteRecv stats)),
      (''byteAvailRcvBuf'', JInt (byteAvailRcvBuf stats)),
      (''byteRcvLoss'', JInt (byteRcvLoss stats)),
      (''byteRcvDrop'', JInt (byteRcvDrop stats)),
      (''mbpsRecvRate'', JDouble (mbpsRecvRate stats)),
      (''msRcvBuf'', JInt (msRcvBuf stats)),
      (''msRcvTsbPdDelay'', JInt (msRcvTsbPdDelay stats))]
     @ optional_members v stats"

subsection \<open>The reports\<close>

definition srt_get_statistics :: "(json \<Rightarrow> string) \<Rightarrow> srt_version \<Rightarrow> srt_sock \<Rightarrow> string \<Rightarrow> bool \<Rightarrow> string sprog" where
  "srt_get_statistics dump v self stats_format print_header =
     bindP (srt (Srt_bstats (ss_bind_socket self) True)) (\<lambda>r.
     if r_int r = SRT_ERROR then raise_exception ''statistics''
     else if stats_format = ''json'' then
       (if print_header then Ret ''''
        else Ret (dump (JObj [(''ConnStats'', JObj (srt_stats_to_json v (ss_bind_socket self) (r_stats r))),
                              (''LinksStats'', JNull)]) @ endl))
     else srt_stats_to_csv v (ss_bind_socket self) (r_stats r) print_header)"

text \<open>The members of a group: the first call asks for their number, the second fills a vector of that size, whose
  elements are value-initialised before. \<open>None\<close> when either call failed; reading past the end of the vector is
  undefined.\<close>

definition groupdata0 :: groupdata where
  "groupdata0 = \<lparr>gd_id = 0, gd_sockstate = 0, gd_weight = 0\<rparr>"

definition fill_vector :: "nat \<Rightarrow> groupdata list \<Rightarrow> groupdata list" where
  "fill_vector n gds = take n gds @ replicate (n - length gds) groupdata0"

definition group_members :: "int \<Rightarrow> groupdata list option sprog" where
  "group_members sock =
     bindP (srt (Srt_group_data sock None)) (\<lambda>r0.
     if r_int r0 \<noteq> SRT_SUCCESS then Ret None
     else
       let group_size = nat (r_int2 r0) in
       bindP (srt (Srt_group_data sock (Some group_size))) (\<lambda>r1.
       let group_data = fill_vector group_size (r_gdata r1); num_members = r_int r1 in
       if num_members = SRT_ERROR then bindP (srt Srt_getlasterror_str) (\<lambda>_. Ret None)
       else if num_members > int (length group_data) then Exc (Undefined ''group_data[i]'')
       else Ret (Some (take (nat num_members) group_data))))"

text \<open>One member of the loop over the group: its statistics, \<open>None\<close> when it is skipped.\<close>

definition member_stats :: "groupdata \<Rightarrow> perfmon option sprog" where
  "member_stats gd =
     (if gd_sockstate gd \<noteq> SRTS_CONNECTED then Ret None
      else bindP (srt (Srt_bstats (gd_id gd) True)) (\<lambda>r.
        if r_int r = SRT_ERROR then bindP (srt Srt_getlasterror_str) (\<lambda>_. Ret None) else Ret (Some (r_stats r))))"

definition group_get_statistics_csv :: "srt_version \<Rightarrow> int \<Rightarrow> bool \<Rightarrow> string sprog" where
  "group_get_statistics_csv v sock print_header =
     (if print_header then group_stats_to_csv v sock perfmon0 0 print_header
      else bindP (srt (Srt_bstats sock True)) (\<lambda>r.
        if r_int r = SRT_ERROR then raise_exception ''statistics''
        else bindP (group_stats_to_csv v sock (r_stats r) 0 print_header) (\<lambda>csv_stats.
          bindP (group_members sock) (\<lambda>ms.
          case ms of None \<Rightarrow> Ret csv_stats
          | Some gds \<Rightarrow>
              foldP (\<lambda>gd csv. bindP (member_stats gd) (\<lambda>st. case st of None \<Rightarrow> Ret csv
                 | Some stats \<Rightarrow> bindP (group_stats_to_csv v (gd_id gd) stats (gd_weight gd) False) (\<lambda>row. Ret (csv @ row))))
                gds csv_stats))))"

definition group_get_statistics_json :: "(json \<Rightarrow> string) \<Rightarrow> srt_version \<Rightarrow> int \<Rightarrow> string sprog" where
  "group_get_statistics_json dump v sock =
     bindP (srt (Srt_bstats sock True)) (\<lambda>r.
     if r_int r = SRT_ERROR then raise_exception ''statistics''
     else
       let conn = JObj (group_stats_to_json v sock (r_stats r) 0);
           doc = (\<lambda>links. dump (JObj [(''LinksStats'', links), (''ConnStats'', conn)]) @ endl)
       in bindP (group_members sock) (\<lambda>ms.
          case ms of None \<Rightarrow> Ret (doc (JArr []))
          | Some gds \<Rightarrow>
              bindP (foldP (\<lambda>gd links. bindP (member_stats gd) (\<lambda>st. case st of None \<Rightarrow> Ret links
                 | Some stats \<Rightarrow> Ret (links @ [JObj (group_stats_to_json v (gd_id gd) stats (gd_weight gd))])))
                gds []) (\<lambda>links. Ret (doc (if links = [] then JNull else JArr links)))))"

definition group_get_statistics ::
  "(json \<Rightarrow> string) \<Rightarrow> srt_version \<Rightarrow> int \<Rightarrow> string \<Rightarrow> bool \<Rightarrow> string sprog" where
  "group_get_statistics dump v sock stats_format print_header =
     (if stats_format = ''json'' then
        (if \<not> print_header then group_get_statistics_json dump v sock else Ret '''')
      else group_get_statistics_csv v sock print_header)"

subsection \<open>The shape of the reports\<close>

definition commas :: "string \<Rightarrow> nat" where
  "commas s = length (filter (\<lambda>c. c = CHR '','') s)"

definition newlines :: "string \<Rightarrow> nat" where
  "newlines s = length (filter (\<lambda>c. c = CHR 0x0A) s)"

text \<open>A field: a text without separators.\<close>

definition field :: "string \<Rightarrow> bool" where
  "field s \<longleftrightarrow> CHR '','' \<notin> set s \<and> CHR 0x0A \<notin> set s"

lemma commas_append [simp]: "commas (a @ b) = commas a + commas b"
  by (simp add: commas_def)

lemma newlines_append [simp]: "newlines (a @ b) = newlines a + newlines b"
  by (simp add: newlines_def)

lemma count_Cons:
  "commas (ch # s) = (if ch = CHR '','' then Suc (commas s) else commas s)"
  "newlines (ch # s) = (if ch = CHR 0x0A then Suc (newlines s) else newlines s)"
  by (simp_all add: commas_def newlines_def)

lemma count_Nil: "commas [] = 0" "newlines [] = 0"
  by (simp_all add: commas_def newlines_def)

lemma field_counts: "field s \<Longrightarrow> commas s = 0" "field s \<Longrightarrow> newlines s = 0"
  by (auto simp: field_def commas_def newlines_def filter_empty_conv)

lemma field_append [simp]: "field (a @ b) \<longleftrightarrow> field a \<and> field b"
  by (auto simp: field_def)

lemma field_nat_to_string [simp]: "field (nat_to_string n)"
proof -
  have "\<not> is_digit_of 10 (CHR '','')" "\<not> is_digit_of 10 (CHR 0x0A)"
    by (simp_all add: is_digit_of_def digit_val_def)
  then show ?thesis
    using nat_to_string_digits unfolding field_def by blast
qed

lemma field_int_to_string [simp]: "field (int_to_string i)"
  using field_nat_to_string by (auto simp: int_to_string_def field_def)

lemma field_sub: "field s \<Longrightarrow> set t \<subseteq> set s \<Longrightarrow> field t"
  by (auto simp: field_def)

lemma field_take_drop [simp]: "field s \<Longrightarrow> field (take n s)" "field s \<Longrightarrow> field (drop n s)"
  by (rule field_sub[of s]; simp add: set_take_subset set_drop_subset)+

lemma field_with_fraction: "field a \<Longrightarrow> field b \<Longrightarrow> field (with_fraction a b)"
proof -
  assume a: "field a" and b: "field b"
  have "field (strip_zeros b)"
    by (rule field_sub[OF b]) (auto simp: strip_zeros_def dest: set_dropWhileD)
  with a show ?thesis by (simp add: with_fraction_def Let_def field_def)
qed

lemma field_show_double [simp]: "field (show_double x)"
proof -
  have lit: "field ''0''" "field ''e''" "field ''-''" "field ''+''" "field (replicate n (CHR ''0''))" for n
    by (simp_all add: field_def)
  have two: "field (two_digits n)" for n
    using lit(1) by (simp only: two_digits_def field_append field_nat_to_string split: if_split) simp
  have "field (show_positive y)" for y
    unfolding show_positive_def Let_def
    by (auto simp only: split_beta field_append lit two intro!: field_with_fraction field_take_drop
        field_nat_to_string split: if_split)
  then show ?thesis
    using lit by (simp only: show_double_def field_append split: if_split) simp
qed

lemma field_comma:
  "field f \<Longrightarrow> commas (f @ '','' @ r) = Suc (commas r)" "field f \<Longrightarrow> newlines (f @ '','' @ r) = newlines r"
  by (simp_all add: field_counts count_Cons)

lemma field_then:
  "field f \<Longrightarrow> commas (f @ endl) = 0" "field f \<Longrightarrow> newlines (f @ endl) = 1"
  "commas ('','' @ r) = Suc (commas r)" "newlines ('','' @ r) = newlines r"
  by (simp_all add: field_counts count_Cons endl_def count_Nil)

lemma header_commas:
  "commas ''Timepoint,'' = 1"
  "commas ''Time,SocketID,weight,pktFlowWindow,pktCongestionWindow,pktFlightSize,'' = 6"
  "commas ''msRTT,mbpsBandwidth,mbpsMaxBW,pktSent,'' = 4"
  "commas ''pktSentUnique,'' = 1"
  "commas ''pktSndLoss,pktSndDrop,pktRetrans,byteSent,'' = 4"
  "commas ''byteAvailSndBuf,byteSndDrop,mbpsSendRate,usPktSndPeriod,msSndBuf,pktRecv,'' = 6"
  "commas ''pktRecvUnique,'' = 1"
  "commas ''pktRcvLoss,pktRcvDrop,pktRcvUndecrypt,pktRcvRetrans,pktRcvBelated,'' = 5"
  "commas ''byteRecv,byteAvailRcvBuf,byteRcvLoss,byteRcvDrop,mbpsRecvRate,msRcvBuf,msRcvTsbPdDelay'' = 6"
  "commas '',pktReorderTolerance'' = 1"
  by code_simp+

lemma commas_row:
  assumes "field tp"
  shows "commas (csv_row v tp s st w) = commas (csv_header v) \<and> newlines (csv_row v tp s st w) = 1"
proof -
  have c: "commas '','' = 1" "commas endl = 0" "commas '''' = 0" "newlines '','' = 0" "newlines endl = 1" "newlines '''' = 0"
    by (simp_all add: commas_def newlines_def endl_def)
  have h: "commas (csv_header v) =
     (if HAS_PUT_TIME v then 1 else 0) + 31 + (if HAS_UNIQUE_PKTS v then 2 else 0) + (if HAS_PKT_REORDER_TOL v then 1 else 0)"
    by (simp only: csv_header_def commas_append if_distrib[of commas] c header_commas) simp
  show ?thesis
    unfolding h csv_row_def using assms
    by (cases "HAS_PUT_TIME v"; cases "HAS_UNIQUE_PKTS v"; cases "HAS_PKT_REORDER_TOL v")
      (simp_all only: if_True if_False append_Nil append.assoc field_comma field_then field_int_to_string
        field_show_double c, simp_all)
qed

text \<open>The printed time holds digits and the punctuation of ISO 8601 only.\<close>

definition timestamp_ok :: "call \<times> reply \<Rightarrow> bool" where
  "timestamp_ok e = (case e of (Os Timestamp_now, r) \<Rightarrow> field (r_str r) \<and> field (r_bytes r) | _ \<Rightarrow> True)"

definition csv_line :: "srt_version \<Rightarrow> string \<Rightarrow> bool" where
  "csv_line v row \<longleftrightarrow> commas row = commas (csv_header v) \<and> newlines row = 1 \<and> row \<noteq> [] \<and> last row = CHR 0x0A"

lemma csv_line_row: "field tp \<Longrightarrow> csv_line v (csv_row v tp s st w)"
  using commas_row[of tp v s st w] by (simp add: csv_line_def csv_row_def endl_def)

lemma runs_csv_row:
  assumes "runs (group_stats_to_csv v s st w False) tr out" and "list_all timestamp_ok tr"
  shows "\<exists>row. out = Ok row \<and> csv_line v row"
proof -
  have pad: "field (pad6 t)" if "field t" for t
    using that by (simp add: pad6_def field_def)
  have "\<exists>tp. field tp \<and> out = Ok (csv_row v tp s st w)"
  proof (cases "HAS_PUT_TIME v")
    case True
    with assms obtain r where "tr = [(Os Timestamp_now, r)]"
      "out = Ok (csv_row v (r_str r @ pad6 (int_to_string (r_int2 r)) @ r_bytes r) s st w)"
      by (auto simp: group_stats_to_csv_def timepoint_def print_timestamp_now_def runs_call_simps simp del: runs.simps(4))
    with assms(2) show ?thesis
      by (intro exI[of _ "r_str r @ pad6 (int_to_string (r_int2 r)) @ r_bytes r"]) (simp add: timestamp_ok_def pad)
  next
    case False
    with assms show ?thesis
      by (intro exI[of _ "[]"]) (simp add: group_stats_to_csv_def timepoint_def field_def)
  qed
  with csv_line_row show ?thesis by blast
qed

abbreviation member_line :: "srt_version \<Rightarrow> groupdata \<Rightarrow> string \<Rightarrow> string sprog" where
  "member_line v gd csv \<equiv> bindP (member_stats gd) (\<lambda>st. case st of None \<Rightarrow> Ret csv
     | Some stats \<Rightarrow> bindP (group_stats_to_csv v (gd_id gd) stats (gd_weight gd) False) (\<lambda>row. Ret (csv @ row)))"

lemma runs_member_line:
  assumes r: "runs (member_line v gd csv) t out" and ok: "list_all timestamp_ok t"
  shows "\<exists>rows. out = Ok (csv @ concat rows) \<and> (\<forall>row \<in> set rows. csv_line v row) \<and> length rows \<le> 1"
proof -
  have "returns (member_stats gd)"
    by (auto simp: returns_def member_stats_def runs_call_simps simp del: runs.simps(4) split: if_splits)
  from r[unfolded runs_bindP_returns[OF this]] obtain st t1 t2 where t: "t = t1 @ t2"
    and r2: "runs (case st of None \<Rightarrow> Ret csv | Some stats \<Rightarrow>
        bindP (group_stats_to_csv v (gd_id gd) stats (gd_weight gd) False) (\<lambda>row. Ret (csv @ row))) t2 out"
    by blast
  show ?thesis
  proof (cases st)
    case None
    with r2 show ?thesis by (intro exI[of _ "[]"]) simp
  next
    case (Some stats)
    have "list_all timestamp_ok t2" using ok t by simp
    then have row: "\<exists>row. o' = Ok row \<and> csv_line v row"
      if "runs (group_stats_to_csv v (gd_id gd) stats (gd_weight gd) False) t2 o'" for o'
      using runs_csv_row[OF that] by blast
    from r2 Some row obtain row where "out = Ok (csv @ row)" "csv_line v row"
      by (auto simp: runs_bindP)
    then show ?thesis by (intro exI[of _ "[row]"]) simp
  qed
qed

lemma runs_member_loop:
  assumes "runs (foldP (member_line v) gds csv) tr out" and "list_all timestamp_ok tr"
  shows "\<exists>rows. out = Ok (csv @ concat rows) \<and> (\<forall>row \<in> set rows. csv_line v row) \<and> length rows \<le> length gds"
  using assms
proof (induction gds arbitrary: csv tr)
  case Nil
  then show ?case by (intro exI[of _ "[]"]) simp
next
  case (Cons gd gds)
  from Cons.prems(1) consider (a) x t1 t2 where "tr = t1 @ t2" "runs (member_line v gd csv) t1 (Ok x)" "runs (foldP (member_line v) gds x) t2 out"
    | (b) o' where "runs (member_line v gd csv) tr o'" "\<not> (\<exists>x. o' = Ok x)"
    unfolding foldP.simps runs_bindP[of "member_line v gd csv"] by blast
  then obtain x t1 t2 where tr: "tr = t1 @ t2" and r1: "runs (member_line v gd csv) t1 (Ok x)" and r2: "runs (foldP (member_line v) gds x) t2 out"
    by cases (use runs_member_line[OF _ Cons.prems(2)] in \<open>blast+\<close>)
  have ok: "list_all timestamp_ok t1" "list_all timestamp_ok t2"
    using Cons.prems(2) by (simp_all add: tr)
  from runs_member_line[OF r1 ok(1)] obtain rows1 where 1: "x = csv @ concat rows1" "\<forall>row \<in> set rows1. csv_line v row" "length rows1 \<le> 1"
    by auto
  from Cons.IH[OF r2 ok(2)] obtain rows2 where "out = Ok (x @ concat rows2)" "\<forall>row \<in> set rows2. csv_line v row" "length rows2 \<le> length gds"
    by blast
  with 1 show ?case by (intro exI[of _ "rows1 @ rows2"]) auto
qed

subsection \<open>Properties\<close>

text \<open>C33: the CSV report of a group. Whatever the library answers, the report raises
  \<^verbatim>\<open>socket::exception\<close> or is a sequence of complete lines, one for the group and at most one per
  member, each with exactly as many columns as the header line of the same build.\<close>

theorem group_csv_columns:
  assumes "runs (group_get_statistics_csv v sock False) tr (Ok report)" and "list_all timestamp_ok tr"
  shows "\<exists>rows. report = concat rows \<and> rows \<noteq> [] \<and> (\<forall>row \<in> set rows. csv_line v row)"
proof -
  from assms(1) obtain r :: reply and csv ms t1 t2 t3 where
    tr: "tr = (Srt (Srt_bstats sock True), r) # t1 @ t2 @ t3"
    and r1: "runs (group_stats_to_csv v sock (r_stats r) 0 False) t1 (Ok csv)"
    and r3: "runs (case ms of None \<Rightarrow> Ret csv | Some gds \<Rightarrow>
              foldP (\<lambda>gd csv. bindP (member_stats gd) (\<lambda>st. case st of None \<Rightarrow> Ret csv
                 | Some stats \<Rightarrow> bindP (group_stats_to_csv v (gd_id gd) stats (gd_weight gd) False) (\<lambda>row. Ret (csv @ row))))
                gds csv) t3 (Ok report)"
    unfolding group_get_statistics_csv_def
    by (auto simp: runs_Call runs_bindP_Ok simp del: runs.simps(4) split: if_splits)
  have ok: "list_all timestamp_ok t1" "list_all timestamp_ok t3"
    using assms(2) by (simp_all add: tr)
  from runs_csv_row[OF r1 ok(1)] have c: "csv_line v csv" by simp
  show ?thesis
  proof (cases ms)
    case None
    with r3 c show ?thesis by (intro exI[of _ "[csv]"]) simp
  next
    case (Some gds)
    with runs_member_loop[of v gds csv t3 "Ok report"] r3 ok(2) obtain rows where
      "report = csv @ concat rows" "\<forall>row \<in> set rows. csv_line v row" by auto
    with c show ?thesis by (intro exI[of _ "csv # rows"]) simp
  qed
qed

definition v154 :: srt_version where
  "v154 = \<lparr>SRT_VERSION_MAJOR = 1, SRT_VERSION_MINOR = 5, SRT_VERSION_PATCH = 4, HAS_PUT_TIME = False\<rparr>"

theorem group_csv_columns_witness:
  "\<exists>report rows. snd (exec (group_get_statistics_csv v154 7 False) (\<lambda>_ _. rint 0) []) = Ok report \<and>
     report = concat rows \<and> rows \<noteq> [] \<and> (\<forall>row \<in> set rows. csv_line v154 row)"
proof -
  let ?e = "exec (group_get_statistics_csv v154 7 False) (\<lambda>_ _. rint 0) []"
  obtain report where r: "snd ?e = Ok report" and ok: "list_all timestamp_ok (fst ?e)"
    by (simp add: group_get_statistics_csv_def group_stats_to_csv_def timepoint_def v154_def group_members_def fill_vector_def
        srt_consts Let_def timestamp_ok_def)
  from r have "runs (group_get_statistics_csv v154 7 False) (fst ?e) (Ok report)"
    using runs_exec[of "group_get_statistics_csv v154 7 False" "\<lambda>_ _. rint 0" "[]"] by simp
  from group_csv_columns[OF this ok] r show ?thesis by blast
qed

definition group_only :: "string list" where
  "group_only = [''weight'', ''pktRcvRetrans'', ''pktRcvBelated'', ''byteRecv'', ''byteAvailRcvBuf'',
     ''byteRcvLoss'', ''byteRcvDrop'']"

text \<open>The two JSON reports do not carry the same fields: they agree, in the same order and with
  the same values, except that only the group report has the weight and the six receive counters
  listed here, and only the report of a single socket has \<^verbatim>\<open>pktRcvUndecrypt\<close>.\<close>

theorem json_fields_differ:
  "filter (\<lambda>e. fst e \<noteq> ''pktRcvUndecrypt'') (srt_stats_to_json v s st) =
     filter (\<lambda>e. fst e \<notin> set group_only) (group_stats_to_json v s st w) \<and>
   ''pktRcvUndecrypt'' \<in> fst ` set (srt_stats_to_json v s st) \<and>
   length (filter (\<lambda>e. fst e \<in> set group_only) (group_stats_to_json v s st w)) = length group_only"
  by (simp add: group_stats_to_json_def srt_stats_to_json_def optional_members_def group_only_def)

end
