(* ===== verification/Scheduler.thy ===== *)
theory Scheduler
  imports Prelude "HOL-Library.Multiset"
begin

text \<open>
  The task scheduler of \<^verbatim>\<open>scheduler.hpp\<close>. The multimap of tasks is the list of its entries in key order;
  \<^verbatim>\<open>add_task\<close> and \<^verbatim>\<open>manage_tasks\<close>, which hold \<^verbatim>\<open>lock_\<close> throughout, are functions on it. The timer thread, the
  threads that schedule tasks and the destructor interleave as a step relation whose steps are the
  accesses to shared state of \<^verbatim>\<open>timer_loop\<close>, \<^verbatim>\<open>add_task\<close> and \<^verbatim>\<open>~scheduler\<close>. The timer thread reads \<^verbatim>\<open>tasks_\<close> without
  \<^verbatim>\<open>lock_\<close> after \<^verbatim>\<open>manage_tasks\<close> and in the predicate of the wait; each such read is one step.
\<close>

subsection \<open>The task queue\<close>

type_synonym 'a tasks = "(int \<times> 'a) list"

text \<open>\<^verbatim>\<open>tasks_.emplace\<close>: behind the entries with an equal key.\<close>

definition add_task :: "int \<Rightarrow> 'a \<Rightarrow> 'a tasks \<Rightarrow> 'a tasks" where
  "add_task time t tasks =
     takeWhile (\<lambda>e. fst e \<le> time) tasks @ (time, t) # dropWhile (\<lambda>e. fst e \<le> time) tasks"

text \<open>\<^verbatim>\<open>manage_tasks\<close>: the tasks run, in order, and the tasks left.\<close>

definition manage_tasks :: "int \<Rightarrow> 'a tasks \<Rightarrow> 'a tasks \<times> 'a tasks" where
  "manage_tasks now tasks = (takeWhile (\<lambda>e. fst e \<le> now) tasks, dropWhile (\<lambda>e. fst e \<le> now) tasks)"

definition schedule_on :: "int \<Rightarrow> 'a \<Rightarrow> 'a tasks \<Rightarrow> 'a tasks" where
  "schedule_on time f tasks = add_task time f tasks"

definition schedule_in :: "int \<Rightarrow> int \<Rightarrow> 'a \<Rightarrow> 'a tasks \<Rightarrow> 'a tasks" where
  "schedule_in now delay f tasks = schedule_on (now + delay) f tasks"

definition ordered :: "'a tasks \<Rightarrow> bool" where
  "ordered tasks \<longleftrightarrow> sorted (map fst tasks)"

text \<open>What the users of the scheduler rely on.\<close>

locale timed_tasks =
  fixes put :: "int \<Rightarrow> 'a \<Rightarrow> 'q \<Rightarrow> 'q" and run_due :: "int \<Rightarrow> 'q \<Rightarrow> (int \<times> 'a) list \<times> 'q"
    and pending :: "'q \<Rightarrow> (int \<times> 'a) multiset" and ok :: "'q \<Rightarrow> bool"
  assumes ok_put: "ok q \<Longrightarrow> ok (put t x q)" and ok_run: "ok q \<Longrightarrow> ok (snd (run_due now q))"
    and pending_put: "pending (put t x q) = add_mset (t, x) (pending q)"
    and pending_run: "mset (fst (run_due now q)) + pending (snd (run_due now q)) = pending q"
    and run_due_only: "ok q \<Longrightarrow> e \<in> set (fst (run_due now q)) \<Longrightarrow> fst e \<le> now"
    and run_all_due: "ok q \<Longrightarrow> e \<in># pending (snd (run_due now q)) \<Longrightarrow> now < fst e"
begin

lemma due_task_runs: "ok q \<Longrightarrow> t \<le> now \<Longrightarrow> (t, x) \<in> set (fst (run_due now (put t x q)))"
proof -
  assume ok: "ok q" and t: "t \<le> now"
  have "(t, x) \<in># mset (fst (run_due now (put t x q))) + pending (snd (run_due now (put t x q)))"
    by (simp add: pending_run pending_put)
  moreover have "(t, x) \<notin># pending (snd (run_due now (put t x q)))"
    using run_all_due[OF ok_put[OF ok]] t by fastforce
  ultimately show ?thesis by simp
qed

lemma future_task_waits: "ok q \<Longrightarrow> now < t \<Longrightarrow> (t, x) \<in># pending (snd (run_due now (put t x q)))"
proof -
  assume ok: "ok q" and t: "now < t"
  have "(t, x) \<in># mset (fst (run_due now (put t x q))) + pending (snd (run_due now (put t x q)))"
    by (simp add: pending_run pending_put)
  moreover have "(t, x) \<notin> set (fst (run_due now (put t x q)))"
    using run_due_only[OF ok_put[OF ok]] t by fastforce
  ultimately show ?thesis by simp
qed

end

lemma ordered_add_task: "ordered tasks \<Longrightarrow> ordered (add_task t x tasks)"
proof (induction tasks)
  case Nil
  then show ?case by (simp add: add_task_def ordered_def)
next
  case (Cons e tasks)
  then have IH: "ordered (add_task t x tasks)" and le: "\<forall>y \<in> set tasks. fst e \<le> fst y"
    by (auto simp: ordered_def)
  show ?case
  proof (cases "fst e \<le> t")
    case True
    have set: "set (add_task t x tasks) = insert (t, x) (set tasks)"
      unfolding add_task_def using takeWhile_dropWhile_id[of "\<lambda>e. fst e \<le> t" tasks]
      by (metis Un_insert_right list.simps(15) set_append)
    from True have "add_task t x (e # tasks) = e # add_task t x tasks"
      by (simp add: add_task_def)
    with IH le True set show ?thesis by (auto simp: ordered_def)
  next
    case False
    with Cons.prems le show ?thesis by (auto simp: add_task_def ordered_def)
  qed
qed

lemma mset_add_task: "mset (add_task t x tasks) = add_mset (t, x) (mset tasks)"
proof -
  have "mset tasks = mset (takeWhile (\<lambda>e. fst e \<le> t) tasks) + mset (dropWhile (\<lambda>e. fst e \<le> t) tasks)"
    by (metis mset_append takeWhile_dropWhile_id)
  then show ?thesis by (simp add: add_task_def)
qed

lemma ordered_dropWhile: "ordered tasks \<Longrightarrow> ordered (dropWhile P tasks)"
  unfolding ordered_def by (metis map_append sorted_append takeWhile_dropWhile_id)

lemma manage_tasks_left:
  assumes "ordered tasks" and "e \<in> set (snd (manage_tasks now tasks))"
  shows "now < fst e"
  using assms
proof (induction tasks)
  case (Cons x tasks)
  then show ?case
    by (cases "fst x \<le> now") (fastforce simp: manage_tasks_def ordered_def)+
qed (simp add: manage_tasks_def)

interpretation sched: timed_tasks add_task manage_tasks mset ordered
proof
  show "mset (fst (manage_tasks now q)) + mset (snd (manage_tasks now q)) = mset q" for now and q :: "'a tasks"
    unfolding manage_tasks_def fst_conv snd_conv by (metis mset_append takeWhile_dropWhile_id)
  show "fst e \<le> now" if "e \<in> set (fst (manage_tasks now q))" for e now and q :: "'a tasks"
    using that by (auto simp: manage_tasks_def dest: set_takeWhileD)
  show "now < fst e" if "ordered q" "e \<in># mset (snd (manage_tasks now q))" for e now and q :: "'a tasks"
    using manage_tasks_left[OF that(1)] that(2) by simp
qed (simp_all add: ordered_add_task mset_add_task ordered_dropWhile manage_tasks_def)

subsection \<open>The threads\<close>

text \<open>Where the timer thread is in \<^verbatim>\<open>timer_loop\<close>. \<open>Pred_checked\<close> is between the evaluation of the predicate
  of \<^verbatim>\<open>cv.wait\<close> and the moment the thread blocks; \<open>To_wait\<close> and \<open>To_wait_until\<close> are before \<^verbatim>\<open>sync_.mtx\<close> is taken.\<close>

datatype timer_pc =
    Loop_head
  | Managing
  | Managed
  | To_wait
  | Pred
  | Pred_checked
  | Blocked
  | To_wait_until int
  | Blocked_until int
  | Exited

text \<open>Where the destructor is: not started, \<^verbatim>\<open>done_\<close> set, thread notified.\<close>

datatype dtor_pc = Alive | Done_set | Notified

text \<open>\<open>adding\<close> says that a scheduling thread is in \<^verbatim>\<open>add_task\<close> behind \<^verbatim>\<open>emplace\<close> and still holds \<^verbatim>\<open>lock_\<close>; \<open>added\<close> and
  \<open>ran\<close> record what was scheduled and what was run, and when.\<close>

record 'a sched =
  tasks :: "'a tasks"
  timer :: timer_pc
  wakeup :: bool
  dtor :: dtor_pc
  adding :: bool
  added :: "(int \<times> 'a) list"
  ran :: "(int \<times> int \<times> 'a) list"

definition sched_init :: "'a sched" where
  "sched_init = \<lparr>tasks = [], timer = Loop_head, wakeup = False, dtor = Alive, adding = False, added = [], ran = []\<rparr>"

definition is_done :: "'a sched \<Rightarrow> bool" where
  "is_done s \<longleftrightarrow> dtor s \<noteq> Alive"

text \<open>\<^verbatim>\<open>notify_one\<close> reaches the thread only when it is blocked.\<close>

definition notify :: "'a sched \<Rightarrow> 'a sched" where
  "notify s = (if timer s = Blocked \<or> (\<exists>t. timer s = Blocked_until t) then s\<lparr>wakeup := True\<rparr> else s)"

text \<open>The timer thread holds \<^verbatim>\<open>sync_.mtx\<close> while it evaluates the predicate and until it blocks.\<close>

definition holds_sync :: "'a sched \<Rightarrow> bool" where
  "holds_sync s \<longleftrightarrow> timer s = Pred \<or> timer s = Pred_checked"

inductive sched_step :: "'a sched \<Rightarrow> 'a sched \<Rightarrow> bool" where
  exit_loop: "timer s = Loop_head \<Longrightarrow> is_done s \<Longrightarrow> sched_step s (s\<lparr>timer := Exited\<rparr>)"
| enter_loop: "timer s = Loop_head \<Longrightarrow> \<not> is_done s \<Longrightarrow> sched_step s (s\<lparr>timer := Managing\<rparr>)"
| manage: "timer s = Managing \<Longrightarrow> \<not> adding s \<Longrightarrow> (due, rest) = manage_tasks now (tasks s) \<Longrightarrow>
    sched_step s (s\<lparr>timer := Managed, tasks := rest, ran := ran s @ map (\<lambda>(t, x). (now, t, x)) due\<rparr>)"
| none_left: "timer s = Managed \<Longrightarrow> tasks s = [] \<Longrightarrow> sched_step s (s\<lparr>timer := To_wait\<rparr>)"
| first_task: "timer s = Managed \<Longrightarrow> tasks s \<noteq> [] \<Longrightarrow> sched_step s (s\<lparr>timer := To_wait_until (fst (hd (tasks s)))\<rparr>)"
| lock_wait: "timer s = To_wait \<Longrightarrow> sched_step s (s\<lparr>timer := Pred\<rparr>)"
| pred_true: "timer s = Pred \<Longrightarrow> is_done s \<or> tasks s \<noteq> [] \<Longrightarrow> sched_step s (s\<lparr>timer := Loop_head, wakeup := False\<rparr>)"
| pred_false: "timer s = Pred \<Longrightarrow> \<not> is_done s \<Longrightarrow> tasks s = [] \<Longrightarrow> sched_step s (s\<lparr>timer := Pred_checked\<rparr>)"
| block: "timer s = Pred_checked \<Longrightarrow> sched_step s (s\<lparr>timer := Blocked, wakeup := False\<rparr>)"
| wake: "timer s = Blocked \<Longrightarrow> wakeup s \<Longrightarrow> sched_step s (s\<lparr>timer := Pred, wakeup := False\<rparr>)"
| spurious: "timer s = Blocked \<Longrightarrow> sched_step s (s\<lparr>timer := Pred, wakeup := False\<rparr>)"
| block_until: "timer s = To_wait_until t \<Longrightarrow> sched_step s (s\<lparr>timer := Blocked_until t, wakeup := False\<rparr>)"
| wake_until: "timer s = Blocked_until t \<Longrightarrow> sched_step s (s\<lparr>timer := Loop_head, wakeup := False\<rparr>)"
| emplace: "dtor s = Alive \<Longrightarrow> \<not> adding s \<Longrightarrow>
    sched_step s (s\<lparr>tasks := add_task time x (tasks s), added := added s @ [(time, x)], adding := True\<rparr>)"
| notify_added: "adding s \<Longrightarrow> sched_step s ((notify s)\<lparr>adding := False\<rparr>)"
| destroy: "dtor s = Alive \<Longrightarrow> \<not> adding s \<Longrightarrow> sched_step s (s\<lparr>dtor := Done_set\<rparr>)"
| destroy_notify: "dtor s = Done_set \<Longrightarrow> \<not> holds_sync s \<Longrightarrow> sched_step s ((notify s)\<lparr>dtor := Notified\<rparr>)"

inductive sched_reach :: "'a sched \<Rightarrow> bool" where
  init: "sched_reach sched_init"
| step: "sched_reach s \<Longrightarrow> sched_step s s' \<Longrightarrow> sched_reach s'"

inductive_cases stepE: "sched_step s s'"

lemma notify_fields [simp]:
  "tasks (notify s) = tasks s" "timer (notify s) = timer s" "dtor (notify s) = dtor s"
  "added (notify s) = added s" "ran (notify s) = ran s" "adding (notify s) = adding s"
  by (simp_all add: notify_def)

subsection \<open>Safety\<close>

definition sched_inv :: "'a sched \<Rightarrow> bool" where
  "sched_inv s \<longleftrightarrow> ordered (tasks s) \<and> (\<forall>(now, t, x) \<in> set (ran s). t \<le> now) \<and>
     mset (added s) = mset (map snd (ran s)) + mset (tasks s)"

lemma sched_inv_step: "sched_step s s' \<Longrightarrow> sched_inv s \<Longrightarrow> sched_inv s'"
proof (induction rule: sched_step.induct)
  case (manage s due rest now)
  then have d: "due = fst (manage_tasks now (tasks s))" "rest = snd (manage_tasks now (tasks s))"
    by (metis fst_conv, metis snd_conv)
  have m: "map snd (map (\<lambda>(t, x). (now, t, x)) due) = due"
    by (induction due) auto
  from manage(4) have ord: "ordered (tasks s)" by (simp add: sched_inv_def)
  have "mset due + mset rest = mset (tasks s)" unfolding d by (rule sched.pending_run)
  with manage(4) have "mset (added s) = mset (map snd (ran s @ map (\<lambda>(t, x). (now, t, x)) due)) + mset rest"
    unfolding map_append m by (simp add: sched_inv_def add.assoc)
  moreover have "\<forall>e \<in> set due. fst e \<le> now"
    unfolding d using sched.run_due_only[OF ord] by blast
  moreover have "ordered rest" unfolding d by (rule sched.ok_run[OF ord])
  ultimately show ?case
    using manage(4) by (auto simp: sched_inv_def)
next
  case (emplace s time x)
  then show ?case by (simp add: sched_inv_def ordered_add_task mset_add_task)
qed (simp_all add: sched_inv_def)

text \<open>C10: in every interleaving of the timer thread, the scheduling threads and the destructor, the queue
  stays ordered, no task runs before its time, and no task is lost or run twice: the tasks added are
  the tasks run and the tasks still queued.\<close>

theorem scheduler_safe:
  assumes "sched_reach s"
  shows "ordered (tasks s) \<and> (\<forall>(now, t, x) \<in> set (ran s). t \<le> now) \<and>
     mset (added s) = mset (map snd (ran s)) + mset (tasks s)"
proof -
  have "sched_inv s"
    using assms by (induction rule: sched_reach.induct) (auto simp: sched_inv_step, simp add: sched_inv_def sched_init_def ordered_def)
  then show ?thesis by (simp add: sched_inv_def)
qed

lemma schedule_reach:
  assumes "sched_reach s" and "dtor s = Alive" and "\<not> adding s"
  shows "sched_reach ((notify (s\<lparr>tasks := add_task t x (tasks s), added := added s @ [(t, x)], adding := True\<rparr>))\<lparr>adding := False\<rparr>)"
  by (rule sched_reach.step[OF sched_reach.step[OF assms(1) sched_step.emplace[OF assms(2,3)]]])
    (rule sched_step.notify_added, simp)

theorem scheduler_safe_witness:
  "sched_reach (sched_init\<lparr>tasks := [(5, ''a'')], added := [(5, ''a'')]\<rparr>) \<and>
   ordered (tasks (sched_init\<lparr>tasks := [(5, ''a'')], added := [(5, ''a'')]\<rparr>))"
proof -
  have "sched_reach (sched_init\<lparr>tasks := [(5, ''a'')], added := [(5, ''a'')]\<rparr>)"
    using schedule_reach[OF sched_reach.init, of 5 "''a''"] by (simp add: notify_def add_task_def sched_init_def)
  with scheduler_safe[OF this] show ?thesis by blast
qed

lemma filter_add_task:
  "ordered q \<Longrightarrow> filter (\<lambda>e. fst e = k) (add_task t x q) = filter (\<lambda>e. fst e = k) q @ (if t = k then [(t, x)] else [])"
proof (induction q)
  case (Cons e q)
  show ?case
  proof (cases "fst e \<le> t")
    case True
    with Cons show ?thesis by (auto simp: add_task_def ordered_def)
  next
    case False
    with Cons.prems have "\<forall>y \<in> set (e # q). fst y \<noteq> t" by (auto simp: ordered_def)
    then have "t = k \<Longrightarrow> filter (\<lambda>e. fst e = k) (e # q) = []" by (auto simp: filter_empty_conv)
    with False show ?thesis by (auto simp: add_task_def)
  qed
qed (simp add: add_task_def)

text \<open>Scheduling is sorting: the queue is the stable sort by time of what was scheduled.\<close>

lemma schedule_sorts:
  assumes "ordered q"
  shows "fold (\<lambda>(t, x). schedule_on t x) xs q = sort_key fst (q @ xs)"
proof (rule properties_for_sort_key[symmetric])
  show "mset (fold (\<lambda>(t, x). schedule_on t x) xs q) = mset (q @ xs)"
    by (induction xs arbitrary: q) (auto simp: schedule_on_def mset_add_task)
  show "sorted (map fst (fold (\<lambda>(t, x). schedule_on t x) xs q))"
    using assms by (induction xs arbitrary: q) (auto simp: schedule_on_def ordered_add_task ordered_def[symmetric])
  show "filter (\<lambda>e. fst k = fst e) (fold (\<lambda>(t, x). schedule_on t x) xs q) = filter (\<lambda>e. fst k = fst e) (q @ xs)" for k
    using assms
    by (induction xs arbitrary: q) (auto simp: schedule_on_def ordered_add_task filter_add_task eq_commute[of "fst k"])
qed

lemma manage_tasks_filter:
  "ordered q \<Longrightarrow> manage_tasks now q = (filter (\<lambda>e. fst e \<le> now) q, filter (\<lambda>e. now < fst e) q)"
proof (induction q)
  case (Cons e q)
  then have "\<forall>y \<in> set q. fst e \<le> fst y" "ordered q" by (auto simp: ordered_def)
  then show ?case
  proof (cases "fst e \<le> now")
    case False
    with \<open>\<forall>y \<in> set q. fst e \<le> fst y\<close> have later: "now < fst y" if "y \<in> set (e # q)" for y using that by fastforce
    have "filter (\<lambda>e. fst e \<le> now) (e # q) = []"
      unfolding filter_empty_conv using later by (metis not_le)
    moreover have "filter (\<lambda>e. now < fst e) (e # q) = e # q"
      unfolding filter_id_conv using later by blast
    ultimately show ?thesis using False by (simp add: manage_tasks_def)
  qed (use Cons.IH \<open>ordered q\<close> in \<open>simp add: manage_tasks_def\<close>)
qed (simp add: manage_tasks_def)

text \<open>C14: what a pass over the queue runs. Whatever was queued and then scheduled, in any order, the pass runs exactly
  the tasks that are due, in the order of their times and, for equal times, in the order in which they
  were scheduled (\<^const>\<open>sort_key\<close> is stable); the other tasks stay queued in that order.\<close>

theorem schedule_fifo:
  assumes "ordered q"
  shows "manage_tasks now (fold (\<lambda>(t, x). schedule_on t x) xs q) =
    (filter (\<lambda>e. fst e \<le> now) (sort_key fst (q @ xs)), filter (\<lambda>e. now < fst e) (sort_key fst (q @ xs)))"
  unfolding schedule_sorts[OF assms] by (rule manage_tasks_filter) (simp add: ordered_def)

theorem schedule_fifo_witness:
  "manage_tasks 4 (fold (\<lambda>(t, x). schedule_on t x) [(9, ''d''), (3, ''b''), (1, ''e'')] [(3, ''a''), (7, ''c'')]) =
     ([(1, ''e''), (3, ''a''), (3, ''b'')], [(7, ''c''), (9, ''d'')])"
  using schedule_fifo[of "[(3, ''a''), (7, ''c'')]" 4 "[(9, ''d''), (3, ''b''), (1, ''e'')]"]
  by (simp add: ordered_def)

subsection \<open>Waking the timer thread\<close>

text \<open>The steps the timer thread still makes once the destructor has notified it.\<close>

fun shutdown_rank :: "timer_pc \<Rightarrow> nat" where
  "shutdown_rank Exited = 0"
| "shutdown_rank Loop_head = 1"
| "shutdown_rank Pred = 2"
| "shutdown_rank (Blocked_until t) = 2"
| "shutdown_rank Blocked = 3"
| "shutdown_rank (To_wait_until t) = 3"
| "shutdown_rank To_wait = 3"
| "shutdown_rank Managed = 4"
| "shutdown_rank Pred_checked = 4"
| "shutdown_rank Managing = 5"

definition shutdown_inv :: "'a sched \<Rightarrow> bool" where
  "shutdown_inv s \<longleftrightarrow> (dtor s \<noteq> Alive \<longrightarrow> \<not> adding s) \<and>
     (dtor s = Notified \<longrightarrow> timer s \<noteq> Pred_checked \<and> (timer s = Blocked \<longrightarrow> wakeup s))"

lemma shutdown_inv_step: "sched_step s s' \<Longrightarrow> shutdown_inv s \<Longrightarrow> shutdown_inv s'"
  by (induction rule: sched_step.induct) (auto simp: shutdown_inv_def is_done_def holds_sync_def notify_def)

lemma shutdown_inv_reach: "sched_reach s \<Longrightarrow> shutdown_inv s"
  by (induction rule: sched_reach.induct) (simp add: shutdown_inv_def sched_init_def, rule shutdown_inv_step)

lemma shutdown_step:
  "sched_step s s' \<Longrightarrow> shutdown_inv s \<Longrightarrow> dtor s = Notified \<Longrightarrow>
     dtor s' = Notified \<and> shutdown_rank (timer s') < shutdown_rank (timer s)"
  by (induction rule: sched_step.induct) (auto simp: shutdown_inv_def is_done_def)

lemma shutdown_steps:
  "(sched_step ^^ n) s s' \<Longrightarrow> shutdown_inv s \<Longrightarrow> dtor s = Notified \<Longrightarrow>
     shutdown_inv s' \<and> dtor s' = Notified \<and> n + shutdown_rank (timer s') \<le> shutdown_rank (timer s)"
proof (induction n arbitrary: s')
  case (Suc n)
  then obtain u where u: "(sched_step ^^ n) s u" "sched_step u s'" by auto
  with Suc have "shutdown_inv u" "dtor u = Notified" "n + shutdown_rank (timer u) \<le> shutdown_rank (timer s)" by blast+
  with shutdown_inv_step[OF u(2)] shutdown_step[OF u(2)] show ?case by fastforce
qed simp

lemma shutdown_progress:
  assumes "shutdown_inv s" and "dtor s = Notified"
  shows "(\<nexists>s'. sched_step s s') \<longleftrightarrow> timer s = Exited"
proof
  assume "timer s = Exited"
  with assms show "\<nexists>s'. sched_step s s'" by (auto simp: shutdown_inv_def elim!: stepE)
next
  assume stuck: "\<nexists>s'. sched_step s s'"
  have d: "is_done s" "\<not> adding s" using assms by (simp_all add: is_done_def shutdown_inv_def)
  obtain due rest where m: "(due, rest) = manage_tasks 0 (tasks s)" by (metis prod.exhaust)
  from stuck show "timer s = Exited"
    using exit_loop[OF _ d(1)] manage[OF _ d(2) m] none_left first_task lock_wait pred_true[OF _ disjI1[OF d(1)]] block
      spurious block_until wake_until
    by (cases "timer s") blast+
qed

text \<open>C26: shutting down. Once the destructor has notified the timer thread, at most five steps follow in any
  execution, and an execution can stop only where the thread has left its loop: the \<^verbatim>\<open>join\<close> of the destructor
  returns. The thread is never left in a wait without a deadline: there a wake-up is pending (the
  destructor takes \<^verbatim>\<open>sync_.mtx\<close>, so its notification cannot fall between the test of the predicate and the
  wait). A wait with a deadline, which the notification may miss, ends by its deadline.\<close>

theorem scheduler_shutdown:
  assumes "sched_reach s" and "dtor s = Notified" and "(sched_step ^^ n) s s'"
  shows "n \<le> 5 \<and> (timer s' = Blocked \<longrightarrow> wakeup s') \<and> ((\<nexists>s''. sched_step s' s'') \<longleftrightarrow> timer s' = Exited)"
proof -
  have inv: "shutdown_inv s" using assms(1) by (rule shutdown_inv_reach)
  from shutdown_steps[OF assms(3) inv assms(2)]
  have s': "shutdown_inv s'" "dtor s' = Notified" "n \<le> shutdown_rank (timer s)" by simp_all
  have "shutdown_rank (timer s) \<le> 5" by (cases "timer s") simp_all
  with s' shutdown_progress[OF s'(1,2)] show ?thesis by (simp add: shutdown_inv_def)
qed

text \<open>The thread of an idle scheduler, one step after the other up to the point before it blocks.\<close>

definition idle_at :: "timer_pc \<Rightarrow> 'a sched" where
  "idle_at pc = sched_init\<lparr>timer := pc\<rparr>"

lemma idle_reach: "sched_reach (idle_at Pred_checked)"
proof -
  note defs = idle_at_def sched_init_def is_done_def manage_tasks_def
  have 1: "sched_reach (idle_at Managing)"
    by (rule sched_reach.step[OF sched_reach.init]) (use sched_step.enter_loop[of sched_init] in \<open>simp add: defs\<close>)
  have 2: "sched_reach (idle_at Managed)"
    by (rule sched_reach.step[OF 1]) (use sched_step.manage[of "idle_at Managing" "[]" "[]" 0] in \<open>simp add: defs\<close>)
  have 3: "sched_reach (idle_at To_wait)"
    by (rule sched_reach.step[OF 2]) (use sched_step.none_left[of "idle_at Managed"] in \<open>simp add: defs\<close>)
  have 4: "sched_reach (idle_at Pred)"
    by (rule sched_reach.step[OF 3]) (use sched_step.lock_wait[of "idle_at To_wait"] in \<open>simp add: defs\<close>)
  show ?thesis
    by (rule sched_reach.step[OF 4]) (use sched_step.pred_false[of "idle_at Pred"] in \<open>simp add: defs\<close>)
qed


theorem scheduler_shutdown_witness:
  "\<exists>s s' :: string sched. sched_reach s \<and> dtor s = Notified \<and> timer s = Blocked \<and> wakeup s \<and>
     (sched_step ^^ 3) s s' \<and> timer s' = Exited \<and> (\<nexists>s''. sched_step s' s'')"
proof -
  let ?b = "idle_at Blocked :: string sched"
  have 1: "sched_reach ?b"
    by (rule sched_reach.step[OF idle_reach])
      (use sched_step.block[of "idle_at Pred_checked :: string sched"] in \<open>simp add: idle_at_def sched_init_def\<close>)
  have 2: "sched_reach (?b\<lparr>dtor := Done_set\<rparr>)"
    by (rule sched_reach.step[OF 1]) (rule sched_step.destroy, simp_all add: idle_at_def sched_init_def)
  let ?s = "(notify (?b\<lparr>dtor := Done_set\<rparr>))\<lparr>dtor := Notified\<rparr>"
  have 3: "sched_reach ?s"
    by (rule sched_reach.step[OF 2], rule sched_step.destroy_notify) (simp_all add: idle_at_def holds_sync_def)
  have s: "dtor ?s = Notified" "timer ?s = Blocked" "wakeup ?s" by (simp_all add: idle_at_def notify_def)
  let ?p = "?s\<lparr>timer := Pred, wakeup := False\<rparr>"
  let ?h = "?p\<lparr>timer := Loop_head, wakeup := False\<rparr>"
  have "sched_step ?s ?p" "sched_step ?p ?h" "sched_step ?h (?h\<lparr>timer := Exited\<rparr>)"
    by (rule sched_step.wake sched_step.pred_true sched_step.exit_loop; simp add: s is_done_def)+
  then have steps: "(sched_step ^^ 3) ?s (?h\<lparr>timer := Exited\<rparr>)"
    by (auto simp: numeral_3_eq_3 intro!: relcomppI)
  have "\<nexists>s''. sched_step (?h\<lparr>timer := Exited\<rparr>) s''"
    using scheduler_shutdown[OF 3 s(1) steps] by simp
  with 3 s steps show ?thesis by (intro exI[of _ ?s] exI[of _ "?h\<lparr>timer := Exited\<rparr>"]) simp
qed

end
