(* ===== verification/SrtGroup.thy ===== *)
theory SrtGroup
  imports SrtSocket
begin

text \<open>
  The class \<^verbatim>\<open>socket::srt_group\<close> (\<^verbatim>\<open>srt_socket_group.hpp\<close>, \<^verbatim>\<open>srt_socket_group.cpp\<close>): validation of the
  member URIs, creation of the listeners or of the calling group, accept and connect, the callbacks
  the library invokes, input and output, and the destructor.
\<close>

record srt_group =
  g_bind_socket :: int
  g_listeners :: "int list"
  g_targets :: "groupconfig list"
  g_epoll_connect :: int
  g_epoll_io :: int
  g_mode :: conn_mode
  g_blocking_mode :: bool
  g_host :: string
  g_port :: int
  g_opts_link :: "cmap list"

definition srt_group0 :: srt_group where
  "srt_group0 = \<lparr>g_bind_socket = SRT_INVALID_SOCK, g_listeners = [], g_targets = [], g_epoll_connect = -1,
     g_epoll_io = -1, g_mode = FAILURE, g_blocking_mode = True, g_host = '''', g_port = -1, g_opts_link = []\<rparr>"

definition LOG_SRT_GROUP :: string where "LOG_SRT_GROUP = ''SOCKET::SRT_GROUP ''"

subsection \<open>Validation of the members\<close>

definition detect_srt_mode :: "uri \<Rightarrow> conn_mode" where
  "detect_srt_mode u =
     (let options = parameters u;
          modestr = (case cmap_get options ''mode'' of None \<Rightarrow> ''default'' | Some m \<Rightarrow> m);
          adapter = (case cmap_get options ''adapter'' of None \<Rightarrow> '''' | Some a \<Rightarrow> a)
      in SrtInterpretMode modestr (m_host u) adapter)"

definition detect_group_type :: "cmap \<Rightarrow> cpp_exn + int" where
  "detect_group_type opts =
     (case cmap_get opts ''grouptype'' of
        None \<Rightarrow> Inr SRT_GTYPE_BROADCAST
      | Some gmode \<Rightarrow>
          if gmode = ''broadcast'' then Inr SRT_GTYPE_BROADCAST
          else if gmode = ''backup'' then Inr SRT_GTYPE_BACKUP
          else Inl (Socket_exception (LOG_SRT_GROUP @ '': Failed to detect group mode. Value provided: '' @ gmode)))"

definition detect_link_weight :: "uri \<Rightarrow> cpp_exn + int" where
  "detect_link_weight u =
     (case cmap_get (parameters u) ''weight'' of
        None \<Rightarrow> Inr 0
      | Some weight_str \<Rightarrow>
          (case stoi weight_str of
             Inl (Invalid_argument _) \<Rightarrow> Inl (Socket_exception (LOG_SRT_GROUP @ '': Bad input. weight='' @ weight_str))
           | Inl (Std_out_of_range _) \<Rightarrow> Inl (Socket_exception (LOG_SRT_GROUP @ '': Integer overflow. weight='' @ weight_str))
           | Inl e \<Rightarrow> Inl e
           | Inr weight \<Rightarrow>
               if weight < 0 \<or> weight > 32767
               then Inl (Socket_exception (LOG_SRT_GROUP @
                      '': Wrong link weight provided. The allowed value is between 0 and 32767.''))
               else Inr weight))"

text \<open>The loop of \<^verbatim>\<open>validate_srt_group\<close>; \<open>prev_mode\<close> is the mode of the members seen so far.\<close>

fun validate_from :: "conn_mode \<Rightarrow> uri list \<Rightarrow> conn_mode" where
  "validate_from prev_mode [] = prev_mode"
| "validate_from prev_mode (url # urls) =
     (if m_uriType url \<noteq> SRT then FAILURE
      else
        let mode = detect_srt_mode url in
        if mode = FAILURE then FAILURE
        else if prev_mode \<noteq> FAILURE \<and> mode \<noteq> prev_mode then FAILURE
        else validate_from mode urls)"

definition validate_srt_group :: "uri list \<Rightarrow> conn_mode" where
  "validate_srt_group urls = validate_from FAILURE urls"

definition lift_exn :: "cpp_exn + 'a \<Rightarrow> 'a sprog" where
  "lift_exn x = (case x of Inl e \<Rightarrow> Exc e | Inr a \<Rightarrow> Ret a)"

subsection \<open>Configuration\<close>

definition configure_link :: "build_flags \<Rightarrow> int \<Rightarrow> srt_group \<Rightarrow> nat \<Rightarrow> int sprog" where
  "configure_link fl sock self li =
     bindP (SrtConfigurePre fl sock (g_host self) (g_opts_link self ! li)) (\<lambda>(conmode, failures).
       Ret (if conmode = FAILURE then SRT_ERROR else SRT_SUCCESS))"

definition group_configure_pre :: "build_flags \<Rightarrow> int \<Rightarrow> nat \<Rightarrow> srt_group \<Rightarrow> int sprog" where
  "group_configure_pre fl sock link_index self =
     (if \<not> link_index < length (g_opts_link self) then Exc (Undefined ''assert'')
      else bindP (srt (Srt_setsockopt sock SRTO_RCVSYN (OV_int (if g_blocking_mode self then 1 else 0)))) (\<lambda>r.
        if r_int r = -1 then Ret (r_int r)
        else bindP (configure_link fl sock self 0) (\<lambda>res.
          if res \<noteq> SRT_SUCCESS then Ret SRT_ERROR
          else if link_index \<noteq> 0 then configure_link fl sock self link_index
          else Ret SRT_SUCCESS)))"

definition group_configure_post :: "build_flags \<Rightarrow> int \<Rightarrow> nat \<Rightarrow> srt_group \<Rightarrow> int sprog" where
  "group_configure_post fl sock link_index self =
     (if \<not> link_index < length (g_opts_link self) then Exc (Undefined ''assert'')
      else
        let is_blocking = (if g_blocking_mode self then 1 else 0) in
        bindP (srt (Srt_setsockopt sock SRTO_SNDSYN (OV_int is_blocking))) (\<lambda>r.
        if r_int r = -1 then Ret (r_int r)
        else bindP (srt (Srt_setsockopt sock SRTO_RCVSYN (OV_int is_blocking))) (\<lambda>r.
        if r_int r = -1 then Ret (r_int r)
        else bindP (SrtConfigurePost fl sock (g_opts_link self ! link_index)) (\<lambda>failures. Ret 0))))"

subsection \<open>Creating listeners and callers\<close>

text \<open>One turn of the loop of \<^verbatim>\<open>create_listeners\<close>, for the URI at index \<open>i\<close>.\<close>

definition create_listener :: "build_flags \<Rightarrow> nat \<times> uri \<Rightarrow> srt_group \<Rightarrow> srt_group sprog" where
  "create_listener fl iu self =
     (let i = fst iu; url = snd iu in
      bindP (create_addr (m_host url) (portno url)) (\<lambda>sa.
      bindP (srt Srt_create_socket) (\<lambda>r.
      let s = r_int r in
      if s = SRT_INVALID_SOCK then throw_lasterror
      else bindP (srt (Srt_setsockopt s SRTO_GROUPCONNECT (OV_int 1))) (\<lambda>r.
      if SRT_SUCCESS \<noteq> r_int r then throw_lasterror
      else bindP (group_configure_pre fl s i self) (\<lambda>res.
      if SRT_SUCCESS \<noteq> res then throw_lasterror
      else bindP (srt (Srt_bind s (storage sa) (addr_size sa))) (\<lambda>r.
      if SRT_SUCCESS \<noteq> r_int r then throw_lasterror
      else bindP (if \<not> g_blocking_mode self then
                    bindP (srt (Srt_epoll_add_usock (g_epoll_connect self) s (SRT_EPOLL_IN + SRT_EPOLL_ERR))) (\<lambda>r.
                    if SRT_ERROR = r_int r then throw_lasterror
                    else bindP (srt (Srt_epoll_add_usock (g_epoll_io self) s
                                       (SRT_EPOLL_IN + SRT_EPOLL_OUT + SRT_EPOLL_ERR))) (\<lambda>r.
                    if SRT_ERROR = r_int r then throw_lasterror else Ret ()))
                  else Ret ()) (\<lambda>_.
      Ret (self\<lparr>g_listeners := g_listeners self @ [s]\<rparr>))))))))"

definition create_listeners :: "build_flags \<Rightarrow> uri list \<Rightarrow> srt_group \<Rightarrow> srt_group sprog" where
  "create_listeners fl uris self = foldP (create_listener fl) (zip [0..<length uris] uris) self"

text \<open>The lambda \<^verbatim>\<open>try_bind\<close>: the address to bind a member to; an unspecified one when there is none.\<close>

definition try_bind :: "uri \<Rightarrow> netaddr_any \<Rightarrow> netaddr_any sprog" where
  "try_bind u sa =
     (case cmap_get (parameters u) ''bind'' of
        None \<Rightarrow> Ret (netaddr_new AF_UNSPEC)
      | Some value \<Rightarrow>
          let bindipport = tolower value in
          (case find_char (CHR '':'') bindipport 0 of
             None \<Rightarrow> Ret (netaddr_new AF_UNSPEC)
           | Some idx \<Rightarrow>
               bindP (lift_exn (stoi (substr bindipport (idx + 1) (length bindipport - (idx + 1))))) (\<lambda>bindport.
               catchP (create_addr_family (substr bindipport 0 idx) bindport (sa_family sa))
                 (\<lambda>e. case e of Invalid_argument _ \<Rightarrow> Ret (netaddr_new AF_UNSPEC) | _ \<Rightarrow> Exc e))))"

definition create_target :: "uri \<Rightarrow> srt_group \<Rightarrow> srt_group sprog" where
  "create_target u self =
     bindP (create_addr_or (raise_exception_reason ''connect::create_addr'') (m_host u) (portno u)) (\<lambda>sa.
     bindP (try_bind u sa) (\<lambda>bindsa.
     bindP (srt (Srt_prepare_endpoint (if addr_empty bindsa then None else Some (storage bindsa)) (storage sa) (addr_size sa)))
       (\<lambda>r.
     bindP (lift_exn (detect_link_weight u)) (\<lambda>weight.
     Ret (self\<lparr>g_targets := g_targets self @ [(r_gconf r)\<lparr>gc_weight := weight\<rparr>]\<rparr>)))))"

text \<open>The end of \<^verbatim>\<open>create_callers\<close>: subscribe the group to the epolls and set the callback.\<close>

definition subscribe_callers :: "srt_group \<Rightarrow> srt_group sprog" where
  "subscribe_callers self =
     bindP (if \<not> g_blocking_mode self then
              bindP (srt (Srt_epoll_add_usock (g_epoll_connect self) (g_bind_socket self) (SRT_EPOLL_OUT + SRT_EPOLL_ERR))) (\<lambda>r.
              if SRT_ERROR = r_int r then throw_lasterror
              else bindP (srt (Srt_epoll_add_usock (g_epoll_io self) (g_bind_socket self)
                                 (SRT_EPOLL_IN + SRT_EPOLL_OUT + SRT_EPOLL_ERR))) (\<lambda>r.
              if SRT_ERROR = r_int r then throw_lasterror else Ret ()))
            else Ret ()) (\<lambda>_.
     bindP (srt (Srt_connect_callback (g_bind_socket self))) (\<lambda>_. Ret self))"

definition create_callers :: "build_flags \<Rightarrow> uri list \<Rightarrow> int \<Rightarrow> srt_group \<Rightarrow> srt_group sprog" where
  "create_callers fl uris gtype self =
     bindP (srt (Srt_create_group gtype)) (\<lambda>r.
     let self = self\<lparr>g_bind_socket := r_int r\<rparr> in
     bindP (if g_bind_socket self = SRT_INVALID_SOCK then raise_exception ''srt_create_group'' else Ret ()) (\<lambda>_.
     bindP (group_configure_pre fl (g_bind_socket self) 0 self) (\<lambda>res.
     if SRT_SUCCESS \<noteq> res then throw_lasterror
     else bindP (group_configure_post fl (g_bind_socket self) 0 self) (\<lambda>res.
     if SRT_SUCCESS \<noteq> res then throw_lasterror
     else bindP (foldP create_target uris self) (\<lambda>self.
     subscribe_callers self)))))"

subsection \<open>Constructors and destructor\<close>

definition group_take_blocking :: "srt_group \<Rightarrow> srt_group" where
  "group_take_blocking self =
     (let m = hd (g_opts_link self) in
      case cmap_get m ''blocking'' of
        Some v \<Rightarrow> self\<lparr>g_blocking_mode := (v \<notin> false_names),
                       g_opts_link := (g_opts_link self)[0 := cmap_erase ''blocking'' m]\<rparr>
      | None \<Rightarrow> self)"

definition group_setup_epolls :: "srt_group \<Rightarrow> srt_group sprog" where
  "group_setup_epolls self =
     (if \<not> g_blocking_mode self then
        bindP (srt Srt_epoll_create) (\<lambda>ec.
        let self = self\<lparr>g_epoll_connect := r_int ec\<rparr> in
        if g_epoll_connect self = -1 then throw_lasterror
        else bindP (srt Srt_epoll_create) (\<lambda>ei.
          let self = self\<lparr>g_epoll_io := r_int ei\<rparr> in
          if g_epoll_io self = -1 then throw_lasterror else Ret self))
      else Ret self)"

definition group_ctor :: "build_flags \<Rightarrow> uri list \<Rightarrow> srt_group sprog" where
  "group_ctor fl uris =
     (let self = srt_group0\<lparr>g_mode := validate_srt_group uris\<rparr> in
      if g_mode self = FAILURE then throw_socket ''Group mode validation failed!''
      else if g_mode self = RENDEZVOUS then throw_socket ''Rendezvous mode is not supported by socket groups!''
      else
        bindP (foldP (\<lambda>u self.
                 bindP (assert_options_valid fl (parameters u) [''bind'', ''mode'', ''weight'', ''grouptype'', ''blocking''])
                   (\<lambda>_. Ret (self\<lparr>g_opts_link := g_opts_link self @ [parameters u]\<rparr>))) uris self) (\<lambda>self.
        bindP (lift_exn (detect_group_type (hd (g_opts_link self)))) (\<lambda>gtype.
        bindP (group_setup_epolls (group_take_blocking self)) (\<lambda>self.
        if g_mode self = LISTENER then create_listeners fl uris self
        else create_callers fl uris gtype self))))"

definition group_of_accepted :: "srt_group \<Rightarrow> int \<Rightarrow> srt_group sprog" where
  "group_of_accepted grp group_id =
     (let self = srt_group0\<lparr>g_bind_socket := group_id, g_mode := g_mode grp, g_blocking_mode := g_blocking_mode grp\<rparr> in
      if \<not> g_blocking_mode self then
        bindP (srt Srt_epoll_create) (\<lambda>ei.
        let self = self\<lparr>g_epoll_io := r_int ei\<rparr> in
        if g_epoll_io self = -1 then throw_lasterror
        else bindP (srt (Srt_epoll_add_usock (g_epoll_io self) (g_bind_socket self)
                           (SRT_EPOLL_IN + SRT_EPOLL_OUT + SRT_EPOLL_ERR))) (\<lambda>r.
          if SRT_ERROR = r_int r then throw_lasterror else Ret self))
      else Ret self)"

definition release_targets :: "srt_group \<Rightarrow> srt_group sprog" where
  "release_targets self =
     bindP (forP (\<lambda>gd. bindP (srt (Srt_delete_config (gc_config gd))) (\<lambda>_. Ret ())) (g_targets self)) (\<lambda>_.
     Ret (self\<lparr>g_targets := []\<rparr>))"

definition release_listeners :: "srt_group \<Rightarrow> srt_group sprog" where
  "release_listeners self =
     bindP (forP (\<lambda>sock. bindP (srt (Srt_close sock)) (\<lambda>_. Ret ())) (g_listeners self)) (\<lambda>_.
     Ret (self\<lparr>g_listeners := []\<rparr>))"

definition group_dtor :: "srt_group \<Rightarrow> unit sprog" where
  "group_dtor self =
     bindP (if \<not> g_blocking_mode self then
              bindP (if g_epoll_connect self \<noteq> -1
                     then bindP (srt (Srt_epoll_release (g_epoll_connect self))) (\<lambda>_. Ret ()) else Ret ()) (\<lambda>_.
              if g_epoll_io self \<noteq> -1 then bindP (srt (Srt_epoll_release (g_epoll_io self))) (\<lambda>_. Ret ()) else Ret ())
            else Ret ()) (\<lambda>_.
     bindP (release_targets self) (\<lambda>self.
     bindP (release_listeners self) (\<lambda>self.
     bindP (srt (Srt_close (g_bind_socket self))) (\<lambda>_. Ret ()))))"

subsection \<open>Connecting\<close>

definition set_listen_callback :: "srt_group \<Rightarrow> unit sprog" where
  "set_listen_callback self =
     forP (\<lambda>sockid. bindP (srt (Srt_listen_callback sockid)) (\<lambda>r.
       if r_int r = SRT_ERROR
       then bindP (srt Srt_getlasterror_str) (\<lambda>m. raise_exception_reason ''listen failed with {}'' (r_str m))
       else Ret ())) (g_listeners self)"

definition group_listen :: "srt_group \<Rightarrow> unit sprog" where
  "group_listen self =
     bindP (set_listen_callback self) (\<lambda>_.
     forP (\<lambda>sockid. bindP (srt (Srt_listen sockid 5)) (\<lambda>r.
       if r_int r = SRT_ERROR
       then bindP (srt Srt_getlasterror_str) (\<lambda>m. raise_exception_reason ''listen failed with {}'' (r_str m))
       else Ret ())) (g_listeners self))"

text \<open>The handle that \<^verbatim>\<open>accept\<close> obtains: from the first ready listener in non-blocking mode.\<close>

definition accept_sock :: "srt_group \<Rightarrow> int sprog" where
  "accept_sock self =
     (if \<not> g_blocking_mode self then
        bindP (srt (Srt_epoll_wait (g_epoll_connect self) True False (-1))) (\<lambda>r.
        if r_int r = SRT_ERROR then raise_exception ''accept::epoll_wait''
        else (case r_fds r of
                [] \<Rightarrow> Exc (Undefined ''ready[0]'')
              | lstnr_sock # _ \<Rightarrow>
                  bindP (srt (Srt_accept lstnr_sock)) (\<lambda>r.
                  if r_int r = SRT_INVALID_SOCK then raise_exception ''accept'' else Ret (r_int r))))
      else
        bindP (srt (Srt_accept_bond (g_listeners self) (-1))) (\<lambda>r.
        if r_int r = SRT_INVALID_SOCK
        then bindP (srt Srt_getlasterror_str) (\<lambda>m. raise_exception_reason ''accept_bond failed with {}'' (r_str m))
        else Ret (r_int r)))"

definition group_accept :: "build_flags \<Rightarrow> srt_group \<Rightarrow> srt_group sprog" where
  "group_accept fl self =
     bindP (accept_sock self) (\<lambda>accepted_sock.
     bindP (print_negotiated_config fl accepted_sock) (\<lambda>_.
     bindP (group_configure_post fl accepted_sock 0 self) (\<lambda>res.
     if res = SRT_ERROR then raise_exception ''accept::configure_post''
     else group_of_accepted self accepted_sock)))"

definition group_connect :: "build_flags \<Rightarrow> srt_group \<Rightarrow> srt_group sprog" where
  "group_connect fl self =
     bindP (srt (Srt_connect_group (g_bind_socket self) (g_targets self))) (\<lambda>r.
     if r_int r = SRT_ERROR then raise_exception ''srt_group::connect''
     else bindP (print_negotiated_config fl (g_bind_socket self)) (\<lambda>_. Ret self))"

subsection \<open>Callbacks\<close>

text \<open>A callback hands work to the scheduler of the group: the delay in microseconds and the task.\<close>

datatype group_task = Print_member_socket int | Reconnect int groupconfig

text \<open>\<^verbatim>\<open>print_member_socket\<close>: the group type and the weight it reports.\<close>

fun member_weight :: "int \<Rightarrow> groupdata list \<Rightarrow> int" where
  "member_weight sock [] = -1"
| "member_weight sock (gd # gds) = (if gd_id gd \<noteq> sock then member_weight sock gds else gd_weight gd)"

definition print_member_socket :: "int \<Rightarrow> (string \<times> int) sprog" where
  "print_member_socket sock =
     bindP (srt (Srt_getsockflag sock SRTO_GROUPTYPE)) (\<lambda>r.
     let gtype = r_int2 r in
     bindP (if r_int r = SRT_SUCCESS \<and> gtype = SRT_GTYPE_BACKUP then
              bindP (srt (Srt_groupof sock)) (\<lambda>g.
              bindP (srt (Srt_group_data (r_int g) (Some 3))) (\<lambda>d.
              if r_int d > 3 then Exc (Undefined ''gdata[i]'')
              else Ret (member_weight sock (take (nat (r_int d)) (r_gdata d)))))
            else Ret (-1)) (\<lambda>weight.
     let gtype = (if gtype < 0 then 0 else if gtype > 3 then 0 else gtype) in
     Ret ([''NO GROUP'', ''BROADCAST'', ''BACKUP'', ''BALANCING''] ! nat gtype, weight)))"

definition on_listen_callback :: "int \<Rightarrow> (int \<times> group_task) list \<times> int" where
  "on_listen_callback sock = ([(20, Print_member_socket sock)], 0)"

text \<open>\<^verbatim>\<open>listen_callback_fn\<close>; the null pointer is \<open>None\<close>. The addresses are only printed.\<close>

definition listen_callback_fn :: "srt_group option \<Rightarrow> int \<Rightarrow> ((int \<times> group_task) list \<times> int) sprog" where
  "listen_callback_fn opaq sock =
     (case opaq of
        None \<Rightarrow> Ret ([], 0)
      | Some grp \<Rightarrow> bindP (srt (Srt_getsockname sock)) (\<lambda>_. Ret (on_listen_callback sock)))"

text \<open>\<^verbatim>\<open>on_connect_callback\<close> keeps the address of the loop variable, a copy that no longer exists when the
  member is used after the loop.\<close>

definition on_connect_callback :: "srt_group \<Rightarrow> int \<Rightarrow> int \<Rightarrow> (int \<times> group_task) list sprog" where
  "on_connect_callback self error token =
     (if error = SRT_SUCCESS then Ret []
      else case find (\<lambda>target. gc_token target = token) (g_targets self) of
        Some member \<Rightarrow> Exc (Undefined ''*member'')
      | None \<Rightarrow> Ret [])"

definition connect_callback_fn :: "srt_group option \<Rightarrow> int \<Rightarrow> int \<Rightarrow> (int \<times> group_task) list sprog" where
  "connect_callback_fn opaq error token =
     (case opaq of None \<Rightarrow> Ret [] | Some grp \<Rightarrow> on_connect_callback grp error token)"

text \<open>What a scheduled task does when its time has come.\<close>

definition run_group_task :: "group_task \<Rightarrow> unit sprog" where
  "run_group_task t =
     (case t of
        Print_member_socket sock \<Rightarrow> bindP (print_member_socket sock) (\<lambda>_. Ret ())
      | Reconnect grp target \<Rightarrow> bindP (srt (Srt_connect_group grp [target])) (\<lambda>_. Ret ()))"

subsection \<open>Input and output\<close>

definition group_read :: "srt_group \<Rightarrow> nat \<Rightarrow> int \<Rightarrow> (nat \<times> bytes) sprog" where
  "group_read self n timeout_ms =
     (let recv = bindP (srt (Srt_recvmsg2 (g_bind_socket self) n)) (\<lambda>res.
            if r_int res = SRT_ERROR then
              bindP (srt Srt_getlasterror) (\<lambda>err.
                if r_int err \<noteq> SRT_EASYNCRCV then raise_exception ''read::recv'' else Ret (0, []))
            else Ret (nat (r_int res), r_bytes res))
      in if \<not> g_blocking_mode self then
           bindP (srt (Srt_epoll_wait (g_epoll_io self) True False timeout_ms)) (\<lambda>r.
             if r_int r = SRT_ERROR then
               bindP (srt Srt_getlasterror) (\<lambda>err.
                 if r_int err = SRT_ETIMEOUT then Ret (0, []) else raise_exception ''read::epoll'')
             else recv)
         else recv)"

definition group_write :: "srt_group \<Rightarrow> bytes \<Rightarrow> int \<Rightarrow> int sprog" where
  "group_write self buffer timeout_ms =
     bindP (if \<not> g_blocking_mode self then
              bindP (srt (Srt_epoll_wait (g_epoll_io self) True True timeout_ms)) (\<lambda>r.
                if r_int r = SRT_ERROR then raise_exception ''write::epoll'' else Ret ())
            else Ret ()) (\<lambda>_.
     bindP (srt (Srt_sendmsg2 (g_bind_socket self) buffer)) (\<lambda>res.
     if r_int res = SRT_ERROR then
       bindP (srt Srt_getlasterror) (\<lambda>err.
         if r_int err = SRT_EASYNCSND then Ret 0
         else bindP (srt Srt_getlasterror_str) (\<lambda>m. raise_exception_reason ''socket::write::send'' (r_str m)))
     else Ret (r_int res)))"

subsection \<open>The contract of \<^verbatim>\<open>isocket\<close> holds\<close>

text \<open>Reading from a group is reading from a socket with the same handle, epoll and mode.\<close>

definition as_sock :: "srt_group \<Rightarrow> srt_sock" where
  "as_sock self = srt_sock0\<lparr>ss_bind_socket := g_bind_socket self, ss_epoll_io := g_epoll_io self,
     ss_blocking_mode := g_blocking_mode self\<rparr>"

lemma as_sock_simps [simp]:
  "ss_bind_socket (as_sock self) = g_bind_socket self" "ss_epoll_io (as_sock self) = g_epoll_io self"
  "ss_blocking_mode (as_sock self) = g_blocking_mode self"
  by (simp_all add: as_sock_def)

lemma group_read_as_sock: "group_read self n t = srt_read (as_sock self) n t"
  unfolding group_read_def srt_read_def as_sock_simps by (rule refl)

lemma runs_group_write:
  assumes "runs (group_write self m t) tr out"
  shows "in_messages tr = [] \<and> recv_contract tr \<and>
    (case out of
         Ok k \<Rightarrow> out_messages tr = [m] \<and> refused_sends tr = 0 \<or> k = 0 \<and> out_messages tr = [] \<and> refused_sends tr = 1
       | Raised e \<Rightarrow> is_socket_exn e \<and> out_messages tr = [] \<and> refused_sends tr \<le> 1
       | Fuel_out \<Rightarrow> False)"
  using assms
  by (auto simp: group_write_def runs_call_simps message_defs is_socket_exn_def recv_contract_def recv_ok_def
      simp del: runs.simps(4) split: if_splits)

definition group_end :: "srt_group \<Rightarrow> endpoint" where
  "group_end self = Srt_end (g_bind_socket self)"

interpretation srt_grp: isocket group_read group_write group_end
proof
  fix s n t tr and out :: "(nat \<times> bytes) outcome"
  assume "runs (group_read s n t) tr out"
  then have run: "runs (srt_read (as_sock s) n t) tr out" by (simp add: group_read_as_sock)
  show "out_messages tr = [] \<and> refused_sends tr = 0" by (rule srt_sock.rd_sends_nothing[OF run])
  assume "recv_contract tr"
  from srt_sock.rd_result[OF run this]
  show "case out of
         Ok (k, bs) \<Rightarrow> k = length bs \<and> k \<le> n \<and> in_messages tr = nonempty bs
       | Raised e \<Rightarrow> is_socket_exn e \<and> in_messages tr = []
       | Fuel_out \<Rightarrow> False" .
next
  fix s m t tr and out :: "int outcome"
  assume "runs (group_write s m t) tr out"
  from runs_group_write[OF this]
  show "case out of
         Ok k \<Rightarrow> out_messages tr = [m] \<and> refused_sends tr = 0 \<or> k = 0 \<and> out_messages tr = [] \<and> refused_sends tr = 1
       | Raised e \<Rightarrow> is_socket_exn e \<and> out_messages tr = [] \<and> refused_sends tr \<le> 1
       | Fuel_out \<Rightarrow> False"
    and "in_messages tr = [] \<and> recv_contract tr"
    by simp_all
next
  show "loop_free (group_read s n t)" for s n t
    by (simp add: group_read_as_sock srt_sock.rd_loop_free)
  show "loop_free (group_write s m t)" for s m t
    by (auto simp: group_write_def raise_exception_def raise_exception_reason_def intro!: confined_intros)
  show "confined (moves {group_end s} {}) is_socket_exn (group_read s n t)" for s n t
    using srt_sock.rd_moves[of "as_sock s" n t] by (simp add: group_read_as_sock group_end_def srt_end_def)
  show "confined (moves {} {group_end s}) is_socket_exn (group_write s m t)" for s m t
    by (auto simp: group_write_def group_end_def raise_exception_def raise_exception_reason_def is_socket_exn_def
        intro!: confined_intros)
qed

subsection \<open>Properties\<close>

lemma validate_from_iff:
  "m \<noteq> FAILURE \<Longrightarrow> validate_from prev urls = m \<longleftrightarrow>
     (\<forall>u \<in> set urls. m_uriType u = SRT \<and> detect_srt_mode u = m) \<and> (prev = m \<or> prev = FAILURE \<and> urls \<noteq> [])"
proof (induction prev urls rule: validate_from.induct)
  case (1 prev)
  then show ?case by auto
next
  case (2 prev url urls)
  show ?case
  proof (cases "m_uriType url = SRT \<and> detect_srt_mode url \<noteq> FAILURE \<and> (prev = FAILURE \<or> detect_srt_mode url = prev)")
    case True
    with 2 have "validate_from (detect_srt_mode url) urls = m \<longleftrightarrow>
       (\<forall>u \<in> set urls. m_uriType u = SRT \<and> detect_srt_mode u = m) \<and> detect_srt_mode url = m"
      by (auto simp: Let_def)
    with True 2(2) show ?thesis by (auto simp: Let_def)
  next
    case False
    with 2(2) show ?thesis by (auto simp: Let_def)
  qed
qed

text \<open>C23: a list of URIs is accepted as a group, with a mode, exactly when it is not empty, every URI is
  an SRT URI and every URI asks for that same mode.\<close>

theorem validate_srt_group_iff:
  assumes "m \<noteq> FAILURE"
  shows "validate_srt_group urls = m \<longleftrightarrow>
     urls \<noteq> [] \<and> (\<forall>u \<in> set urls. m_uriType u = SRT \<and> detect_srt_mode u = m)"
  using validate_from_iff[OF assms, of FAILURE urls] assms by (auto simp: validate_srt_group_def)

theorem validate_srt_group_iff_witness:
  "validate_srt_group [ok_uri, ok_uri] = CALLER"
proof -
  have "detect_srt_mode ok_uri = CALLER" "m_uriType ok_uri = SRT"
    by (simp_all add: detect_srt_mode_def ok_uri_def cmap_get_def SrtInterpretMode_def)
  with validate_srt_group_iff[of CALLER "[ok_uri, ok_uri]"] show ?thesis by simp
qed

text \<open>The link weight of a URI lies between 0 and 32767, and every malformed weight text is reported
  as \<^verbatim>\<open>socket::exception\<close>.\<close>

theorem detect_link_weight_range:
  "case detect_link_weight u of Inr w \<Rightarrow> 0 \<le> w \<and> w \<le> 32767 | Inl e \<Rightarrow> is_socket_exn e"
proof -
  have "stoi s = Inl e \<Longrightarrow> (\<exists>m. e = Invalid_argument m) \<or> (\<exists>m. e = Std_out_of_range m)" for s e
    by (auto simp: sto_int_def split: option.splits if_splits)
  then show ?thesis
    by (auto simp: detect_link_weight_def is_socket_exn_def split: option.splits sum.splits cpp_exn.splits)
qed

subsection \<open>Lifetime of the member sockets\<close>

definition no_close :: "call \<Rightarrow> bool" where
  "no_close c = (case c of Srt (Srt_close s) \<Rightarrow> False | _ \<Rightarrow> True)"

lemma no_close_simps [simp]:
  "no_close (Srt (Srt_setsockopt s p v))" "no_close (Srt Srt_create_socket)" "no_close (Srt (Srt_create_group t))"
  "no_close (Srt Srt_getlasterror)" "no_close (Srt Srt_getlasterror_str)" "no_close (Srt Srt_epoll_create)"
  "no_close (Srt (Srt_epoll_add_usock a b c))" "no_close (Srt (Srt_bind a raw l))"
  "no_close (Srt (Srt_prepare_endpoint x raw l))" "no_close (Srt (Srt_connect_callback s))" "no_close (Os oc)"
  by (simp_all add: no_close_def)

lemma keeps_no_close: "keeps_sockets c \<Longrightarrow> no_close c"
  by (auto simp: keeps_sockets_def no_close_def split: call.splits srt_call.splits)

lemma confined_keeps_no_close: "confined keeps_sockets E p \<Longrightarrow> confined no_close E p"
  by (erule confined_mono) (auto dest: keeps_no_close)

lemma confined_no_close:
  assumes "confined no_close E p" and "runs p tr out"
  shows "closed_sockets tr = []"
proof -
  have "list_all (\<lambda>e. no_close (fst e)) tr \<Longrightarrow> closed_sockets tr = []"
    by (induction tr) (auto simp: projection_defs no_close_def split: call.splits srt_call.splits)
  with confined_runs[OF assms] show ?thesis by blast
qed

lemma confined_group_configure:
  "confined keeps_sockets (\<lambda>_. True) (group_configure_pre fl s i self)"
  "confined keeps_sockets (\<lambda>_. True) (group_configure_post fl s i self)"
  by (auto simp: group_configure_pre_def group_configure_post_def configure_link_def SrtConfigurePost_def Let_def
      intro!: confined_intros confined_SrtConfigurePre confined_configure_step split: prod.splits)

lemma confined_create_addr_family: "confined keeps_sockets E (create_addr_family name port f)"
  by (auto simp: create_addr_family_def Let_def intro!: confined_intros confined_try_families split: option.splits)

lemma confined_create_target:
  "confined (\<lambda>c. keeps_sockets c \<or> (\<exists>a b l. c = Srt (Srt_prepare_endpoint a b l))) (\<lambda>_. True) (create_target u self)"
proof -
  let ?C = "\<lambda>c. keeps_sockets c \<or> (\<exists>a b l. c = Srt (Srt_prepare_endpoint a b l))"
  have 1: "confined ?C (\<lambda>_. True) (create_addr name port)" for name port
    by (rule confined_mono[OF confined_create_addr[of "\<lambda>_. True"]]) auto
  have 2: "confined ?C (\<lambda>_. True) (create_addr_family name port f)" for name port f
    by (rule confined_mono[OF confined_create_addr_family[of "\<lambda>_. True"]]) auto
  show ?thesis
    by (auto simp: create_target_def create_addr_or_eq try_bind_def lift_exn_def Let_def
        intro!: confined_intros 1 confined_catchP 2 split: option.splits sum.splits cpp_exn.splits)
qed

lemma confined_group_ctor: "confined no_close (\<lambda>_. True) (group_ctor fl uris)"
proof -
  note k = confined_keeps_no_close
  have t: "confined no_close (\<lambda>_. True) (create_target u self)" for u self
    by (rule confined_mono[OF confined_create_target]) (auto dest: keeps_no_close)
  have l: "confined no_close (\<lambda>_. True) (create_listener fl iu self)" for iu self
    unfolding create_listener_def Let_def
    by (intro confined_intros k[OF confined_create_addr] k[OF confined_group_configure(1)])
      (simp_all add: confined_throw_lasterror)
  have c: "confined no_close (\<lambda>_. True) (create_callers fl uris gtype self)" for gtype self
    unfolding create_callers_def subscribe_callers_def Let_def
    by (intro confined_intros k[OF confined_group_configure(1)] k[OF confined_group_configure(2)] t)
      (simp_all add: confined_throw_lasterror confined_raise_exception)
  have e: "confined no_close (\<lambda>_. True) (group_setup_epolls self)" for self
    by (auto simp: group_setup_epolls_def Let_def intro!: confined_intros confined_throw_lasterror)
  show ?thesis
    unfolding group_ctor_def Let_def create_listeners_def
    by (intro confined_intros k[OF confined_assert_options_valid] e c l)
      (auto simp: lift_exn_def split: sum.splits)
qed

lemma created_other [simp]:
  "created_sockets ((Srt (Srt_setsockopt s p v), r) # tr) = created_sockets tr"
  "created_sockets ((Srt (Srt_bind s a l), r) # tr) = created_sockets tr"
  "created_sockets ((Srt (Srt_epoll_add_usock e s m), r) # tr) = created_sockets tr"
  "created_sockets ((Srt Srt_epoll_create, r) # tr) = created_sockets tr"
  "created_sockets ((Srt (Srt_create_group t), r) # tr) = created_sockets tr"
  "created_sockets ((Srt (Srt_connect_callback s), r) # tr) = created_sockets tr"
  "created_sockets [] = []"
  "created_sockets ((Srt Srt_create_socket, r) # tr) =
     (if r_int r = SRT_INVALID_SOCK then created_sockets tr else r_int r # created_sockets tr)"
  by (simp_all add: created_sockets_def)

lemma created_neutral: "neutral tr \<Longrightarrow> created_sockets tr = []"
  by (simp add: neutral_def)

lemma runs_create_listener_Ok:
  assumes "runs (create_listener fl iu self) tr (Ok self')"
  shows "\<exists>s. created_sockets tr = [s] \<and> self' = self\<lparr>g_listeners := g_listeners self @ [s]\<rparr>"
proof -
  from assms obtain sa t1 t2 where tr: "tr = t1 @ t2" and a: "runs (create_addr (m_host (snd iu)) (portno (snd iu))) t1 (Ok sa)"
    and r: "runs (bindP (srt Srt_create_socket) (\<lambda>r.
      let s = r_int r in
      if s = SRT_INVALID_SOCK then throw_lasterror
      else bindP (srt (Srt_setsockopt s SRTO_GROUPCONNECT (OV_int 1))) (\<lambda>r.
      if SRT_SUCCESS \<noteq> r_int r then throw_lasterror
      else bindP (group_configure_pre fl s (fst iu) self) (\<lambda>res.
      if SRT_SUCCESS \<noteq> res then throw_lasterror
      else bindP (srt (Srt_bind s (storage sa) (addr_size sa))) (\<lambda>r.
      if SRT_SUCCESS \<noteq> r_int r then throw_lasterror
      else bindP (if \<not> g_blocking_mode self then
                    bindP (srt (Srt_epoll_add_usock (g_epoll_connect self) s (SRT_EPOLL_IN + SRT_EPOLL_ERR))) (\<lambda>r.
                    if SRT_ERROR = r_int r then throw_lasterror
                    else bindP (srt (Srt_epoll_add_usock (g_epoll_io self) s
                                       (SRT_EPOLL_IN + SRT_EPOLL_OUT + SRT_EPOLL_ERR))) (\<lambda>r.
                    if SRT_ERROR = r_int r then throw_lasterror else Ret ()))
                  else Ret ()) (\<lambda>_.
      Ret (self\<lparr>g_listeners := g_listeners self @ [s]\<rparr>))))))) t2 (Ok self')"
    unfolding create_listener_def Let_def runs_bindP_Ok[of "create_addr _ _"] by blast
  have "neutral t" if "runs (group_configure_pre fl s i self) t (Ok res)" for s i t res
    by (rule confined_neutral[OF confined_group_configure(1) that])
  with r have "\<exists>s. created_sockets t2 = [s] \<and> self' = self\<lparr>g_listeners := g_listeners self @ [s]\<rparr>"
    by (auto simp: runs_bindP_Ok runs_call_simps Let_def trace_projections_append created_neutral
        simp del: runs.simps(4) split: if_splits)
  with create_addr_silent[OF a, of 0] show ?thesis
    by (simp add: tr trace_projections_append neutral_def)
qed

lemma runs_create_listeners_Ok:
  assumes "runs (create_listeners fl uris self) tr (Ok self')" and "g_listeners self = []"
  shows "self' = self\<lparr>g_listeners := created_sockets tr\<rparr> \<and> length (created_sockets tr) = length uris"
proof -
  let ?I = "\<lambda>ys s t. s = self\<lparr>g_listeners := created_sockets t\<rparr> \<and> length (created_sockets t) = length ys"
  have "?I (zip [0..<length uris] uris) self' tr"
    using assms(1)[unfolded create_listeners_def]
  proof (rule runs_foldP_Ok)
    show "?I [] self []" using assms(2) by simp
    show "?I (ys @ [x]) s' (t @ t')" if "?I ys s t" "runs (create_listener fl x s) t' (Ok s')" for ys x s t t' s'
      using that runs_create_listener_Ok[OF that(2)] by (auto simp: trace_projections_append)
  qed
  then show ?thesis by simp
qed

lemma runs_create_target_Ok:
  assumes "runs (create_target u self) tr (Ok self')"
  shows "\<exists>gd. self' = self\<lparr>g_targets := g_targets self @ [gd]\<rparr> \<and> detect_link_weight u = Inr (gc_weight gd)"
  using assms
  by (auto simp: create_target_def create_addr_or_eq runs_bindP_Ok runs_Call lift_exn_def simp del: runs.simps(4)
      split: sum.splits)

lemma prepare_created:
  "list_all (\<lambda>e. keeps_sockets (fst e) \<or> (\<exists>a b l. fst e = Srt (Srt_prepare_endpoint a b l))) tr \<Longrightarrow> created_sockets tr = []"
  by (induction tr) (auto simp: created_sockets_def keeps_sockets_def split: call.splits srt_call.splits)

lemma runs_create_targets_Ok:
  assumes "runs (foldP create_target uris self) tr (Ok self')" and "g_targets self = []"
  shows "self' = self\<lparr>g_targets := g_targets self'\<rparr> \<and> map (Inr \<circ> gc_weight) (g_targets self') = map detect_link_weight uris \<and>
    created_sockets tr = []"
proof -
  let ?I = "\<lambda>ys s t. s = self\<lparr>g_targets := g_targets s\<rparr> \<and> map (Inr \<circ> gc_weight) (g_targets s) = map detect_link_weight ys \<and>
    created_sockets t = []"
  show ?thesis
    using assms(1)
  proof (rule runs_foldP_Ok[where I = ?I])
    show "?I [] self []" using assms(2) by simp
    show "?I (ys @ [x]) s' (t @ t')" if "?I ys s t" "runs (create_target x s) t' (Ok s')" for ys x s t t' s'
    proof -
      from runs_create_target_Ok[OF that(2)] obtain gd where
        "s' = s\<lparr>g_targets := g_targets s @ [gd]\<rparr>" "detect_link_weight x = Inr (gc_weight gd)" by blast
      moreover have "created_sockets t' = []"
        by (rule prepare_created, rule confined_runs[OF confined_create_target that(2)])
      ultimately show ?thesis
        using that(1) by (auto simp: trace_projections_append) (metis srt_group.surjective srt_group.update_convs(3))
    qed
  qed
qed

lemma runs_create_callers_Ok:
  assumes "runs (create_callers fl uris gtype self) tr (Ok self')" and "g_targets self = []"
  shows "created_sockets tr = [] \<and> g_listeners self' = g_listeners self \<and> g_mode self' = g_mode self \<and>
    g_bind_socket self' \<noteq> SRT_INVALID_SOCK \<and> map (Inr \<circ> gc_weight) (g_targets self') = map detect_link_weight uris"
proof -
  have n: "neutral t" if "runs (group_configure_pre fl s i g) t (Ok res) \<or> runs (group_configure_post fl s i g) t (Ok res)"
    for s i g t res
    using that confined_neutral[OF confined_group_configure(1)] confined_neutral[OF confined_group_configure(2)] by blast
  from assms(1) obtain r :: reply and t1 t2 t3 t4 res self2 where
    tr: "tr = (Srt (Srt_create_group gtype), r) # t1 @ t2 @ t3 @ t4" and r: "r_int r \<noteq> SRT_INVALID_SOCK"
    and c1: "runs (group_configure_pre fl (r_int r) 0 (self\<lparr>g_bind_socket := r_int r\<rparr>)) t1 (Ok SRT_SUCCESS)"
    and c2: "runs (group_configure_post fl (r_int r) 0 (self\<lparr>g_bind_socket := r_int r\<rparr>)) t2 (Ok SRT_SUCCESS)"
    and c3: "runs (foldP create_target uris (self\<lparr>g_bind_socket := r_int r\<rparr>)) t3 (Ok self2)"
    and c4: "runs (subscribe_callers self2) t4 (Ok self')"
    by (auto simp: create_callers_def Let_def runs_bindP_Ok runs_Call simp del: runs.simps(4) bindP_if
        split: if_splits)
  from c4 have 4: "self' = self2" "created_sockets t4 = []"
    by (auto simp: subscribe_callers_def runs_call_simps simp del: runs.simps(4) split: if_splits)
  from runs_create_targets_Ok[OF c3] assms(2) have 3:
    "self2 = self\<lparr>g_bind_socket := r_int r, g_targets := g_targets self2\<rparr>"
    "map (Inr \<circ> gc_weight) (g_targets self2) = map detect_link_weight uris" "created_sockets t3 = []"
    by simp_all
  have "created_sockets tr = []"
    using created_neutral[OF n[OF disjI1[OF c1]]] created_neutral[OF n[OF disjI2[OF c2]]] 3(3) 4(2)
    by (simp add: tr trace_projections_append)
  moreover have "g_listeners self2 = g_listeners self" "g_mode self2 = g_mode self" "g_bind_socket self2 = r_int r"
    by (subst 3(1), simp)+
  ultimately show ?thesis using 3(2) 4(1) r by simp
qed

lemma runs_group_prepare_Ok:
  assumes "runs (foldP (\<lambda>u self.
                 bindP (assert_options_valid fl (parameters u) extra)
                   (\<lambda>_. Ret (self\<lparr>g_opts_link := g_opts_link self @ [parameters u]\<rparr>))) uris self) tr (Ok self')"
  shows "self' = self\<lparr>g_opts_link := g_opts_link self @ map parameters uris\<rparr> \<and> created_sockets tr = []"
proof -
  let ?I = "\<lambda>ys s t. s = self\<lparr>g_opts_link := g_opts_link self @ map parameters ys\<rparr> \<and> created_sockets t = []"
  have v: "neutral t" if "runs (assert_options_valid fl o' extra) t (Ok x)" for o' t x
    by (rule confined_neutral[OF confined_assert_options_valid that])
  show ?thesis
    using assms
  proof (rule runs_foldP_Ok[where I = ?I])
    show "?I (ys @ [x]) s' (t @ t')" if "?I ys s t"
      "runs (bindP (assert_options_valid fl (parameters x) extra)
                   (\<lambda>_. Ret (s\<lparr>g_opts_link := g_opts_link s @ [parameters x]\<rparr>))) t' (Ok s')" for ys x s t t' s'
      using that v by (auto simp: runs_bindP_Ok trace_projections_append created_neutral)
  qed simp
qed

lemma runs_group_setup_epolls_Ok:
  "runs (group_setup_epolls self) tr (Ok self') \<Longrightarrow> created_sockets tr = [] \<and>
     self' = self\<lparr>g_epoll_connect := g_epoll_connect self', g_epoll_io := g_epoll_io self'\<rparr>"
  by (auto simp: group_setup_epolls_def Let_def runs_call_simps simp del: runs.simps(4) split: if_splits)

lemma runs_group_ctor_Ok:
  assumes "runs (group_ctor fl uris) tr (Ok self)"
  shows "closed_sockets tr = [] \<and> g_mode self = validate_srt_group uris \<and> g_listeners self = created_sockets tr \<and>
     (g_mode self = LISTENER \<and> length (g_listeners self) = length uris \<and> g_targets self = [] \<or>
      g_mode self = CALLER \<and> g_listeners self = [] \<and> g_bind_socket self \<noteq> SRT_INVALID_SOCK \<and>
        map (Inr \<circ> gc_weight) (g_targets self) = map detect_link_weight uris)"
proof -
  let ?m = "validate_srt_group uris"
  have m: "?m = LISTENER \<or> ?m = CALLER"
    using assms by (cases ?m) (auto simp: group_ctor_def)
  let ?prep = "foldP (\<lambda>u self. bindP (assert_options_valid fl (parameters u) [''bind'', ''mode'', ''weight'', ''grouptype'', ''blocking''])
                   (\<lambda>_. Ret (self\<lparr>g_opts_link := g_opts_link self @ [parameters u]\<rparr>))) uris (srt_group0\<lparr>g_mode := ?m\<rparr>)"
  let ?fin = "\<lambda>gtype self. if g_mode self = LISTENER then create_listeners fl uris self else create_callers fl uris gtype self"
  have "runs (bindP ?prep (\<lambda>self. bindP (lift_exn (detect_group_type (hd (g_opts_link self)))) (\<lambda>gtype.
        bindP (group_setup_epolls (group_take_blocking self)) (\<lambda>self. ?fin gtype self)))) tr (Ok self)"
    using assms m unfolding group_ctor_def Let_def by (elim disjE) simp_all
  then obtain self1 self2 gtype t1 t2 t3 t4 where "tr = t1 @ t2 @ t3 @ t4" and 1: "runs ?prep t1 (Ok self1)"
    and l: "runs (lift_exn (detect_group_type (hd (g_opts_link self1)))) t2 (Ok gtype)"
    and 2: "runs (group_setup_epolls (group_take_blocking self1)) t3 (Ok self2)"
    and 3: "runs (?fin gtype self2) t4 (Ok self)"
    unfolding runs_bindP_Ok by blast
  moreover from l have "t2 = []" by (auto simp: lift_exn_def split: sum.splits)
  ultimately have tr: "tr = t1 @ t3 @ t4" by simp
  from runs_group_prepare_Ok[OF 1] have s1: "g_mode self1 = ?m" "g_listeners self1 = []" "g_targets self1 = []" "created_sockets t1 = []"
    by (simp_all add: srt_group0_def)
  have tb: "g_mode (group_take_blocking g) = g_mode g" "g_listeners (group_take_blocking g) = g_listeners g"
    "g_targets (group_take_blocking g) = g_targets g" for g
    by (auto simp: group_take_blocking_def Let_def split: option.splits)
  have s2: "g_mode self2 = ?m" "g_listeners self2 = []" "g_targets self2 = []" "created_sockets t3 = []"
    using runs_group_setup_epolls_Ok[OF 2] s1 tb[of self1]
    by (metis srt_group.select_convs srt_group.surjective srt_group.update_convs(4,5))+
  have closed: "closed_sockets tr = []"
    by (rule confined_no_close[OF confined_group_ctor assms])
  have created: "created_sockets tr = created_sockets t4"
    using s1(4) s2(4) by (simp add: tr trace_projections_append)
  from m show ?thesis
  proof
    assume "?m = LISTENER"
    with runs_create_listeners_Ok[of fl uris self2 t4 self] 3 s2 closed created show ?thesis by simp
  next
    assume "?m = CALLER"
    with runs_create_callers_Ok[of fl uris gtype self2 t4 self] 3 s2 closed created show ?thesis by simp
  qed
qed

text \<open>C12: the constructor of a group. Whenever it returns, the mode is listener or caller. A listening
  group holds one open socket per URI, the ones it created, in order, and no target; a calling group
  holds a group handle, no listener, and one target per URI with the weight of that URI. Nothing it
  created has been closed.\<close>

theorem group_ctor_ok:
  assumes "runs (group_ctor fl uris) tr (Ok self)"
  shows "closed_sockets tr = [] \<and> g_mode self = validate_srt_group uris \<and> g_listeners self = created_sockets tr \<and>
     (g_mode self = LISTENER \<and> length (g_listeners self) = length uris \<and> g_targets self = [] \<or>
      g_mode self = CALLER \<and> g_listeners self = [] \<and> g_bind_socket self \<noteq> SRT_INVALID_SOCK \<and>
        map (Inr \<circ> gc_weight) (g_targets self) = map detect_link_weight uris)"
  by (rule runs_group_ctor_Ok[OF assms])

lemma closed_other [simp]:
  "closed_sockets ((Srt (Srt_epoll_release e), r) # tr) = closed_sockets tr"
  "closed_sockets ((Srt (Srt_delete_config e), r) # tr) = closed_sockets tr"
  "closed_sockets ((Srt (Srt_close s), r) # tr) = s # closed_sockets tr"
  "closed_sockets [] = []"
  by (simp_all add: closed_sockets_def)

lemma runs_release_targets:
  "runs (release_targets self) tr out \<Longrightarrow> out = Ok (self\<lparr>g_targets := []\<rparr>) \<and> closed_sockets tr = []"
proof -
  have "runs (forP (\<lambda>gd. bindP (srt (Srt_delete_config (gc_config gd))) (\<lambda>_. Ret ())) gds) t o' \<Longrightarrow>
     o' = Ok () \<and> closed_sockets t = []" for gds t o'
    by (induction gds arbitrary: t) (auto simp: runs_call_simps simp del: runs.simps(4))
  then show "runs (release_targets self) tr out \<Longrightarrow> out = Ok (self\<lparr>g_targets := []\<rparr>) \<and> closed_sockets tr = []"
    by (auto simp: release_targets_def runs_bindP)
qed

lemma runs_release_listeners:
  "runs (release_listeners self) tr out \<Longrightarrow> out = Ok (self\<lparr>g_listeners := []\<rparr>) \<and> closed_sockets tr = g_listeners self"
proof -
  have "runs (forP (\<lambda>sock. bindP (srt (Srt_close sock)) (\<lambda>_. Ret ())) ss) t o' \<Longrightarrow>
     o' = Ok () \<and> closed_sockets t = ss" for ss t o'
    by (induction ss arbitrary: t) (auto simp: runs_call_simps simp del: runs.simps(4))
  then show "runs (release_listeners self) tr out \<Longrightarrow> out = Ok (self\<lparr>g_listeners := []\<rparr>) \<and> closed_sockets tr = g_listeners self"
    by (auto simp: release_listeners_def runs_bindP)
qed

lemma runs_group_dtor:
  assumes "runs (group_dtor self) tr out"
  shows "out = Ok () \<and> closed_sockets tr = g_listeners self @ [g_bind_socket self]"
proof -
  let ?ep = "if \<not> g_blocking_mode self then
              bindP (if g_epoll_connect self \<noteq> -1
                     then bindP (srt (Srt_epoll_release (g_epoll_connect self))) (\<lambda>_. Ret ()) else Ret ()) (\<lambda>_.
              if g_epoll_io self \<noteq> -1 then bindP (srt (Srt_epoll_release (g_epoll_io self))) (\<lambda>_. Ret ()) else Ret ())
            else Ret ()"
  have ep: "runs ?ep t o' \<Longrightarrow> o' = Ok () \<and> closed_sockets t = []" for t o'
    by (auto simp: runs_call_simps simp del: runs.simps(4) split: if_splits)
  have r: "returns ?ep" "returns (release_targets self)" "returns (release_listeners g)" for g
    unfolding returns_def using ep runs_release_targets runs_release_listeners by blast+
  from assms[unfolded group_dtor_def runs_bindP_returns[OF r(1)]] obtain x t1 u1 where 1: "tr = t1 @ u1"
    and t1: "runs ?ep t1 (Ok x)"
    and u1: "runs (bindP (release_targets self) (\<lambda>self. bindP (release_listeners self) (\<lambda>self.
       bindP (srt (Srt_close (g_bind_socket self))) (\<lambda>_. Ret ())))) u1 out"
    by blast
  from u1[unfolded runs_bindP_returns[OF r(2)]] obtain g t2 u2 where 2: "u1 = t2 @ u2"
    and t2: "runs (release_targets self) t2 (Ok g)"
    and u2: "runs (bindP (release_listeners g) (\<lambda>self. bindP (srt (Srt_close (g_bind_socket self))) (\<lambda>_. Ret ()))) u2 out"
    by blast
  from u2[unfolded runs_bindP_returns[OF r(3)]] obtain g' t3 t4 where 3: "u2 = t3 @ t4"
    and t3: "runs (release_listeners g) t3 (Ok g')"
    and t4: "runs (bindP (srt (Srt_close (g_bind_socket g'))) (\<lambda>_. Ret ())) t4 out"
    by blast
  note tr = 1[unfolded 2 3]
  from ep[OF t1] runs_release_targets[OF t2] runs_release_listeners[OF t3] t4 show ?thesis
    by (auto simp: tr trace_projections_append runs_call_simps simp del: runs.simps(4))
qed

text \<open>C5: lifetime of a group. Construction followed by destruction closes exactly the sockets that the
  constructor created, each once and in order, and then the group handle.\<close>

theorem group_lifetime:
  assumes "runs (group_ctor fl uris) tr (Ok self)" and "runs (group_dtor self) tr' out"
  shows "out = Ok () \<and> closed_sockets (tr @ tr') = created_sockets tr @ [g_bind_socket self]"
proof -
  have "closed_sockets tr = [] \<and> g_listeners self = created_sockets tr"
    using runs_group_ctor_Ok[OF assms(1)] by blast
  with runs_group_dtor[OF assms(2)] show ?thesis
    by (simp add: trace_projections_append)
qed

definition lst_uri :: uri where
  "lst_uri = ok_uri\<lparr>m_host := '''', m_mapQuery := []\<rparr>"

lemma lst_group_run: "\<exists>self. snd (exec (group_ctor fl0 [lst_uri, lst_uri]) (\<lambda>_ _. rint 0) []) = Ok self"
  by (simp add: group_ctor_def validate_srt_group_def lst_uri_def ok_uri_def detect_srt_mode_def cmap_get_def
      SrtInterpretMode_def assert_options_valid_def lift_exn_def detect_group_type_def group_take_blocking_def
      group_setup_epolls_def srt_group0_def create_listeners_def create_listener_def create_addr_def create_addr_family_def
      group_configure_pre_def configure_link_def SrtConfigurePre_def set_linger_def foldP_no_options srt_consts
      upt_rec[of 0] upt_rec[of "Suc 0"] Let_def af_defs)

lemma lst_group_witness:
  obtains self where "runs (group_ctor fl0 [lst_uri, lst_uri]) (fst (exec (group_ctor fl0 [lst_uri, lst_uri]) (\<lambda>_ _. rint 0) [])) (Ok self)"
  using lst_group_run runs_exec[of "group_ctor fl0 [lst_uri, lst_uri]" "\<lambda>_ _. rint 0" "[]"] by auto

theorem group_ctor_ok_witness:
  "\<exists>self. runs (group_ctor fl0 [lst_uri, lst_uri]) (fst (exec (group_ctor fl0 [lst_uri, lst_uri]) (\<lambda>_ _. rint 0) [])) (Ok self) \<and>
     g_mode self = LISTENER \<and> length (g_listeners self) = 2"
proof -
  obtain self where r: "runs (group_ctor fl0 [lst_uri, lst_uri]) (fst (exec (group_ctor fl0 [lst_uri, lst_uri]) (\<lambda>_ _. rint 0) [])) (Ok self)"
    by (rule lst_group_witness)
  have "validate_srt_group [lst_uri, lst_uri] = LISTENER"
    by (simp add: validate_srt_group_def lst_uri_def ok_uri_def detect_srt_mode_def cmap_get_def SrtInterpretMode_def)
  with group_ctor_ok[OF r] r show ?thesis by auto
qed

theorem group_lifetime_witness:
  "\<exists>self tr. runs (group_ctor fl0 [lst_uri, lst_uri]) tr (Ok self) \<and>
     closed_sockets (tr @ fst (exec (group_dtor self) (\<lambda>_ _. rint 0) [])) = created_sockets tr @ [g_bind_socket self]"
proof -
  obtain self where r: "runs (group_ctor fl0 [lst_uri, lst_uri]) (fst (exec (group_ctor fl0 [lst_uri, lst_uri]) (\<lambda>_ _. rint 0) [])) (Ok self)"
    by (rule lst_group_witness)
  from group_lifetime[OF r runs_exec] r show ?thesis by blast
qed

text \<open>Reconnecting a failed member of a group is undefined behaviour. Whenever the library reports a
  connection error for a token that belongs to one of the targets, the handler follows a pointer to
  the loop variable of a loop that has ended; no reconnection is ever scheduled in a defined way.\<close>

theorem on_connect_callback_undefined:
  assumes "error \<noteq> SRT_SUCCESS" and "\<exists>gd \<in> set (g_targets self). gc_token gd = token"
  shows "runs (connect_callback_fn (Some self) error token) tr out \<longleftrightarrow> tr = [] \<and> out = Raised (Undefined ''*member'')"
proof -
  from assms(2) have "find (\<lambda>target. gc_token target = token) (g_targets self) \<noteq> None"
    by (auto simp: find_None_iff)
  with assms(1) show ?thesis
    by (auto simp: connect_callback_fn_def on_connect_callback_def)
qed

theorem on_connect_callback_undefined_witness:
  "runs (connect_callback_fn (Some (srt_group0\<lparr>g_targets := [groupconfig0]\<rparr>)) 1002 (-1)) [] (Raised (Undefined ''*member''))"
proof -
  have "(1002::int) \<noteq> SRT_SUCCESS" "\<exists>gd \<in> set (g_targets (srt_group0\<lparr>g_targets := [groupconfig0]\<rparr>)). gc_token gd = -1"
    by (simp_all add: srt_consts groupconfig0_def)
  from on_connect_callback_undefined[OF this] show ?thesis by simp
qed

end
