(* ===== verification/FlagLoops.thy ===== *)
theory FlagLoops
  imports SrtApi
begin

text \<open>
  Termination of the loops that run until the \<^verbatim>\<open>force_break\<close> flag is set. Such a loop has no bound of its
  own; the fuel of its model is enough whenever it exceeds the number of times the flag was read as
  not set, which \<open>runs_out_after\<close> expresses and the rules below compose.
\<close>

definition runs_out_after :: "nat \<Rightarrow> 'a sprog \<Rightarrow> bool" where
  "runs_out_after k p \<longleftrightarrow> (\<forall>tr. runs p tr Fuel_out \<longrightarrow> k \<le> false_reads tr)"

named_theorems runs_out_intros \<open>composition rules for the fuel of flag loops\<close>

lemma loop_free_runs_out: "loop_free p \<Longrightarrow> runs_out_after k p"
  using loop_free_runs unfolding runs_out_after_def by blast

lemma runs_out_simple [simp]:
  "runs_out_after k (Ret x)" "runs_out_after k (Exc e)" "runs_out_after k (callP c)" "runs_out_after k load_force_break"
  by (auto simp: runs_out_after_def)

lemma runs_out_bindP [runs_out_intros]:
  assumes "runs_out_after k p" and "\<And>x. runs_out_after k (f x)"
  shows "runs_out_after k (bindP p f)"
  unfolding runs_out_after_def
proof (intro allI impI)
  fix tr
  assume "runs (bindP p f) tr Fuel_out"
  then consider x t1 t2 where "tr = t1 @ t2" "runs (f x) t2 Fuel_out" | "runs p tr Fuel_out"
    unfolding runs_bindP by blast
  then show "k \<le> false_reads tr"
  proof cases
    case 1
    with assms(2)[of x] have "k \<le> false_reads t2" unfolding runs_out_after_def by blast
    with 1 show ?thesis by simp
  next
    case 2
    with assms(1) show ?thesis unfolding runs_out_after_def by blast
  qed
qed

lemma runs_out_if [runs_out_intros]:
  "(b \<Longrightarrow> runs_out_after k p) \<Longrightarrow> (\<not> b \<Longrightarrow> runs_out_after k q) \<Longrightarrow> runs_out_after k (if b then p else q)"
  by simp

lemma runs_out_tryP [runs_out_intros]: "runs_out_after k p \<Longrightarrow> runs_out_after k (tryP p)"
  by (auto simp: runs_out_after_def runs_tryP)

lemma runs_out_catchP [runs_out_intros]:
  assumes "runs_out_after k p" and "\<And>e. runs_out_after k (h e)"
  shows "runs_out_after k (catchP p h)"
proof -
  have "k \<le> false_reads tr" if r: "runs (catchP p h) tr Fuel_out" for tr
  proof -
    from r consider e t1 t2 where "tr = t1 @ t2" "runs (h e) t2 Fuel_out" | "runs p tr Fuel_out"
      unfolding runs_catchP by blast
    then show ?thesis
    proof cases
      case 1
      with assms(2)[of e] have "k \<le> false_reads t2" unfolding runs_out_after_def by blast
      with 1 show ?thesis by simp
    next
      case 2
      with assms(1) show ?thesis unfolding runs_out_after_def by blast
    qed
  qed
  then show ?thesis unfolding runs_out_after_def by blast
qed

lemma runs_out_mono: "runs_out_after k p \<Longrightarrow> j \<le> k \<Longrightarrow> runs_out_after j p"
  unfolding runs_out_after_def by (meson order_trans)

text \<open>A loop whose every full turn reads the flag as not set.\<close>

lemma runs_out_loopP:
  assumes "\<And>s. runs_out_after n (body s)"
    and turn: "\<And>s t s'. runs (body s) t (Ok (Inl s')) \<Longrightarrow> 1 \<le> false_reads t"
  shows "runs_out_after n (loopP n body s)"
proof -
  have "runs (loopP m body s) tr Fuel_out \<Longrightarrow> m \<le> n \<Longrightarrow> m \<le> false_reads tr" for m s tr
  proof (induction m arbitrary: s tr)
    case (Suc m)
    from Suc.prems(1) consider
        x t1 t2 where "tr = t1 @ t2" "runs (body s) t1 (Ok x)"
          "runs (case x of Inl s' \<Rightarrow> loopP m body s' | Inr a \<Rightarrow> Ret a) t2 Fuel_out"
      | "runs (body s) tr Fuel_out"
      by (auto simp: runs_bindP)
    then show ?case
    proof cases
      case 1
      then obtain s' where "x = Inl s'" by (cases x) auto
      with 1 Suc.IH[of s' t2] Suc.prems(2) turn[of s t1 s'] show ?thesis by simp
    next
      case 2
      with assms(1)[of s] Suc.prems(2) show ?thesis unfolding runs_out_after_def by force
    qed
  qed simp
  then show ?thesis unfolding runs_out_after_def by blast
qed

lemma runs_out_ends: "runs_out_after n p \<Longrightarrow> runs p tr out \<Longrightarrow> false_reads tr < n \<Longrightarrow> out \<noteq> Fuel_out"
  unfolding runs_out_after_def by force

end
