(* ===== verification/Connection.thy ===== *)
theory Connection
  imports SrtGroup FlagLoops
begin

text \<open>
  Connections (\<^verbatim>\<open>misc.cpp\<close>): the dynamic dispatch of \<^verbatim>\<open>socket::isocket\<close>, \<^verbatim>\<open>create_connection\<close> and the
  reconnecting driver \<^verbatim>\<open>common_run\<close>. A shared pointer is an optional object; where the last reference
  goes away, the destructor is called. The class \<^verbatim>\<open>socket::udp\<close> and the statistics writer are not part of
  the repository: their operations are calls to the environment.
\<close>

datatype sock = Sock_srt srt_sock | Sock_group srt_group | Sock_udp int

definition udp_ctor :: "uri \<Rightarrow> sock sprog" where
  "udp_ctor u =
     bindP (os (Udp_open (m_origUri u))) (\<lambda>r. if r_int r < 0 then throw_socket (r_str r) else Ret (Sock_udp (r_int r)))"

primrec isock_read :: "sock \<Rightarrow> nat \<Rightarrow> int \<Rightarrow> (nat \<times> bytes) sprog" where
  "isock_read (Sock_srt s) n t = srt_read s n t"
| "isock_read (Sock_group g) n t = group_read g n t"
| "isock_read (Sock_udp u) n t =
     bindP (os (Udp_read u n)) (\<lambda>r. if r_int r < 0 then throw_socket (r_str r) else Ret (nat (r_int r), r_bytes r))"

primrec isock_write :: "sock \<Rightarrow> bytes \<Rightarrow> int \<Rightarrow> int sprog" where
  "isock_write (Sock_srt s) m t = srt_write s m t"
| "isock_write (Sock_group g) m t = group_write g m t"
| "isock_write (Sock_udp u) m t =
     bindP (os (Udp_write u m)) (\<lambda>r. if r_int r < 0 then throw_socket (r_str r) else Ret (r_int r))"

primrec isock_id :: "sock \<Rightarrow> int" where
  "isock_id (Sock_srt s) = ss_bind_socket s"
| "isock_id (Sock_group g) = g_bind_socket g"
| "isock_id (Sock_udp u) = u"

primrec isock_is_caller :: "sock \<Rightarrow> bool" where
  "isock_is_caller (Sock_srt s) = srt_is_caller s"
| "isock_is_caller (Sock_group g) = (g_mode g = CALLER)"
| "isock_is_caller (Sock_udp u) = False"

primrec isock_dtor :: "sock \<Rightarrow> unit sprog" where
  "isock_dtor (Sock_srt s) = srt_dtor s"
| "isock_dtor (Sock_group g) = group_dtor g"
| "isock_dtor (Sock_udp u) = Ret ()"

text \<open>Dropping the last reference.\<close>

definition reset_ptr :: "sock option \<Rightarrow> unit sprog" where
  "reset_ptr p = (case p of None \<Rightarrow> Ret () | Some s \<Rightarrow> isock_dtor s)"

subsection \<open>Creating a connection\<close>

text \<open>The result is the connection or the exception in flight, and the value of the reference parameter
  \<^verbatim>\<open>listeningSock\<close>, which outlives an exception.\<close>

definition group_connection ::
  "build_flags \<Rightarrow> uri list \<Rightarrow> sock option \<Rightarrow> ((cpp_exn + sock) \<times> sock option) sprog" where
  "group_connection fl parsedUrls listeningSock =
     bindP (case listeningSock of
              None \<Rightarrow> tryP (group_ctor fl parsedUrls)
            | Some (Sock_group g) \<Rightarrow> Ret (Inr g)
            | Some _ \<Rightarrow> Exc (Undefined ''dynamic_cast'')) (\<lambda>x.
     case x of
       Inl e \<Rightarrow> Ret (Inl e, listeningSock)
     | Inr s \<Rightarrow>
         let listeningSock = Some (Sock_group s); accept = (g_mode s = LISTENER) in
         bindP (tryP (if accept then group_listen s else Ret ())) (\<lambda>l.
         case l of
           Inl e \<Rightarrow> Ret (Inl e, listeningSock)
         | Inr _ \<Rightarrow>
             bindP (tryP (if accept then group_accept fl s else group_connect fl s)) (\<lambda>c.
             case c of
               Inl e \<Rightarrow> Ret (Inl e, listeningSock)
             | Inr connection \<Rightarrow>
                 Ret (Inr (Sock_group connection), if g_mode s \<noteq> LISTENER then None else listeningSock))))"

text \<open>Accepting or connecting, with the handler that drops the listening socket.\<close>

definition srt_establish :: "build_flags \<Rightarrow> srt_sock \<Rightarrow> ((cpp_exn + sock) \<times> sock option) sprog" where
  "srt_establish fl s =
     (let listeningSock = Some (Sock_srt s); accept = (ss_mode s = LISTENER) in
      bindP (tryP (if accept then srt_accept fl s else srt_connect fl s)) (\<lambda>c.
      case c of
        Inl e \<Rightarrow>
          if is_socket_exn e then bindP (reset_ptr listeningSock) (\<lambda>_. Ret (Inl e, None))
          else Ret (Inl e, listeningSock)
      | Inr connection \<Rightarrow>
          Ret (Inr (Sock_srt connection), if ss_mode s \<noteq> LISTENER then None else listeningSock)))"

definition srt_connection ::
  "build_flags \<Rightarrow> uri \<Rightarrow> sock option \<Rightarrow> ((cpp_exn + sock) \<times> sock option) sprog" where
  "srt_connection fl u listeningSock =
     (let isListening = (listeningSock \<noteq> None) in
      bindP (case listeningSock of
               None \<Rightarrow> tryP (srt_ctor fl u)
             | Some (Sock_srt s) \<Rightarrow> Ret (Inr s)
             | Some _ \<Rightarrow> Exc (Undefined ''dynamic_cast'')) (\<lambda>x.
      case x of
        Inl e \<Rightarrow> Ret (Inl e, listeningSock)
      | Inr s \<Rightarrow>
          let listeningSock = Some (Sock_srt s); accept = (ss_mode s = LISTENER) in
          bindP (tryP (if accept \<and> \<not> isListening then srt_listen fl s else Ret ())) (\<lambda>l.
          case l of
            Inl e \<Rightarrow> Ret (Inl e, listeningSock)
          | Inr _ \<Rightarrow> srt_establish fl s)))"

definition create_connection ::
  "build_flags \<Rightarrow> uri list \<Rightarrow> sock option \<Rightarrow> ((cpp_exn + sock) \<times> sock option) sprog" where
  "create_connection fl parsedUrls listeningSock =
     (if parsedUrls = [] then Ret (Inl (Socket_exception ''No URL was provided''), listeningSock)
      else if length parsedUrls > 1 \<or> cmap_count (parameters (parsedUrls ! 0)) ''grouptype'' then
        (if ENABLE_BONDING fl then group_connection fl parsedUrls listeningSock
         else Ret (Inl (Socket_exception ''Use -DENABLE_BONDING=ON to enable socket groups!''), listeningSock))
      else
        let u = parsedUrls ! 0 in
        if m_uriType u = UDP then bindP (tryP (udp_ctor u)) (\<lambda>x. Ret (x, listeningSock))
        else if m_uriType u = SRT then srt_connection fl u listeningSock
        else Ret (Inl (Socket_exception (''Unknown protocol '' @ [CHR 0x27] @ m_proto u @ [CHR 0x27] @ ''.'')), listeningSock))"

text \<open>The form with a temporary \<^verbatim>\<open>listeningSock\<close>, destroyed on return.\<close>

definition create_connection_temp :: "build_flags \<Rightarrow> uri list \<Rightarrow> (cpp_exn + sock) sprog" where
  "create_connection_temp fl uris =
     bindP (create_connection fl uris None) (\<lambda>(res, temp_sock). bindP (reset_ptr temp_sock) (\<lambda>_. Ret res))"

subsection \<open>The reconnecting driver\<close>

record stats_config =
  stats_freq_ms :: int
  stats_file :: string
  stats_format :: string

definition stats_config0 :: stats_config where
  "stats_config0 = \<lparr>stats_freq_ms = 0, stats_file = '''', stats_format = ''csv''\<rparr>"

text \<open>The loop state: the listening socket and the earliest time of the next attempt (microseconds).\<close>

record run_state =
  listening_sock :: "sock option"
  next_reconnect :: int

definition processing_step :: "bool \<Rightarrow> (sock \<Rightarrow> unit sprog) \<Rightarrow> sock \<Rightarrow> unit sprog" where
  "processing_step stats processingFn conn =
     bindP (if stats then bindP (os (Stats_add_socket (isock_id conn))) (\<lambda>_. Ret ()) else Ret ()) (\<lambda>_.
     bindP (tryP (processingFn conn)) (\<lambda>x.
     case x of
       Inr _ \<Rightarrow>
         bindP (if stats then bindP (os (Stats_remove_socket (isock_id conn))) (\<lambda>_. Ret ()) else Ret ()) (\<lambda>_. isock_dtor conn)
     | Inl e \<Rightarrow>
         bindP (if stats then Ret () else isock_dtor conn) (\<lambda>_. if is_socket_exn e then Ret () else Exc e)))"

text \<open>One attempt: connect, then process.\<close>

definition run_attempt ::
  "build_flags \<Rightarrow> uri list \<Rightarrow> bool \<Rightarrow> bool \<Rightarrow> (sock \<Rightarrow> unit sprog) \<Rightarrow> run_state \<Rightarrow> run_state sprog" where
  "run_attempt fl parsedUrls stats closeListener processingFn st =
     bindP (create_connection fl parsedUrls (listening_sock st)) (\<lambda>(res, lst).
     let st = st\<lparr>listening_sock := lst\<rparr> in
     case res of
       Inl e \<Rightarrow> if is_socket_exn e then Ret st else Exc e
     | Inr conn \<Rightarrow>
         bindP (if closeListener then bindP (reset_ptr (listening_sock st)) (\<lambda>_. Ret (st\<lparr>listening_sock := None\<rparr>)) else Ret st) (\<lambda>st.
         bindP (processing_step stats processingFn conn) (\<lambda>_. Ret st)))"

text \<open>The body of the do-while loop up to its condition.\<close>

definition run_iteration ::
  "build_flags \<Rightarrow> uri list \<Rightarrow> bool \<Rightarrow> bool \<Rightarrow> (sock \<Rightarrow> unit sprog) \<Rightarrow> run_state \<Rightarrow> run_state sprog" where
  "run_iteration fl parsedUrls stats closeListener processingFn st =
     bindP (os Clock_now) (\<lambda>tn.
     let tnow = r_int tn in
     bindP (if tnow < next_reconnect st then bindP (os (Sleep_until (next_reconnect st))) (\<lambda>_. Ret ()) else Ret ()) (\<lambda>_.
     run_attempt fl parsedUrls stats closeListener processingFn (st\<lparr>next_reconnect := tnow + 1000000\<rparr>)))"

definition run_loop ::
  "nat \<Rightarrow> build_flags \<Rightarrow> uri list \<Rightarrow> bool \<Rightarrow> bool \<Rightarrow> bool \<Rightarrow> (sock \<Rightarrow> unit sprog) \<Rightarrow> run_state \<Rightarrow> unit sprog" where
  "run_loop fuel fl parsedUrls stats reconnect closeListener processingFn st =
     loopP fuel (\<lambda>st.
       bindP (run_iteration fl parsedUrls stats closeListener processingFn st) (\<lambda>st.
       if reconnect then
         bindP load_force_break (\<lambda>brk.
           if \<not> brk then Ret (Inl st) else bindP (reset_ptr (listening_sock st)) (\<lambda>_. Ret (Inr ())))
       else bindP (reset_ptr (listening_sock st)) (\<lambda>_. Ret (Inr ())))) st"

definition common_run ::
  "nat \<Rightarrow> build_flags \<Rightarrow> string list \<Rightarrow> stats_config \<Rightarrow> bool \<Rightarrow> bool \<Rightarrow> (sock \<Rightarrow> unit sprog) \<Rightarrow> unit sprog" where
  "common_run fuel fl urls cfg reconnect closeListener processingFn =
     (if urls = [] then Ret ()
      else
        let writeStats = (stats_file cfg \<noteq> '''' \<and> stats_freq_ms cfg > 0);
            parsedUrls = map (\<lambda>url. Parse url EXPECT_FILE) urls;
            go = bindP (os Clock_now) (\<lambda>tn.
              run_loop fuel fl parsedUrls writeStats reconnect closeListener processingFn
                \<lparr>listening_sock = None, next_reconnect = r_int tn\<rparr>)
        in if writeStats then
             bindP (os (Stats_open (stats_file cfg) (stats_format cfg) (stats_freq_ms cfg))) (\<lambda>r.
               if r_int r < 0 then Ret () else go)
           else go)"

subsection \<open>The dispatch keeps the contract of the interface\<close>

lemma udp_read_contract:
  assumes "runs (isock_read (Sock_udp u) n t) tr out"
  shows "out_messages tr = [] \<and> refused_sends tr = 0 \<and> (recv_contract tr \<longrightarrow>
     (case out of
         Ok (k, bs) \<Rightarrow> k = length bs \<and> k \<le> n \<and> in_messages tr = nonempty bs
       | Raised e \<Rightarrow> is_socket_exn e \<and> in_messages tr = []
       | Fuel_out \<Rightarrow> False))"
  using assms
  by (auto simp: runs_call_simps message_defs nonempty_def recv_contract_def recv_ok_def is_socket_exn_def SRT_ERROR_def
      simp del: runs.simps(4) split: if_splits)

lemma udp_write_contract:
  assumes "runs (isock_write (Sock_udp u) m t) tr out"
  shows "in_messages tr = [] \<and> recv_contract tr \<and>
    (case out of
         Ok k \<Rightarrow> out_messages tr = [m] \<and> refused_sends tr = 0 \<or> k = 0 \<and> out_messages tr = [] \<and> refused_sends tr = 1
       | Raised e \<Rightarrow> is_socket_exn e \<and> out_messages tr = [] \<and> refused_sends tr \<le> 1
       | Fuel_out \<Rightarrow> False)"
  using assms
  by (auto simp: runs_call_simps message_defs recv_contract_def recv_ok_def is_socket_exn_def
      simp del: runs.simps(4) split: if_splits)

lemma isock_read_contract:
  assumes run: "runs (isock_read s n t) tr out" and c: "recv_contract tr"
  shows "case out of
      Ok (k, bs) \<Rightarrow> k = length bs \<and> k \<le> n \<and> in_messages tr = nonempty bs
    | Raised e \<Rightarrow> is_socket_exn e \<and> in_messages tr = []
    | Fuel_out \<Rightarrow> False"
proof (cases s)
  case (Sock_srt x)
  with run c srt_sock.rd_result show ?thesis by simp
next
  case (Sock_group x)
  with run c srt_grp.rd_result show ?thesis by simp
next
  case (Sock_udp x)
  with run c udp_read_contract show ?thesis by blast
qed

lemma isock_write_contract:
  assumes run: "runs (isock_write s m t) tr out"
  shows "in_messages tr = [] \<and> recv_contract tr \<and> (case out of
      Ok k \<Rightarrow> out_messages tr = [m] \<and> refused_sends tr = 0 \<or> k = 0 \<and> out_messages tr = [] \<and> refused_sends tr = 1
    | Raised e \<Rightarrow> is_socket_exn e \<and> out_messages tr = [] \<and> refused_sends tr \<le> 1
    | Fuel_out \<Rightarrow> False)"
proof (cases s)
  case (Sock_srt x)
  with run runs_srt_write show ?thesis by simp
next
  case (Sock_group x)
  with run runs_group_write show ?thesis by simp
next
  case (Sock_udp x)
  with run udp_write_contract show ?thesis by blast
qed

primrec isock_end :: "sock \<Rightarrow> endpoint" where
  "isock_end (Sock_srt s) = srt_end s"
| "isock_end (Sock_group g) = group_end g"
| "isock_end (Sock_udp u) = Udp_end u"

interpretation isk: isocket isock_read isock_write isock_end
proof
  fix s n t tr and out :: "(nat \<times> bytes) outcome"
  assume run: "runs (isock_read s n t) tr out"
  show "out_messages tr = [] \<and> refused_sends tr = 0"
    using run srt_sock.rd_sends_nothing srt_grp.rd_sends_nothing udp_read_contract by (cases s) auto
  assume "recv_contract tr"
  with run show "case out of
         Ok (k, bs) \<Rightarrow> k = length bs \<and> k \<le> n \<and> in_messages tr = nonempty bs
       | Raised e \<Rightarrow> is_socket_exn e \<and> in_messages tr = []
       | Fuel_out \<Rightarrow> False"
    by (rule isock_read_contract)
next
  fix s m t tr and out :: "int outcome"
  assume run: "runs (isock_write s m t) tr out"
  from isock_write_contract[OF run] show "case out of
         Ok k \<Rightarrow> out_messages tr = [m] \<and> refused_sends tr = 0 \<or> k = 0 \<and> out_messages tr = [] \<and> refused_sends tr = 1
       | Raised e \<Rightarrow> is_socket_exn e \<and> out_messages tr = [] \<and> refused_sends tr \<le> 1
       | Fuel_out \<Rightarrow> False"
    and "in_messages tr = [] \<and> recv_contract tr"
    by simp_all
next
  show "loop_free (isock_read s n t)" for s n t
    by (cases s) (auto simp: srt_sock.rd_loop_free srt_grp.rd_loop_free intro!: confined_intros)
  show "loop_free (isock_write s m t)" for s m t
    by (cases s) (auto simp: srt_sock.wr_loop_free srt_grp.wr_loop_free intro!: confined_intros)
  show "confined (moves {isock_end s} {}) is_socket_exn (isock_read s n t)" for s n t
    by (cases s) (auto simp: srt_sock.rd_moves srt_grp.rd_moves is_socket_exn_def)
  show "confined (moves {} {isock_end s}) is_socket_exn (isock_write s m t)" for s m t
    by (cases s) (auto simp: srt_sock.wr_moves srt_grp.wr_moves is_socket_exn_def)
qed

lemma flag_event_messages [simp]:
  "in_messages ((Os (Load_flag f), r) # t) = in_messages t" "out_messages ((Os (Load_flag f), r) # t) = out_messages t"
  "refused_sends ((Os (Load_flag f), r) # t) = refused_sends t"
  "recv_contract ((Os (Load_flag f), r) # t) \<longleftrightarrow> recv_contract t"
  by (simp_all add: message_defs recv_contract_def recv_ok_def)

subsection \<open>A refused listen\<close>

definition listen_call :: "call \<Rightarrow> bool" where
  "listen_call c = (case c of Srt (Srt_listen s n) \<Rightarrow> True | _ \<Rightarrow> False)"

definition listen_refused :: "strace \<Rightarrow> bool" where
  "listen_refused tr \<longleftrightarrow> list_ex (\<lambda>e. listen_call (fst e) \<and> r_int (snd e) = SRT_ERROR) tr"

lemma not_listen_refused: "list_all (\<lambda>e. \<not> listen_call (fst e)) tr \<Longrightarrow> \<not> listen_refused tr"
  by (auto simp: listen_refused_def list_ex_iff list_all_iff)

lemma keeps_not_listen: "keeps_sockets c \<Longrightarrow> \<not> listen_call c"
  by (auto simp: keeps_sockets_def listen_call_def split: call.splits srt_call.splits)

lemma not_listen_call [simp]:
  "\<not> listen_call (Srt Srt_create_socket)" "\<not> listen_call (Srt (Srt_bind s a l))" "\<not> listen_call (Srt (Srt_close s))"
  "\<not> listen_call (Srt Srt_getlasterror)" "\<not> listen_call (Srt Srt_getlasterror_str)" "\<not> listen_call (Srt (Srt_accept s))"
  "\<not> listen_call (Srt (Srt_epoll_wait e b1 b2 t))" "\<not> listen_call (Srt (Srt_connect s a l))"
  "\<not> listen_call (Srt (Srt_getrejectreason s))" "\<not> listen_call (Srt (Srt_rejectreason_str k))"
  "\<not> listen_call (Srt (Srt_getsockstate s))" "\<not> listen_call (Srt Srt_epoll_create)"
  "\<not> listen_call (Srt (Srt_epoll_add_usock e s m))" "\<not> listen_call (Srt (Srt_getsockflag s p))"
  "\<not> listen_call (Srt (Srt_epoll_release e))"
  by (simp_all add: listen_call_def)

lemma confined_keeps_not_listen: "confined keeps_sockets E p \<Longrightarrow> confined (\<lambda>c. \<not> listen_call c) E p"
  by (erule confined_mono) (auto dest: keeps_not_listen)

lemmas no_listen_parts =
  confined_create_addr[THEN confined_keeps_not_listen] confined_configure_pre[THEN confined_keeps_not_listen]
  confined_setup_epolls[THEN confined_keeps_not_listen] confined_assert_options_valid[THEN confined_keeps_not_listen]

lemma confined_configure_post: "confined keeps_sockets E (configure_post fl s self)"
  by (auto simp: configure_post_def SrtConfigurePost_def Let_def intro!: confined_intros confined_configure_step
      split: prod.splits)

lemma confined_srt_ctor_no_listen: "confined (\<lambda>c. \<not> listen_call c) (\<lambda>_. True) (srt_ctor fl u)"
proof -
  have hh: "confined (\<lambda>c. \<not> listen_call c) (\<lambda>_. True) (handle_hosts self)" for self
    by (auto simp: handle_hosts_def create_addr_or_eq bind_me_def Let_def intro!: confined_intros no_listen_parts
        confined_raise_exception split: option.splits sum.splits prod.splits)
  show ?thesis
    by (auto simp: srt_ctor_def Let_def intro!: confined_intros no_listen_parts hh confined_throw_lasterror split: prod.splits)
qed

lemma confined_print_config: "confined (\<lambda>c. \<not> listen_call c) E (print_negotiated_config fl s)"
  by (rule confined_mono[OF confined_getsockflag_config]) auto

lemma confined_establish_no_listen:
  "confined (\<lambda>c. \<not> listen_call c) (\<lambda>_. True) (srt_accept fl s)"
  "confined (\<lambda>c. \<not> listen_call c) (\<lambda>_. True) (srt_connect fl s)"
proof -
  note post = confined_configure_post[THEN confined_keeps_not_listen]
  show "confined (\<lambda>c. \<not> listen_call c) (\<lambda>_. True) (srt_accept fl s)"
    by (auto simp: srt_accept_def srt_of_sock_def Let_def intro!: confined_intros post confined_print_config
        confined_raise_exception confined_throw_lasterror)
  show "confined (\<lambda>c. \<not> listen_call c) (\<lambda>_. True) (srt_connect fl s)"
    by (auto simp: srt_connect_def create_addr_or_eq wait_connected_def intro!: confined_intros post confined_print_config
        no_listen_parts confined_raise_exception)
qed

lemma confined_srt_establish: "confined (\<lambda>c. \<not> listen_call c) (\<lambda>_. True) (srt_establish fl s)"
  by (auto simp: srt_establish_def Let_def reset_ptr_def srt_dtor_def intro!: confined_intros confined_tryP
      confined_establish_no_listen split: sum.splits)

text \<open>Once there is a listening socket object, no further attempt listens.\<close>

lemma confined_srt_connection_reuse:
  "confined (\<lambda>c. \<not> listen_call c) (\<lambda>_. True) (srt_connection fl u (Some (Sock_srt s)))"
  by (auto simp: srt_connection_def Let_def intro!: confined_intros confined_tryP
      confined_srt_establish split: sum.splits)

lemma runs_srt_listen_refused:
  assumes "runs (srt_listen fl self) tr out" and "listen_refused tr"
  shows "ss_bind_socket self \<in> set (closed_sockets tr) \<and> (\<exists>m. out = Raised (Socket_exception m))"
proof -
  from assms(1) obtain r :: reply and t where tr: "tr = (Srt (Srt_listen (ss_bind_socket self) 2), r) # t"
    and t: "runs (bindP (if r_int r = SRT_ERROR
            then bindP (srt (Srt_close (ss_bind_socket self))) (\<lambda>_. raise_exception ''listen'')
            else Ret ()) (\<lambda>_.
     bindP (configure_post fl (ss_bind_socket self) self) (\<lambda>res.
       if res = SRT_ERROR then raise_exception ''listen::configure_post'' else Ret ()))) t out"
    unfolding srt_listen_def bindP_callP runs_Call by blast
  show ?thesis
  proof (cases "r_int r = SRT_ERROR")
    case True
    with t show ?thesis
      by (auto simp: tr runs_call_simps projection_defs simp del: runs.simps(4))
  next
    case False
    let ?p = "bindP (configure_post fl (ss_bind_socket self) self) (\<lambda>res.
       if res = SRT_ERROR then raise_exception ''listen::configure_post'' else Ret ())"
    have "confined (\<lambda>c. \<not> listen_call c) (\<lambda>_. True) ?p"
      by (auto intro!: confined_intros confined_configure_post[THEN confined_keeps_not_listen] confined_raise_exception)
    moreover from False t have "runs ?p t out" by simp
    ultimately have "\<not> listen_refused t"
      by (intro not_listen_refused) (rule confined_runs)
    with assms(2) False show ?thesis by (simp add: tr listen_refused_def)
  qed
qed

text \<open>Where a refused listen happens in a first attempt.\<close>

lemma runs_srt_connection_refused:
  assumes "runs (srt_connection fl u None) tr (Ok (res, lst))" and "listen_refused tr"
  shows "\<exists>s t. ss_mode s = LISTENER \<and> ss_bind_socket s \<in> set (closed_sockets tr) \<and> lst = Some (Sock_srt s)"
proof -
  let ?listen = "\<lambda>s. tryP (if ss_mode s = LISTENER then srt_listen fl s else Ret ())"
  let ?rest = "\<lambda>s l. case l of Inl e \<Rightarrow> Ret (Inl e, Some (Sock_srt s)) | Inr _ \<Rightarrow> srt_establish fl s"
  from assms(1) obtain x t1 t2 where tr: "tr = t1 @ t2" and c: "runs (tryP (srt_ctor fl u)) t1 (Ok x)"
    and r: "runs (case x of Inl e \<Rightarrow> Ret (Inl e, None) | Inr s \<Rightarrow> bindP (?listen s) (?rest s)) t2 (Ok (res, lst))"
    unfolding srt_connection_def Let_def by (simp add: runs_bindP_Ok) blast
  have "\<not> listen_refused t1"
    by (intro not_listen_refused confined_runs[OF confined_tryP[OF confined_srt_ctor_no_listen] c])
  then have ref: "listen_refused t2"
    using assms(2) by (simp add: tr listen_refused_def)
  with r obtain s where x: "x = Inr s" by (cases x) (auto simp: listen_refused_def)
  with r obtain l t3 t4 where t2: "t2 = t3 @ t4" and l: "runs (?listen s) t3 (Ok l)" and r4: "runs (?rest s l) t4 (Ok (res, lst))"
    by (auto simp: runs_bindP_Ok)
  have "confined (\<lambda>c. \<not> listen_call c) (\<lambda>_. True) (?rest s l)"
    by (auto intro: confined_srt_establish split: sum.splits)
  from not_listen_refused[OF confined_runs[OF this r4]] have ref3: "listen_refused t3"
    using ref by (simp add: t2 listen_refused_def)
  then have mode: "ss_mode s = LISTENER"
    using l by (auto simp: listen_refused_def split: if_splits)
  with l obtain o' where o': "runs (srt_listen fl s) t3 o'" "l = (case o' of Ok y \<Rightarrow> Inr y | Raised e' \<Rightarrow> Inl e' | Fuel_out \<Rightarrow> l)"
    by (auto simp: runs_tryP)
  from runs_srt_listen_refused[OF o'(1) ref3] o'(2) r4 have "lst = Some (Sock_srt s)" by auto
  moreover have "ss_bind_socket s \<in> set (closed_sockets tr)"
    using runs_srt_listen_refused[OF o'(1) ref3] by (simp add: tr t2 trace_projections_append)
  ultimately show ?thesis using mode by blast
qed

text \<open>C37: after a refused \<^verbatim>\<open>srt_listen\<close> the program keeps a listening socket whose handle it has already
  closed, and no later attempt to create the connection listens again: every one waits on, or accepts
  from, the closed handle.\<close>

theorem stale_listener:
  assumes "runs (create_connection fl [u] None) tr (Ok (res, lst))" and "listen_refused tr"
    and "m_uriType u = SRT" and "\<not> cmap_count (parameters u) ''grouptype''"
  shows "\<exists>s. lst = Some (Sock_srt s) \<and> ss_mode s = LISTENER \<and> ss_bind_socket s \<in> set (closed_sockets tr) \<and>
     (\<forall>tr' out. runs (create_connection fl [u] lst) tr' out \<longrightarrow> list_all (\<lambda>e. \<not> listen_call (fst e)) tr')"
proof -
  have cc: "create_connection fl [u] l = srt_connection fl u l" for l
    using assms(3,4) by (simp add: create_connection_def)
  from runs_srt_connection_refused[OF assms(1)[unfolded cc] assms(2)] show ?thesis
    using confined_runs[OF confined_srt_connection_reuse] by (auto simp: cc)
qed

definition lst_blk_uri :: uri where
  "lst_blk_uri = lst_uri\<lparr>m_mapQuery := [(''blocking'', ''yes'')]\<rparr>"

definition refuse_listen :: "strace \<Rightarrow> call \<Rightarrow> reply" where
  "refuse_listen h c = (if listen_call c then rint (-1) else rint 0)"

theorem stale_listener_witness:
  "\<exists>res s. runs (create_connection fl0 [lst_blk_uri] None) (fst (exec (create_connection fl0 [lst_blk_uri] None) refuse_listen []))
     (Ok (res, Some (Sock_srt s))) \<and> ss_bind_socket s \<in> set (closed_sockets (fst (exec (create_connection fl0 [lst_blk_uri] None) refuse_listen [])))"
proof -
  let ?p = "create_connection fl0 [lst_blk_uri] None"
  let ?e = "exec ?p refuse_listen []"
  note defs = create_connection_def lst_blk_uri_def lst_uri_def ok_uri_def cmap_count_def srt_connection_def srt_ctor_def
    take_blocking_def cmap_get_def cmap_erase_def srt_sock0_def false_names_def assert_options_valid_def configure_pre_def
    SrtConfigurePre_def set_linger_def SrtInterpretMode_def foldP_no_options srt_consts setup_epolls_def handle_hosts_def
    create_addr_or_eq create_addr_def create_addr_family_def bind_me_def srt_listen_def raise_exception_def throw_socket_def
    refuse_listen_def listen_call_def Let_def af_defs listen_refused_def
  have "\<exists>e lst. snd ?e = Ok (Inl e, lst)" and ref: "listen_refused (fst ?e)"
    by (simp_all add: defs)
  then obtain e lst where run: "runs ?p (fst ?e) (Ok (Inl e, lst))"
    using runs_exec[of ?p refuse_listen "[]"] by auto
  have "m_uriType lst_blk_uri = SRT" "\<not> cmap_count (parameters lst_blk_uri) ''grouptype''"
    by (simp_all add: lst_blk_uri_def lst_uri_def ok_uri_def cmap_count_def)
  from stale_listener[OF run ref this] run show ?thesis by blast
qed

subsection \<open>The driver\<close>

lemma loop_free_create_addr: "loop_free (create_addr name port)"
proof -
  have "loop_free (try_families fs n p)" for fs n p by (induction fs) simp_all
  then show ?thesis
    by (auto simp: create_addr_def create_addr_family_def Let_def intro!: confined_intros split: option.splits)
qed

lemma loop_free_create_addr_family: "loop_free (create_addr_family name port f)"
proof -
  have "loop_free (try_families fs n p)" for fs n p by (induction fs) simp_all
  then show ?thesis
    by (auto simp: create_addr_family_def Let_def intro!: confined_intros split: option.splits)
qed

lemma loop_free_post: "loop_free (configure_post fl s self)" "loop_free (group_configure_post fl s i g)"
  "loop_free (group_configure_pre fl s i g)" "loop_free (print_negotiated_config fl s)"
  by (auto simp: configure_post_def group_configure_post_def group_configure_pre_def configure_link_def SrtConfigurePost_def
      configure_step_def apply_option_def print_negotiated_config_def latency_str_def get_sock_value_def Let_def
      intro!: confined_intros loop_free_SrtConfigurePre split: option.splits prod.splits)

lemma loop_free_handle_hosts: "loop_free (handle_hosts self)"
  by (auto simp: handle_hosts_def create_addr_or_eq bind_me_def Let_def intro!: confined_intros loop_free_create_addr
      split: option.splits sum.splits prod.splits)

lemma loop_free_srt_ctor: "loop_free (srt_ctor fl u)"
  by (auto simp: srt_ctor_def assert_options_valid_def Let_def intro!: confined_intros loop_free_configure_pre
      loop_free_setup_epolls loop_free_handle_hosts split: prod.splits option.splits)

lemma loop_free_srt_accept: "loop_free (srt_accept fl s)"
  by (auto simp: srt_accept_def srt_of_sock_def Let_def intro!: confined_intros loop_free_post)

lemma loop_free_srt_connect: "loop_free (srt_connect fl s)"
  by (auto simp: srt_connect_def create_addr_or_eq wait_connected_def intro!: confined_intros loop_free_post loop_free_create_addr)

lemma loop_free_srt_establish: "loop_free (srt_establish fl s)"
  by (auto simp: srt_establish_def Let_def reset_ptr_def srt_dtor_def
      intro!: confined_intros loop_free_tryP loop_free_srt_accept loop_free_srt_connect split: sum.splits)

lemma loop_free_group_ctor: "loop_free (group_ctor fl uris)"
proof -
  have t: "loop_free (create_target u g)" for u g
    by (auto simp: create_target_def create_addr_or_eq try_bind_def lift_exn_def Let_def
        intro!: confined_intros loop_free_create_addr loop_free_catchP loop_free_create_addr_family split: option.splits sum.splits cpp_exn.splits)
  have l: "loop_free (create_listener fl iu g)" for iu g
    unfolding create_listener_def Let_def
    by (intro confined_intros loop_free_post loop_free_create_addr) simp_all
  have c: "loop_free (create_callers fl uris gtype g)" for gtype g
    unfolding create_callers_def subscribe_callers_def Let_def
    by (intro confined_intros loop_free_post t) simp_all
  have e: "loop_free (group_setup_epolls g)" for g
    by (auto simp: group_setup_epolls_def Let_def intro!: confined_intros)
  show ?thesis
    unfolding group_ctor_def Let_def create_listeners_def
    by (intro confined_intros l c e)
      (auto simp: lift_exn_def assert_options_valid_def split: sum.splits option.splits)
qed

lemma loop_free_group_dtor: "loop_free (group_dtor g)"
  by (auto simp: group_dtor_def release_targets_def release_listeners_def intro!: confined_intros)

lemma loop_free_group_connection: "loop_free (group_connection fl uris lst)"
proof -
  have a: "loop_free (accept_sock s)" for s
    by (auto simp: accept_sock_def intro!: confined_intros split: list.splits)
  have "loop_free (group_accept fl s)" "loop_free (group_connect fl s)" "loop_free (group_listen s)" for s
    by (auto simp: group_accept_def group_of_accepted_def group_connect_def group_listen_def set_listen_callback_def
        Let_def intro!: confined_intros a loop_free_post)
  then show ?thesis
    by (auto simp: group_connection_def Let_def intro!: confined_intros loop_free_tryP loop_free_group_ctor
        split: option.splits sock.splits sum.splits)
qed

lemma loop_free_create_connection: "loop_free (create_connection fl uris lst)"
proof -
  have "loop_free (srt_connection fl u lst)" for u
    by (auto simp: srt_connection_def srt_listen_def Let_def intro!: confined_intros loop_free_tryP loop_free_srt_ctor
        loop_free_srt_establish loop_free_post split: option.splits sock.splits sum.splits)
  then show ?thesis
    by (auto simp: create_connection_def udp_ctor_def Let_def intro!: confined_intros loop_free_tryP loop_free_group_connection)
qed

lemma loop_free_isock_dtor: "loop_free (isock_dtor s)" "loop_free (reset_ptr p)"
proof -
  show "loop_free (isock_dtor s)" for s
    by (cases s) (auto simp: srt_dtor_def loop_free_group_dtor intro!: confined_intros)
  then show "loop_free (reset_ptr p)"
    by (auto simp: reset_ptr_def split: option.splits)
qed

lemma runs_out_run_iteration:
  assumes "\<And>conn. runs_out_after k (fn conn)"
  shows "runs_out_after k (run_iteration fl uris stats cl fn st)"
proof -
  have d: "runs_out_after k (isock_dtor s)" "runs_out_after k (reset_ptr p)" for s p
    by (simp_all add: loop_free_runs_out loop_free_isock_dtor)
  have ps: "runs_out_after k (processing_step stats fn conn)" for conn
    unfolding processing_step_def
    by (intro runs_out_intros assms)
      (auto intro!: runs_out_intros d simp del: bindP_callP bindP_if split: sum.splits)
  have cc: "runs_out_after k (create_connection fl uris l)" for l
    by (rule loop_free_runs_out[OF loop_free_create_connection])
  show ?thesis
    unfolding run_iteration_def run_attempt_def Let_def
    by (intro runs_out_intros cc)
      (auto intro!: runs_out_intros ps d simp del: bindP_callP bindP_if split: sum.splits prod.splits)
qed

lemma runs_out_run_loop:
  assumes "\<And>conn. runs_out_after fuel (fn conn)"
  shows "runs_out_after fuel (run_loop fuel fl uris stats reconnect cl fn st)"
  unfolding run_loop_def
proof (rule runs_out_loopP)
  have d: "runs_out_after fuel (reset_ptr p)" for p
    by (simp add: loop_free_runs_out loop_free_isock_dtor)
  show "runs_out_after fuel (bindP (run_iteration fl uris stats cl fn s) (\<lambda>st.
       if reconnect then
         bindP load_force_break (\<lambda>brk.
           if \<not> brk then Ret (Inl st) else bindP (reset_ptr (listening_sock st)) (\<lambda>_. Ret (Inr ())))
       else bindP (reset_ptr (listening_sock st)) (\<lambda>_. Ret (Inr ()))))" for s
    by (intro runs_out_intros runs_out_run_iteration assms d) simp_all
next
  fix s t s'
  assume "runs (bindP (run_iteration fl uris stats cl fn s) (\<lambda>st.
       if reconnect then
         bindP load_force_break (\<lambda>brk.
           if \<not> brk then Ret (Inl st) else bindP (reset_ptr (listening_sock st)) (\<lambda>_. Ret (Inr ())))
       else bindP (reset_ptr (listening_sock st)) (\<lambda>_. Ret (Inr ())))) t (Ok (Inl s'))"
  then show "1 \<le> false_reads t"
    by (auto simp: runs_bindP_Ok split: if_splits)
qed

lemma runs_out_common_run:
  assumes "\<And>conn. runs_out_after fuel (fn conn)"
  shows "runs_out_after fuel (common_run fuel fl urls cfg reconnect cl fn)"
  unfolding common_run_def Let_def
  by (intro runs_out_intros runs_out_run_loop assms) simp_all

lemma runs_run_attempt_next:
  "runs (run_attempt fl uris stats cl fn st) tr (Ok st') \<Longrightarrow> next_reconnect st' = next_reconnect st"
  by (auto simp: run_attempt_def Let_def runs_bindP_Ok split: if_splits sum.splits prod.splits)

text \<open>The pause between attempts. Each turn reads the clock, waits until the attempt is due, and makes
  the next one due one second after the time it read; so when it had to wait, the next attempt is due
  less than a second after this one starts.\<close>

theorem run_iteration_pacing:
  assumes "runs (run_iteration fl uris stats cl fn st) tr (Ok st')"
  shows "\<exists>tn. tr ! 0 = (Os Clock_now, tn) \<and> next_reconnect st' = r_int tn + 1000000 \<and>
     (r_int tn < next_reconnect st \<longrightarrow>
        fst (tr ! 1) = Os (Sleep_until (next_reconnect st)) \<and> next_reconnect st' < next_reconnect st + 1000000)"
proof -
  from assms obtain tn :: reply and t where tr: "tr = (Os Clock_now, tn) # t"
    and t: "runs (bindP (if r_int tn < next_reconnect st then bindP (os (Sleep_until (next_reconnect st))) (\<lambda>_. Ret ()) else Ret ()) (\<lambda>_.
       run_attempt fl uris stats cl fn (st\<lparr>next_reconnect := r_int tn + 1000000\<rparr>))) t (Ok st')"
    unfolding run_iteration_def Let_def bindP_callP[of "Os Clock_now"] runs_Call by blast
  have "next_reconnect st' = r_int tn + 1000000"
  proof -
    from t obtain t1 where "runs (run_attempt fl uris stats cl fn (st\<lparr>next_reconnect := r_int tn + 1000000\<rparr>)) t1 (Ok st')"
      unfolding runs_bindP_Ok by blast
    from runs_run_attempt_next[OF this] show ?thesis by simp
  qed
  moreover have "fst (t ! 0) = Os (Sleep_until (next_reconnect st))" if "r_int tn < next_reconnect st"
    using t that by (auto simp: runs_Call simp del: runs.simps(4))
  ultimately show ?thesis by (simp add: tr)
qed

definition wait_env :: "strace \<Rightarrow> call \<Rightarrow> reply" where
  "wait_env h c = (case c of Os Clock_now \<Rightarrow> rint 10000 | _ \<Rightarrow> rint 0)"

theorem run_iteration_pacing_witness:
  "\<exists>st'. snd (exec (run_iteration fl0 [] False False (\<lambda>_. Ret ()) \<lparr>listening_sock = None, next_reconnect = 1000000\<rparr>) wait_env []) = Ok st' \<and>
     next_reconnect st' = 1010000"
proof -
  let ?p = "run_iteration fl0 [] False False (\<lambda>_. Ret ()) \<lparr>listening_sock = None, next_reconnect = 1000000\<rparr>"
  let ?e = "exec ?p wait_env []"
  have ok: "\<exists>st'. snd ?e = Ok st'" and h: "fst ?e ! 0 = (Os Clock_now, rint 10000)"
    by (simp_all add: run_iteration_def run_attempt_def create_connection_def is_socket_exn_def wait_env_def Let_def)
  then obtain st' where st: "snd ?e = Ok st'" by blast
  then have "runs ?p (fst ?e) (Ok st')" using runs_exec[of ?p wait_env "[]"] by simp
  from run_iteration_pacing[OF this] h st show ?thesis by auto
qed

subsection \<open>The calls of the sockets\<close>

text \<open>Reading and writing only call the transport: no flag, clock, file, random number or thread.\<close>

definition transport_call :: "call \<Rightarrow> bool" where
  "transport_call c = (case c of Srt x \<Rightarrow> True | Os (Udp_read u n) \<Rightarrow> True | Os (Udp_write u m) \<Rightarrow> True | _ \<Rightarrow> False)"

lemma transport_call_simps [simp]:
  "transport_call (Srt x)" "transport_call (Os (Udp_read u n))" "transport_call (Os (Udp_write u m))"
  by (simp_all add: transport_call_def)

lemma confined_isock_read: "confined transport_call (\<lambda>_. True) (isock_read s n t)"
proof (cases s)
  case (Sock_group g)
  then show ?thesis
    by (auto simp: group_read_as_sock srt_read_def raise_exception_def Let_def intro!: confined_intros)
qed (auto simp: srt_read_def raise_exception_def Let_def intro!: confined_intros)

lemma confined_isock_write: "confined transport_call (\<lambda>_. True) (isock_write s m t)"
  by (cases s)
    (auto simp: srt_write_def group_write_def raise_exception_def raise_exception_reason_def intro!: confined_intros)

lemma filter_transport:
  assumes "confined transport_call E p" and "runs p tr out" and "\<And>c r. P (c, r) \<Longrightarrow> \<not> transport_call c"
  shows "filter P tr = []"
  using confined_runs[OF assms(1,2)] assms(3) by (auto simp: filter_empty_conv list_all_iff)

end
