(* ===== verification/Route.thy ===== *)
theory Route
  imports Connection
begin

text \<open>
  The \<^verbatim>\<open>route\<close> command (\<^verbatim>\<open>route.cpp\<close>): messages read from one socket are written to another, in one or both
  directions. The backward direction runs in a thread of its own: starting it and waiting for it are
  calls, what it does is the same function \<open>route\<close> with the sockets exchanged.
\<close>

record route_config =
  rt_message_size :: int
  rt_bidir :: bool
  rt_close_listener :: bool
  rt_stats_freq_ms :: int
  rt_stats_file :: string
  rt_stats_format :: string

definition route_config0 :: route_config where
  "route_config0 = \<lparr>rt_message_size = 1456, rt_bidir = False, rt_close_listener = False,
     rt_stats_freq_ms = 0, rt_stats_file = '''', rt_stats_format = ''csv''\<rparr>"

definition route_turn :: "sock \<Rightarrow> sock \<Rightarrow> nat \<Rightarrow> (unit + unit) sprog" where
  "route_turn sock_src sock_dst n =
     bindP load_force_break (\<lambda>force_break.
     if force_break then Ret (Inr ())
     else
       bindP (isock_read sock_src n (-1)) (\<lambda>(bytes_read, buffer).
       if bytes_read = 0 then Ret (Inl ())
       else bindP (isock_write sock_dst (take bytes_read buffer) (-1)) (\<lambda>bytes_sent. Ret (Inl ()))))"

text \<open>A negative size does not fit the vector of the buffer.\<close>

definition route :: "nat \<Rightarrow> sock \<Rightarrow> sock \<Rightarrow> route_config \<Rightarrow> unit sprog" where
  "route fuel src dst cfg =
     (if rt_message_size cfg < 0 then Exc (Length_error ''vector'')
      else loopP fuel (\<lambda>_. route_turn src dst (nat (rt_message_size cfg))) ())"

definition route_connect :: "build_flags \<Rightarrow> route_config \<Rightarrow> uri list \<Rightarrow> ((cpp_exn + sock) \<times> sock option) sprog" where
  "route_connect fl cfg urls =
     (if rt_close_listener cfg then bindP (create_connection_temp fl urls) (\<lambda>x. Ret (x, None))
      else create_connection fl urls None)"

text \<open>Both directions, once the two sockets are connected. \<^verbatim>\<open>wait\<close> on the future that was never given a
  thread is undefined; the destructor of a future with a thread waits for it.\<close>

definition route_both :: "nat \<Rightarrow> sock \<Rightarrow> sock \<Rightarrow> route_config \<Rightarrow> unit sprog" where
  "route_both fuel src dst cfg =
     bindP (if rt_bidir cfg then bindP (os (Thread_start ''route_bkwd'')) (\<lambda>_. Ret ()) else Ret ()) (\<lambda>_.
     bindP (tryP (route fuel src dst cfg)) (\<lambda>x.
     bindP (if rt_bidir cfg then bindP (os (Thread_join ''route_bkwd'')) (\<lambda>_. Ret ()) else Ret ()) (\<lambda>_.
     case x of
       Inl e \<Rightarrow> Exc e
     | Inr _ \<Rightarrow> if rt_bidir cfg then Ret () else Exc (Undefined ''future::wait''))))"

text \<open>The local objects are destroyed in the reverse order of their declaration; sockets given to the
  statistics writer live as long as it does.\<close>

definition route_sockets :: "nat \<Rightarrow> build_flags \<Rightarrow> route_config \<Rightarrow> bool \<Rightarrow> uri list \<Rightarrow> uri list \<Rightarrow> unit sprog" where
  "route_sockets fuel fl cfg stats parsed_src_urls parsed_dst_urls =
     bindP (route_connect fl cfg parsed_dst_urls) (\<lambda>(rd, listening_sock_a).
     case rd of
       Inl e \<Rightarrow> bindP (reset_ptr listening_sock_a) (\<lambda>_. Exc e)
     | Inr dst \<Rightarrow>
         bindP (route_connect fl cfg parsed_src_urls) (\<lambda>(rs, listening_sock_b).
         case rs of
           Inl e \<Rightarrow>
             bindP (isock_dtor dst) (\<lambda>_. bindP (reset_ptr listening_sock_b) (\<lambda>_.
             bindP (reset_ptr listening_sock_a) (\<lambda>_. Exc e)))
         | Inr src \<Rightarrow>
             bindP (if stats then bindP (os (Stats_add_socket (isock_id src))) (\<lambda>_.
                      bindP (os (Stats_add_socket (isock_id dst))) (\<lambda>_. Ret ())) else Ret ()) (\<lambda>_.
             bindP (tryP (route_both fuel src dst cfg)) (\<lambda>x.
             bindP (if stats then Ret () else bindP (isock_dtor src) (\<lambda>_. isock_dtor dst)) (\<lambda>_.
             bindP (reset_ptr listening_sock_b) (\<lambda>_.
             bindP (reset_ptr listening_sock_a) (\<lambda>_.
             case x of Inl e \<Rightarrow> Exc e | Inr _ \<Rightarrow> Ret ())))))))"

definition route_run :: "nat \<Rightarrow> build_flags \<Rightarrow> string list \<Rightarrow> string list \<Rightarrow> route_config \<Rightarrow> unit sprog" where
  "route_run fuel fl src_urls dst_urls cfg =
     (let parsed_src_urls = map (\<lambda>url. Parse url EXPECT_FILE) src_urls;
          parsed_dst_urls = map (\<lambda>url. Parse url EXPECT_FILE) dst_urls;
          write_stats = (rt_stats_file cfg \<noteq> '''' \<and> rt_stats_freq_ms cfg > 0)
      in catchP
           (bindP (if write_stats then
                     bindP (os (Stats_open (rt_stats_file cfg) (rt_stats_format cfg) (rt_stats_freq_ms cfg))) (\<lambda>r.
                       if r_int r < 0 then throw_socket (r_str r) else Ret ())
                   else Ret ()) (\<lambda>_.
            route_sockets fuel fl cfg write_stats parsed_src_urls parsed_dst_urls))
           (\<lambda>e. if is_socket_exn e then Ret () else Exc e))"

subsection \<open>One turn\<close>

text \<open>What has happened to the messages received so far.\<close>

definition forwarded_upto :: "nat \<Rightarrow> nat \<Rightarrow> strace \<Rightarrow> bool" where
  "forwarded_upto n lost tr \<longleftrightarrow>
     subseq (out_messages tr) (in_messages tr) \<and> (\<forall>m \<in> set (in_messages tr). length m \<le> n) \<and>
     length (in_messages tr) \<le> length (out_messages tr) + refused_sends tr + lost"

lemma route_turn_runs:
  assumes "runs (route_turn src dst n) tr out" and "recv_contract tr"
  shows "case out of
      Ok _ \<Rightarrow> forwarded_upto n 0 tr
    | Raised e \<Rightarrow> forwarded_upto n 1 tr \<and> is_socket_exn e
    | Fuel_out \<Rightarrow> False"
proof -
  let ?body = "bindP (isock_read src n (-1)) (\<lambda>(k, bs). if k = 0 then Ret (Inl ())
                 else bindP (isock_write dst (take k bs) (-1)) (\<lambda>w. Ret (Inl ())))"
  from assms(1) obtain r :: reply and t where tr: "tr = (Os (Load_flag ''force_break''), r) # t"
    and t: "if r_int r \<noteq> 0 then t = [] \<and> out = Ok (Inr ()) else runs ?body t out"
    unfolding route_turn_def load_force_break_def by (auto simp: runs_Call simp del: runs.simps(4) split: if_splits)
  show ?thesis
  proof (cases "r_int r = 0")
    case True
    with t tr isk.forward_one[of src n "-1" "Inl ()" dst "-1" "\<lambda>_. Inl ()" t out] assms(2)
    show ?thesis by (cases out) (auto simp: forwarded_upto_def)
  next
    case False
    with t tr show ?thesis by (simp add: forwarded_upto_def)
  qed
qed

lemma forwarded_upto_append:
  "forwarded_upto n 0 t1 \<Longrightarrow> forwarded_upto n k t2 \<Longrightarrow> forwarded_upto n k (t1 @ t2)"
  by (auto simp: forwarded_upto_def list_emb_append_mono)

lemma runs_out_route: "runs_out_after fuel (route fuel src dst cfg)"
proof -
  have "runs_out_after fuel (loopP fuel (\<lambda>_. route_turn src dst n) ())" for n
  proof (rule runs_out_loopP)
    show "runs_out_after fuel (route_turn src dst n)"
      by (rule loop_free_runs_out)
        (auto simp: route_turn_def load_force_break_def intro!: confined_intros isk.rd_loop_free isk.wr_loop_free)
    show "1 \<le> false_reads t" if "runs (route_turn src dst n) t (Ok (Inl s'))" for t s'
      using that by (auto simp: route_turn_def runs_bindP_Ok split: if_splits)
  qed
  then show ?thesis by (simp add: route_def)
qed

subsection \<open>Properties\<close>

lemma route_moves:
  assumes "0 \<le> rt_message_size cfg"
  shows "confined (moves {isock_end src} {isock_end dst}) is_socket_exn (route fuel src dst cfg)"
  using assms
  by (auto simp: route_def route_turn_def load_force_break_def intro!: confined_intros isk.forward_one_moves)

text \<open>C3: routing carries the messages from the source to the destination and keeps them. Whatever the sockets do,
  and whether the loop returns, raises or is still running: every receive is made on the source and every send
  to the destination; the messages written are messages that were
  read, unchanged, once each and in their order; every message fits the configured size; and a message that
  was read and not written was refused by the transport, or is the single one in flight when an exception
  ends the loop. No exception but \<^verbatim>\<open>socket::exception\<close> ends it when the configured size is not negative.\<close>

theorem route_forwards:
  assumes "runs (route fuel src dst cfg) tr out" and "recv_contract tr" and "0 \<le> rt_message_size cfg"
  shows "list_all (\<lambda>e. moves {isock_end src} {isock_end dst} (fst e)) tr \<and>
    (case out of
      Ok _ \<Rightarrow> forwarded_upto (nat (rt_message_size cfg)) 0 tr
    | Raised e \<Rightarrow> forwarded_upto (nat (rt_message_size cfg)) 1 tr \<and> is_socket_exn e
    | Fuel_out \<Rightarrow> forwarded_upto (nat (rt_message_size cfg)) 0 tr)"
proof
  show "list_all (\<lambda>e. moves {isock_end src} {isock_end dst} (fst e)) tr"
    by (rule confined_runs[OF route_moves[OF assms(3)] assms(1)])
  let ?n = "nat (rt_message_size cfg)"
  have "case out of
      Ok _ \<Rightarrow> recv_contract ([] @ tr) \<longrightarrow> forwarded_upto ?n 0 ([] @ tr)
    | Raised e \<Rightarrow> recv_contract ([] @ tr) \<longrightarrow> forwarded_upto ?n 1 ([] @ tr) \<and> is_socket_exn e
    | Fuel_out \<Rightarrow> recv_contract ([] @ tr) \<longrightarrow> forwarded_upto ?n 0 ([] @ tr)"
  proof (rule runs_loopP_outcome[where I = "\<lambda>_ h. recv_contract h \<longrightarrow> forwarded_upto ?n 0 h" and body = "\<lambda>_. route_turn src dst ?n"])
    show "runs (loopP fuel (\<lambda>_. route_turn src dst ?n) ()) tr out"
      using assms(1,3) by (simp add: route_def)
    show "recv_contract [] \<longrightarrow> forwarded_upto ?n 0 []"
      by (simp add: forwarded_upto_def)
  qed (auto dest!: route_turn_runs intro: forwarded_upto_append)
  with assms(2) show "case out of
      Ok _ \<Rightarrow> forwarded_upto ?n 0 tr
    | Raised e \<Rightarrow> forwarded_upto ?n 1 tr \<and> is_socket_exn e
    | Fuel_out \<Rightarrow> forwarded_upto ?n 0 tr"
    by (cases out) simp_all
qed

theorem route_forwards_witness:
  "forwarded_upto 4 0 [(Os (Load_flag ''force_break''), rint 0), (Os (Udp_read 1 4), rdata ''abc''),
     (Os (Udp_write 2 ''abc''), rint 3), (Os (Load_flag ''force_break''), rint 1)] \<and>
   list_all (\<lambda>e. moves {Udp_end 1} {Udp_end 2} (fst e)) [(Os (Load_flag ''force_break''), rint 0), (Os (Udp_read 1 4), rdata ''abc''),
     (Os (Udp_write 2 ''abc''), rint 3), (Os (Load_flag ''force_break''), rint 1)]"
proof -
  let ?tr = "[(Os (Load_flag ''force_break''), rint 0), (Os (Udp_read 1 4), rdata ''abc''),
     (Os (Udp_write 2 ''abc''), rint 3), (Os (Load_flag ''force_break''), rint 1)]"
  let ?cfg = "route_config0\<lparr>rt_message_size := 4\<rparr>"
  have r: "runs (route 2 (Sock_udp 1) (Sock_udp 2) ?cfg) ?tr (Ok ())"
    by (simp add: route_def route_turn_def load_force_break_def numeral_2_eq_2 route_config0_def)
  have c: "recv_contract ?tr"
    by (simp add: recv_contract_def recv_ok_def)
  show ?thesis using route_forwards[OF r c] by (simp add: route_config0_def)
qed

text \<open>Routing ends when it is told to. With more fuel than the flag is read as false, the loop never runs
  out of fuel, and a loop that ended by a normal return has read the flag as set.\<close>

theorem route_stops:
  assumes "runs (route fuel src dst cfg) tr out" and "false_reads tr < fuel"
  shows "out \<noteq> Fuel_out \<and> (out = Ok () \<longrightarrow> (\<exists>r. last tr = (Os (Load_flag ''force_break''), r) \<and> r_int r \<noteq> 0 \<and> tr \<noteq> []))"
proof
  show "out \<noteq> Fuel_out" by (rule runs_out_ends[OF runs_out_route assms])
  have "\<exists>r. last tr = (Os (Load_flag ''force_break''), r) \<and> r_int r \<noteq> 0 \<and> tr \<noteq> []"
    if "runs (loopP fuel (\<lambda>_. route_turn src dst n) ()) tr (Ok ())" for n
  proof -
    have turn: "\<exists>r. last t = (Os (Load_flag ''force_break''), r) \<and> r_int r \<noteq> 0 \<and> t \<noteq> []"
      if "runs (route_turn src dst n) t (Ok (Inr a))" for t a
      using that by (auto simp: route_turn_def runs_bindP_Ok split: if_splits)
    have "\<exists>r. last ([] @ tr) = (Os (Load_flag ''force_break''), r) \<and> r_int r \<noteq> 0 \<and> [] @ tr \<noteq> []"
      by (rule runs_loopP_Ok[OF that, where I = "\<lambda>_ _. True"]) (auto dest!: turn simp: last_append)
    then show ?thesis by simp
  qed
  with assms(1) show "out = Ok () \<longrightarrow> (\<exists>r. last tr = (Os (Load_flag ''force_break''), r) \<and> r_int r \<noteq> 0 \<and> tr \<noteq> [])"
    by (auto simp: route_def split: if_splits)
qed

theorem route_stops_witness:
  "snd (exec (route 1 (Sock_udp 1) (Sock_udp 2) route_config0) (\<lambda>_ _. rint 1) []) \<noteq> Fuel_out"
proof -
  let ?p = "route 1 (Sock_udp 1) (Sock_udp 2) route_config0"
  have "false_reads (fst (exec ?p (\<lambda>_ _. rint 1) [])) < 1"
    by (simp add: route_def route_turn_def load_force_break_def route_config0_def) (simp add: false_reads_def)
  with route_stops[OF runs_exec] show ?thesis by blast
qed

text \<open>One-way routing cannot end normally. Without \<^verbatim>\<open>--bidir\<close> the future of the backward direction holds no
  thread, and waiting for it is undefined; so the routing of two connected sockets never returns, whether
  or not the flag is set.\<close>

theorem route_one_way_undefined:
  assumes "runs (route_both fuel src dst cfg) tr out" and "\<not> rt_bidir cfg"
  shows "out \<noteq> Ok () \<and> (runs (route fuel src dst cfg) tr (Ok ()) \<longrightarrow> runs (route_both fuel src dst cfg) tr (Raised (Undefined ''future::wait'')))"
proof -
  have "(\<lambda>x. case x of Inl e \<Rightarrow> Exc e | Inr _ \<Rightarrow> Exc (Undefined ''future::wait'')) =
      (\<lambda>x :: cpp_exn + unit. Exc (case x of Inl e \<Rightarrow> e | Inr _ \<Rightarrow> Undefined ''future::wait'') :: unit sprog)"
    by (auto simp: fun_eq_iff split: sum.splits)
  with assms(2) have b: "route_both fuel src dst cfg =
      bindP (tryP (route fuel src dst cfg)) (\<lambda>x. Exc (case x of Inl e \<Rightarrow> e | Inr _ \<Rightarrow> Undefined ''future::wait''))"
    by (simp add: route_both_def)
  have "runs (tryP (route fuel src dst cfg)) tr (Ok (Inr ()))" if "runs (route fuel src dst cfg) tr (Ok ())"
    using that by simp
  then show ?thesis using assms(1) unfolding b runs_bindP by (auto intro!: exI[of _ "Inr ()"])
qed

theorem route_one_way_undefined_witness:
  "snd (exec (route_both 1 (Sock_udp 1) (Sock_udp 2) route_config0) (\<lambda>_ _. rint 1) []) \<noteq> Ok ()"
  using route_one_way_undefined[OF runs_exec, of route_config0] by (simp add: route_config0_def)

end
