(* ===== verification/Generate.thy ===== *)
theory Generate
  imports Connection
begin

text \<open>
  The \<^verbatim>\<open>generate\<close> command (\<^verbatim>\<open>generate.cpp\<close>): a paced stream of generated messages, each dropped with a given
  probability. The payload generator, the pacers and the random engine are calls; a clock reading is in
  microseconds; an overflow of \<^verbatim>\<open>int\<close> is undefined.
\<close>

record generate_config = stats_config +
  gn_sendrate :: int
  gn_num_messages :: int
  gn_duration :: int
  gn_message_size :: int
  gn_two_way :: bool
  gn_reconnect :: bool
  gn_close_listener :: bool
  gn_enable_metrics :: bool
  gn_spin_wait :: bool
  gn_playback_csv :: string
  gn_lossRate :: rat

definition generate_config0 :: generate_config where
  "generate_config0 =
     \<lparr>stats_freq_ms = 0, stats_file = '''', stats_format = ''csv'', gn_sendrate = 0, gn_num_messages = -1, gn_duration = 0,
      gn_message_size = 1316, gn_two_way = False, gn_reconnect = False, gn_close_listener = False,
      gn_enable_metrics = False, gn_spin_wait = False, gn_playback_csv = '''', gn_lossRate = 0\<rparr>"

text \<open>\<^verbatim>\<open>iota\<close> over a vector of \<^verbatim>\<open>char\<close>.\<close>

definition iota :: "nat \<Rightarrow> bytes" where
  "iota n = map (\<lambda>i. char_of (i mod 256)) [0..<n]"

record gen_state =
  gs_i :: int
  gs_stat_time :: int
  gs_prev_i :: int
  gs_message :: bytes

text \<open>The rate report of the last second.\<close>

definition report_rate :: "int \<Rightarrow> gen_state \<Rightarrow> int \<Rightarrow> gen_state sprog" where
  "report_rate message_size st tnow =
     (if tnow > gs_stat_time st + 1000000 then
        let n = gs_i st - gs_prev_i st;
            elapsed = tnow - gs_stat_time st
        in if \<not> in_int 32 (8 * n) \<or> \<not> in_int 32 (8 * n * message_size) then Exc (Undefined ''signed overflow'')
           else
             let bps = (8 * n * message_size) div (elapsed div 1000) * 1000
             in bindP (os (Log_line (''Sending at '' @ int_to_string (bps div 1000) @ '' kbps''))) (\<lambda>_.
                Ret (st\<lparr>gs_stat_time := tnow, gs_prev_i := gs_i st\<rparr>))
      else Ret st)"

text \<open>The end of an iteration: \<^verbatim>\<open>++i\<close>.\<close>

definition next_message :: "gen_state \<Rightarrow> (gen_state + unit) sprog" where
  "next_message st =
     (if gs_i st = 2 ^ 31 - 1 then Exc (Undefined ''signed overflow'') else Ret (Inl (st\<lparr>gs_i := gs_i st + 1\<rparr>)))"

text \<open>The body of the loop, after its condition.\<close>

definition send_message :: "generate_config \<Rightarrow> sock \<Rightarrow> gen_state \<Rightarrow> (gen_state + unit) sprog" where
  "send_message cfg target st =
     bindP (os (Generate_payload (gs_message st))) (\<lambda>p.
     let st = st\<lparr>gs_message := r_bytes p\<rparr> in
     bindP (isock_write target (gs_message st) (-1)) (\<lambda>_.
     bindP (os Clock_now) (\<lambda>tnow.
     bindP (report_rate (gn_message_size cfg) st (r_int tnow)) next_message)))"

definition generate_message :: "generate_config \<Rightarrow> sock \<Rightarrow> gen_state \<Rightarrow> (gen_state + unit) sprog" where
  "generate_message cfg target st =
     bindP (os Random_double) (\<lambda>random_value.
     if r_rat random_value < gn_lossRate cfg then next_message st
     else send_message cfg target st)"

text \<open>Waiting for the pacer, and the test of the sending duration.\<close>

definition pace :: "bool \<Rightarrow> unit sprog" where
  "pace ratepacer = (if ratepacer then bindP (os Pacer_wait) (\<lambda>_. Ret ()) else Ret ())"

definition time_over :: "generate_config \<Rightarrow> int \<Rightarrow> bool sprog" where
  "time_over cfg start_time =
     (if gn_duration cfg > 0 then
        bindP (os Clock_now) (\<lambda>tnow. Ret (r_int tnow - start_time > gn_duration cfg * 1000000))
      else Ret False)"

definition generate_turn :: "generate_config \<Rightarrow> sock \<Rightarrow> bool \<Rightarrow> int \<Rightarrow> int \<Rightarrow> gen_state \<Rightarrow> (gen_state + unit) sprog" where
  "generate_turn cfg target ratepacer start_time num_messages st =
     (if num_messages < 0 \<or> gs_i st < num_messages then
        bindP load_force_break (\<lambda>force_break.
        if force_break then Ret (Inr ())
        else
          bindP (pace ratepacer) (\<lambda>_.
          bindP (time_over cfg start_time) (\<lambda>elapsed.
          if elapsed then Ret (Inr ()) else generate_message cfg target st)))
      else Ret (Inr ()))"

text \<open>Choosing the pacer; the file of a \<^verbatim>\<open>csv_pacer\<close> may be refused.\<close>

definition make_pacer :: "generate_config \<Rightarrow> bool sprog" where
  "make_pacer cfg =
     (if gn_sendrate cfg \<noteq> 0 then
        bindP (os (Pacer_create (gn_sendrate cfg) (gn_message_size cfg) (gn_spin_wait cfg))) (\<lambda>_. Ret True)
      else if gn_playback_csv cfg \<noteq> '''' then
        bindP (os (Csv_pacer_create (gn_playback_csv cfg))) (\<lambda>r.
          if r_int r < 0 then Exc (Runtime_error (r_str r)) else Ret True)
      else Ret False)"

definition generate_loop :: "nat \<Rightarrow> generate_config \<Rightarrow> sock \<Rightarrow> bool \<Rightarrow> int \<Rightarrow> gen_state \<Rightarrow> unit sprog" where
  "generate_loop fuel cfg target ratepacer start_time st =
     loopP fuel (generate_turn cfg target ratepacer start_time (if gn_duration cfg > 0 then -1 else gn_num_messages cfg)) st"

definition run_pipe :: "nat \<Rightarrow> generate_config \<Rightarrow> sock \<Rightarrow> unit sprog" where
  "run_pipe fuel cfg dst =
     (if gn_message_size cfg < 0 then Exc (Length_error ''vector'')
      else
        let message_to_send = iota (nat (gn_message_size cfg)) in
        bindP (os Clock_now) (\<lambda>start_time.
        bindP (os Clock_now) (\<lambda>stat_time.
        bindP (make_pacer cfg) (\<lambda>ratepacer.
        bindP (catchP
                 (generate_loop fuel cfg dst ratepacer (r_int start_time)
                    \<lparr>gs_i = 0, gs_stat_time = r_int stat_time, gs_prev_i = 0, gs_message = message_to_send\<rparr>)
                 (\<lambda>e. if is_socket_exn e then Ret () else Exc e)) (\<lambda>_.
        bindP load_force_break (\<lambda>_. Ret ()))))))"

definition generate_run :: "nat \<Rightarrow> build_flags \<Rightarrow> string list \<Rightarrow> generate_config \<Rightarrow> unit sprog" where
  "generate_run fuel fl dst_urls cfg =
     common_run fuel fl dst_urls (stats_config.truncate cfg) (gn_reconnect cfg) (gn_close_listener cfg) (run_pipe fuel cfg)"

subsection \<open>What a run shows\<close>

text \<open>The messages that the random numbers dropped, and the contract of the payload generator: it fills the
  message it is given and keeps its size.\<close>

definition dropped :: "rat \<Rightarrow> strace \<Rightarrow> nat" where
  "dropped rate tr = length (filter (\<lambda>e. fst e = Os Random_double \<and> r_rat (snd e) < rate) tr)"

definition payload_ok :: "call \<times> reply \<Rightarrow> bool" where
  "payload_ok e = (case e of (Os (Generate_payload bs), r) \<Rightarrow> length (r_bytes r) = length bs | _ \<Rightarrow> True)"

definition payload_contract :: "strace \<Rightarrow> bool" where
  "payload_contract tr \<longleftrightarrow> list_all payload_ok tr"

lemma generate_append [simp]:
  "dropped rate (t1 @ t2) = dropped rate t1 + dropped rate t2"
  "payload_contract (t1 @ t2) \<longleftrightarrow> payload_contract t1 \<and> payload_contract t2"
  by (simp_all add: dropped_def payload_contract_def)

lemma generate_Nil [simp]: "dropped rate [] = 0" "payload_contract []"
  by (simp_all add: dropped_def payload_contract_def)

text \<open>Calls that only steer the generator.\<close>

lemma generate_steering [simp]:
  "c \<in> {Os Clock_now, Os Pacer_wait, Os (Load_flag f), Os (Log_line m), Os (Pacer_create a b w), Os (Csv_pacer_create f)} \<Longrightarrow>
     dropped rate ((c, r) # t) = dropped rate t \<and> out_messages ((c, r) # t) = out_messages t \<and>
     in_messages ((c, r) # t) = in_messages t \<and> refused_sends ((c, r) # t) = refused_sends t \<and>
     (payload_contract ((c, r) # t) \<longleftrightarrow> payload_contract t)"
  by (auto simp: dropped_def message_defs payload_contract_def payload_ok_def)

definition handled :: "rat \<Rightarrow> strace \<Rightarrow> nat" where
  "handled rate tr = length (out_messages tr) + refused_sends tr + dropped rate tr"

definition of_size :: "nat \<Rightarrow> strace \<Rightarrow> bool" where
  "of_size n tr \<longleftrightarrow> in_messages tr = [] \<and> (\<forall>m \<in> set (out_messages tr). length m = n)"

lemma handled_append [simp]: "handled rate (t1 @ t2) = handled rate t1 + handled rate t2"
  by (simp add: handled_def)

lemma of_size_append [simp]: "of_size n (t1 @ t2) \<longleftrightarrow> of_size n t1 \<and> of_size n t2"
  by (auto simp: of_size_def)

lemma handled_Nil [simp]: "handled rate [] = 0" "of_size n []"
  by (simp_all add: handled_def of_size_def)

lemma runs_report_rate:
  assumes "runs (bindP (report_rate message_size st tnow) next_message) tr out"
  shows "handled rate tr = 0 \<and> of_size n tr \<and>
     (case out of
        Ok x \<Rightarrow> (\<exists>st'. x = Inl st' \<and> gs_i st' = gs_i st + 1 \<and> gs_message st' = gs_message st)
      | Raised e \<Rightarrow> \<not> is_socket_exn e
      | Fuel_out \<Rightarrow> False)"
  using assms
  by (auto simp: report_rate_def next_message_def Let_def runs_call_simps handled_def of_size_def is_socket_exn_def
      simp del: runs.simps(4) split: if_splits)

lemma runs_generate_write:
  assumes "runs (isock_write target m t) tr out"
  shows "payload_contract tr \<and> of_size (length m) tr \<and>
     (case out of Ok _ \<Rightarrow> handled rate tr = 1 | Raised e \<Rightarrow> handled rate tr \<le> 1 \<and> is_socket_exn e | Fuel_out \<Rightarrow> False)"
proof -
  have "dropped rate tr = 0"
    using filter_transport[OF confined_isock_write assms, of "\<lambda>e. fst e = Os Random_double \<and> r_rat (snd e) < rate"]
    by (auto simp: dropped_def transport_call_def)
  moreover have "payload_contract tr"
    using filter_transport[OF confined_isock_write assms, of "\<lambda>e. \<not> payload_ok e"]
    by (fastforce simp: payload_contract_def payload_ok_def transport_call_def filter_empty_conv list_all_iff
        split: call.splits os_call.splits)
  ultimately show ?thesis
    using isk.wr_result[OF assms] isk.wr_receives_nothing[OF assms] by (cases out) (auto simp: handled_def of_size_def)
qed

lemma runs_send_message:
  assumes "runs (send_message cfg target st) tr out" and "payload_contract tr"
  shows "of_size (length (gs_message st)) tr \<and>
     (case out of
        Ok x \<Rightarrow> handled (gn_lossRate cfg) tr = 1 \<and>
          (\<exists>st'. x = Inl st' \<and> gs_i st' = gs_i st + 1 \<and> length (gs_message st') = length (gs_message st))
      | Raised e \<Rightarrow> handled (gn_lossRate cfg) tr \<le> 1
      | Fuel_out \<Rightarrow> False)"
proof -
  from assms(1) obtain p :: reply and u where tr: "tr = (Os (Generate_payload (gs_message st)), p) # u"
    and ru: "runs (bindP (isock_write target (r_bytes p) (-1)) (\<lambda>_. bindP (os Clock_now) (\<lambda>tnow.
       bindP (report_rate (gn_message_size cfg) (st\<lparr>gs_message := r_bytes p\<rparr>) (r_int tnow)) next_message))) u out"
    unfolding send_message_def by (auto simp: runs_Call simp del: runs.simps(4))
  from assms(2) tr have len: "length (r_bytes p) = length (gs_message st)"
    by (simp add: payload_contract_def payload_ok_def)
  have h: "handled rate tr = handled rate u" "of_size n tr \<longleftrightarrow> of_size n u" for n rate
    by (auto simp: tr handled_def of_size_def dropped_def message_defs)
  let ?wr = "isock_write target (r_bytes p) (-1)"
  from ru consider
      (ok) w u1 u2 where "u = u1 @ u2" "runs ?wr u1 (Ok w)"
        "runs (bindP (os Clock_now) (\<lambda>tnow.
           bindP (report_rate (gn_message_size cfg) (st\<lparr>gs_message := r_bytes p\<rparr>) (r_int tnow)) next_message)) u2 out"
    | (exc) e where "out = Raised e" "runs ?wr u (Raised e)"
    | (fuel) "runs ?wr u Fuel_out"
    unfolding runs_bindP[of ?wr] by blast
  then show ?thesis
  proof cases
    case ok
    from ok(3) obtain tn :: reply and u3 where u2: "u2 = (Os Clock_now, tn) # u3"
      and r3: "runs (bindP (report_rate (gn_message_size cfg) (st\<lparr>gs_message := r_bytes p\<rparr>) (r_int tn)) next_message) u3 out"
      by (auto simp: runs_Call simp del: runs.simps(4))
    have h2: "handled rate u2 = handled rate u3" "of_size n u2 \<longleftrightarrow> of_size n u3" for n rate
      by (simp_all add: u2 handled_def of_size_def)
    from runs_report_rate[OF r3, of "gn_lossRate cfg" "length (gs_message st)"] runs_generate_write[OF ok(2), of "gn_lossRate cfg"] len
    show ?thesis by (cases out) (auto simp: h h2 ok(1))
  next
    case exc
    with runs_generate_write[OF exc(2), of "gn_lossRate cfg"] len show ?thesis by (simp add: h)
  next
    case fuel
    with loop_free_runs[OF isk.wr_loop_free] show ?thesis by blast
  qed
qed

lemma runs_generate_message:
  assumes "runs (generate_message cfg target st) tr out" and "payload_contract tr"
  shows "of_size (length (gs_message st)) tr \<and>
     (case out of
        Ok x \<Rightarrow> handled (gn_lossRate cfg) tr = 1 \<and>
          (\<exists>st'. x = Inl st' \<and> gs_i st' = gs_i st + 1 \<and> length (gs_message st') = length (gs_message st))
      | Raised e \<Rightarrow> handled (gn_lossRate cfg) tr \<le> 1
      | Fuel_out \<Rightarrow> False)"
proof -
  from assms(1) obtain rv :: reply and t where tr: "tr = (Os Random_double, rv) # t"
    and t: "runs (if r_rat rv < gn_lossRate cfg then next_message st else send_message cfg target st) t out"
    unfolding generate_message_def bindP_callP runs_Call by blast
  have h: "handled rate tr = (if r_rat rv < rate then 1 else 0) + handled rate t" "of_size n tr \<longleftrightarrow> of_size n t" for n rate
    by (auto simp: tr handled_def of_size_def dropped_def message_defs)
  from assms(2) tr have "payload_contract t" by (simp add: payload_contract_def)
  with t show ?thesis
    by (cases "r_rat rv < gn_lossRate cfg") (auto simp: h next_message_def dest!: runs_send_message split: if_splits outcome.splits)
qed

definition stop_read :: "strace \<Rightarrow> bool" where
  "stop_read tr \<longleftrightarrow> list_ex (\<lambda>e. fst e = Os (Load_flag ''force_break'') \<and> r_int (snd e) \<noteq> 0) tr"

lemma stop_read_append [simp]: "stop_read (t1 @ t2) \<longleftrightarrow> stop_read t1 \<or> stop_read t2" "\<not> stop_read []"
  by (simp_all add: stop_read_def)

text \<open>The calls before a message handle nothing.\<close>

definition idle :: "strace \<Rightarrow> bool" where
  "idle tr \<longleftrightarrow> (\<forall>rate n. handled rate tr = 0 \<and> of_size n tr)"

lemma idle_simps [simp]:
  "idle []" "idle t1 \<Longrightarrow> idle t2 \<Longrightarrow> idle (t1 @ t2)" "idle ((Os (Load_flag f), r) # t) \<longleftrightarrow> idle t"
  by (simp_all add: idle_def handled_def of_size_def)

lemma runs_pace: "runs (pace b) tr out \<Longrightarrow> idle tr \<and> out = Ok ()"
  by (auto simp: pace_def idle_def handled_def of_size_def runs_Call simp del: runs.simps(4) split: if_splits)

lemma runs_time_over: "runs (time_over cfg t0) tr out \<Longrightarrow> idle tr \<and> (\<exists>b. out = Ok b \<and> (b \<longrightarrow> gn_duration cfg > 0))"
  by (auto simp: time_over_def idle_def handled_def of_size_def runs_Call simp del: runs.simps(4) split: if_splits)

lemma runs_generate_turn_cases:
  assumes "runs (generate_turn cfg target pacer start num st) tr out"
  shows "(\<exists>pre post. tr = pre @ post \<and> idle pre \<and> (num < 0 \<or> gs_i st < num) \<and> runs (generate_message cfg target st) post out)
       \<or> (out = Ok (Inr ()) \<and> idle tr \<and> (0 \<le> num \<and> num \<le> gs_i st \<or> stop_read tr \<or> gn_duration cfg > 0))"
proof (cases "num < 0 \<or> gs_i st < num")
  case True
  have w: "returns (pace pacer)" and l: "returns (time_over cfg start)"
    using runs_pace runs_time_over unfolding returns_def by blast+
  from assms True obtain r :: reply and t where tr: "tr = [(Os (Load_flag ''force_break''), r)] @ t"
    and t: "runs (if r_int r \<noteq> 0 then Ret (Inr ())
       else bindP (pace pacer) (\<lambda>_. bindP (time_over cfg start) (\<lambda>elapsed.
          if elapsed then Ret (Inr ()) else generate_message cfg target st))) t out"
    unfolding generate_turn_def load_force_break_def by (auto simp: runs_Call simp del: runs.simps(4))
  show ?thesis
  proof (cases "r_int r = 0")
    case False
    with t tr show ?thesis by (auto simp: stop_read_def)
  next
    case flag: True
    with t obtain pre1 pre2 t2 elapsed where t2: "t = pre1 @ pre2 @ t2" "runs (pace pacer) pre1 (Ok ())"
      "runs (time_over cfg start) pre2 (Ok elapsed)"
      "runs (if elapsed then Ret (Inr ()) else generate_message cfg target st) t2 out"
      by (auto simp: runs_bindP_returns w l)
    let ?pre = "[(Os (Load_flag ''force_break''), r)] @ pre1 @ pre2"
    have pre: "idle ?pre" "tr = ?pre @ t2" "elapsed \<longrightarrow> gn_duration cfg > 0"
      using runs_pace[OF t2(2)] runs_time_over[OF t2(3)] t2(1) tr by auto
    show ?thesis
    proof (cases elapsed)
      case True
      with t2(4) pre show ?thesis by simp
    next
      case False
      with t2(4) have "runs (generate_message cfg target st) t2 out" by simp
      with pre(1,2) True show ?thesis by blast
    qed
  qed
next
  case False
  with assms show ?thesis by (auto simp: generate_turn_def idle_def)
qed

lemma runs_generate_turn:
  assumes "runs (generate_turn cfg target pacer start num st) tr out" and "payload_contract tr"
  shows "of_size (length (gs_message st)) tr \<and>
     (case out of
        Ok (Inl st') \<Rightarrow> handled (gn_lossRate cfg) tr = 1 \<and> (num < 0 \<or> gs_i st < num) \<and> gs_i st' = gs_i st + 1 \<and>
          length (gs_message st') = length (gs_message st)
      | Ok (Inr _) \<Rightarrow> handled (gn_lossRate cfg) tr = 0 \<and> (0 \<le> num \<and> num \<le> gs_i st \<or> stop_read tr \<or> gn_duration cfg > 0)
      | Raised e \<Rightarrow> handled (gn_lossRate cfg) tr \<le> 1 \<and> (num < 0 \<or> gs_i st < num)
      | Fuel_out \<Rightarrow> False)"
proof -
  from runs_generate_turn_cases[OF assms(1)] consider
      (message) pre post where "tr = pre @ post" "idle pre" "num < 0 \<or> gs_i st < num" "runs (generate_message cfg target st) post out"
    | (stop) "out = Ok (Inr ())" "idle tr" "0 \<le> num \<and> num \<le> gs_i st \<or> stop_read tr \<or> gn_duration cfg > 0"
    by blast
  then show ?thesis
  proof cases
    case message
    with assms(2) have "payload_contract post" by simp
    from runs_generate_message[OF message(4) this] message(2,3) show ?thesis
      by (cases out) (auto simp: message(1) idle_def)
  qed (auto simp: idle_def)
qed

subsection \<open>The loop\<close>

abbreviation message_limit :: "generate_config \<Rightarrow> int" where
  "message_limit cfg \<equiv> (if gn_duration cfg > 0 then -1 else gn_num_messages cfg)"

lemma generate_loop_runs:
  assumes run: "runs (generate_loop fuel cfg target pacer start st) tr out" and c: "payload_contract tr" and i: "gs_i st = 0"
  shows "case out of
      Ok _ \<Rightarrow> of_size (length (gs_message st)) tr \<and>
        (0 \<le> message_limit cfg \<longrightarrow> int (handled (gn_lossRate cfg) tr) \<le> message_limit cfg \<and>
           (\<not> stop_read tr \<longrightarrow> int (handled (gn_lossRate cfg) tr) = message_limit cfg))
    | Raised e \<Rightarrow> of_size (length (gs_message st)) tr \<and>
        (0 \<le> message_limit cfg \<longrightarrow> int (handled (gn_lossRate cfg) tr) \<le> message_limit cfg)
    | Fuel_out \<Rightarrow> True"
proof -
  let ?n = "length (gs_message st)" and ?lim = "message_limit cfg" and ?h = "\<lambda>t. int (handled (gn_lossRate cfg) t)"
  define I where "I s h \<longleftrightarrow> (payload_contract h \<longrightarrow> of_size ?n h \<and> ?h h = gs_i s \<and> length (gs_message s) = ?n \<and>
      (?lim < 0 \<or> gs_i s \<le> ?lim))" for s :: gen_state and h
  have "case out of
      Ok _ \<Rightarrow> payload_contract ([] @ tr) \<longrightarrow> of_size ?n ([] @ tr) \<and>
         (0 \<le> ?lim \<longrightarrow> ?h ([] @ tr) \<le> ?lim \<and> (\<not> stop_read ([] @ tr) \<longrightarrow> ?h ([] @ tr) = ?lim))
    | Raised e \<Rightarrow> payload_contract ([] @ tr) \<longrightarrow> of_size ?n ([] @ tr) \<and> (0 \<le> ?lim \<longrightarrow> ?h ([] @ tr) \<le> ?lim)
    | Fuel_out \<Rightarrow> True"
  proof (rule runs_loopP_invariant[where I = I and n = fuel and s = st and body = "generate_turn cfg target pacer start ?lim"])
    show "runs (loopP fuel (generate_turn cfg target pacer start ?lim) st) tr out"
      using run by (simp add: generate_loop_def)
    show "I st []" using i by (auto simp: I_def)
  next
    fix s h t s'
    assume "I s h" "runs (generate_turn cfg target pacer start ?lim s) t (Ok (Inl s'))"
    then show "I s' (h @ t)"
      using runs_generate_turn[of cfg target pacer start ?lim s t "Ok (Inl s')"] unfolding I_def by auto
  next
    fix s h t a
    assume "I s h" "runs (generate_turn cfg target pacer start ?lim s) t (Ok (Inr a))"
    then show "payload_contract (h @ t) \<longrightarrow> of_size ?n (h @ t) \<and>
         (0 \<le> ?lim \<longrightarrow> ?h (h @ t) \<le> ?lim \<and> (\<not> stop_read (h @ t) \<longrightarrow> ?h (h @ t) = ?lim))"
      using runs_generate_turn[of cfg target pacer start ?lim s t "Ok (Inr a)"] unfolding I_def by (auto split: if_splits)
  next
    fix s h t e
    assume "I s h" "runs (generate_turn cfg target pacer start ?lim s) t (Raised e)"
    then show "payload_contract (h @ t) \<longrightarrow> of_size ?n (h @ t) \<and> (0 \<le> ?lim \<longrightarrow> ?h (h @ t) \<le> ?lim)"
      using runs_generate_turn[of cfg target pacer start ?lim s t "Raised e"] unfolding I_def by (auto split: if_splits)
  qed
  with c show ?thesis by (cases out) simp_all
qed

lemma runs_generate_step:
  assumes "runs (generate_turn cfg target pacer start num st) tr (Ok (Inl st'))"
  shows "gs_i st' = gs_i st + 1 \<and> (num < 0 \<or> gs_i st < num)"
proof -
  from runs_generate_turn_cases[OF assms] obtain post where "num < 0 \<or> gs_i st < num" "runs (generate_message cfg target st) post (Ok (Inl st'))"
    by auto
  moreover from this(2) have "gs_i st' = gs_i st + 1"
    by (auto simp: generate_message_def send_message_def next_message_def report_rate_def Let_def runs_Call runs_bindP_Ok simp del: runs.simps(4)
        split: if_splits)
  ultimately show ?thesis by blast
qed

lemma loop_free_generate_turn: "loop_free (generate_turn cfg target pacer start num st)"
  by (auto simp: generate_turn_def generate_message_def send_message_def next_message_def report_rate_def pace_def time_over_def
      load_force_break_def Let_def intro!: confined_intros isk.wr_loop_free)

lemma runs_out_generate_loop: "runs_out_after fuel (generate_loop fuel cfg target pacer start st)"
  unfolding generate_loop_def
proof (rule runs_out_loopP)
  show "runs_out_after fuel (generate_turn cfg target pacer start num s)" for num s
    by (rule loop_free_runs_out[OF loop_free_generate_turn])
  show "1 \<le> false_reads t" if "runs (generate_turn cfg target pacer start num s) t (Ok (Inl s'))" for num s t s'
    using that by (auto simp: generate_turn_def runs_bindP_Ok split: if_splits)
qed

lemma runs_out_run_pipe: "runs_out_after fuel (run_pipe fuel cfg dst)"
proof -
  have m: "runs_out_after fuel (make_pacer cfg)"
    by (rule loop_free_runs_out) (auto simp: make_pacer_def intro!: confined_intros)
  show ?thesis
    unfolding run_pipe_def Let_def
    by (intro runs_out_intros runs_out_generate_loop m) simp_all
qed

lemma make_pacer_idle:
  "runs (make_pacer cfg) tr out \<Longrightarrow> idle tr \<and> (case out of Raised e \<Rightarrow> \<not> is_socket_exn e | Fuel_out \<Rightarrow> False | Ok _ \<Rightarrow> True)"
  by (auto simp: make_pacer_def idle_def handled_def of_size_def is_socket_exn_def runs_Call simp del: runs.simps(4) split: if_splits)

lemma runs_run_pipe:
  assumes "runs (run_pipe fuel cfg dst) tr out" and "0 \<le> gn_message_size cfg" and "out \<noteq> Fuel_out"
  obtains (pacer) e where "out = Raised e" "idle tr" "\<not> is_socket_exn e"
  | (loop) pre mid post pacer t0 st o1 where "tr = pre @ mid @ post" "idle pre" "idle post"
      "runs (generate_loop fuel cfg dst pacer t0 st) mid o1" "o1 \<noteq> Fuel_out" "gs_i st = 0" "length (gs_message st) = nat (gn_message_size cfg)"
      "case o1 of Raised e \<Rightarrow> if is_socket_exn e then out = Ok () else out = Raised e | _ \<Rightarrow> out = Ok ()"
proof -
  let ?loop = "\<lambda>pacer t0 t1. generate_loop fuel cfg dst pacer t0
      \<lparr>gs_i = 0, gs_stat_time = t1, gs_prev_i = 0, gs_message = iota (nat (gn_message_size cfg))\<rparr>"
  let ?rest = "\<lambda>pacer t0 t1. bindP (catchP (?loop pacer t0 t1) (\<lambda>e. if is_socket_exn e then Ret () else Exc e)) (\<lambda>_.
        bindP load_force_break (\<lambda>_. Ret ()))"
  from assms(1,2) obtain a b :: reply and t where tr: "tr = [(Os Clock_now, a), (Os Clock_now, b)] @ t"
    and t: "runs (bindP (make_pacer cfg) (\<lambda>pacer. ?rest pacer (r_int a) (r_int b))) t out"
    unfolding run_pipe_def by (auto simp: runs_Call simp del: runs.simps(4))
  have clk: "idle ([(Os Clock_now, a), (Os Clock_now, b)] @ u) \<longleftrightarrow> idle u" for u
    by (simp add: idle_def handled_def of_size_def)
  from t consider
      (ok) pacer u1 u2 where "t = u1 @ u2" "runs (make_pacer cfg) u1 (Ok pacer)" "runs (?rest pacer (r_int a) (r_int b)) u2 out"
    | (exc) e where "out = Raised e" "runs (make_pacer cfg) t (Raised e)"
    | (fuel) "runs (make_pacer cfg) t Fuel_out"
    unfolding runs_bindP[of "make_pacer cfg"] by blast
  then show ?thesis
  proof cases
    case exc
    with make_pacer_idle[OF exc(2)] pacer tr clk show ?thesis by simp
  next
    case fuel
    with make_pacer_idle[OF fuel] show ?thesis by simp
  next
    case ok
    let ?st = "\<lparr>gs_i = 0, gs_stat_time = r_int b, gs_prev_i = 0, gs_message = iota (nat (gn_message_size cfg))\<rparr>"
    have st: "gs_i ?st = 0" "length (gs_message ?st) = nat (gn_message_size cfg)" by (simp_all add: iota_def)
    have pre: "idle ([(Os Clock_now, a), (Os Clock_now, b)] @ u1)" using make_pacer_idle[OF ok(2)] clk by simp
    from ok(3) assms(3) obtain o1 mid post where "u2 = mid @ post" "idle post"
        "runs (?loop pacer (r_int a) (r_int b)) mid o1" "o1 \<noteq> Fuel_out"
        "case o1 of Raised e \<Rightarrow> if is_socket_exn e then out = Ok () else out = Raised e | _ \<Rightarrow> out = Ok ()"
      unfolding runs_bindP runs_catchP
      by (elim disjE exE conjE) (force split: if_splits)+
    with loop[OF _ pre _ _ _ st] tr ok(1) show ?thesis by simp
  qed
qed

subsection \<open>Properties\<close>

text \<open>The stream of the generator. Every message it writes has the configured size, it never reads, and
  with a limit on the number of messages (and no duration) the messages written, refused by the transport
  and dropped at random are together at most that number; only exceptions other than \<^verbatim>\<open>socket::exception\<close>
  leave it. The payload generator is assumed to keep the size of the message it fills.\<close>

theorem generate_stream:
  assumes "runs (run_pipe fuel cfg dst) tr out" and "false_reads tr < fuel"
    and "payload_contract tr" and "0 \<le> gn_message_size cfg"
  shows "of_size (nat (gn_message_size cfg)) tr \<and>
     (0 \<le> message_limit cfg \<longrightarrow> int (handled (gn_lossRate cfg) tr) \<le> message_limit cfg) \<and>
     (case out of Raised e \<Rightarrow> \<not> is_socket_exn e | Fuel_out \<Rightarrow> False | Ok _ \<Rightarrow> True)"
proof -
  have nf: "out \<noteq> Fuel_out" by (rule runs_out_ends[OF runs_out_run_pipe assms(1,2)])
  show ?thesis using assms(1,4) nf
  proof (cases rule: runs_run_pipe)
    case pacer
    then show ?thesis by (simp add: idle_def)
  next
    case (loop pre mid post pcr t0 st o1)
    with assms(3) have "payload_contract mid" by simp
    from generate_loop_runs[OF loop(4) this loop(6)] loop nf show ?thesis
      by (cases o1) (auto simp: idle_def split: if_splits)
  qed
qed

definition generate_env :: "strace \<Rightarrow> call \<Rightarrow> reply" where
  "generate_env h c =
     (case c of Os (Generate_payload bs) \<Rightarrow> rdata bs | Os (Load_flag f) \<Rightarrow> rint 0 | _ \<Rightarrow> rint 1)"

theorem generate_stream_witness:
  "out_messages (fst (exec (run_pipe 5 (generate_config0\<lparr>gn_num_messages := 2, gn_message_size := 1\<rparr>) (Sock_udp 3)) generate_env []))
     = [[CHR 0x00], [CHR 0x00]] \<and>
   of_size 1 (fst (exec (run_pipe 5 (generate_config0\<lparr>gn_num_messages := 2, gn_message_size := 1\<rparr>) (Sock_udp 3)) generate_env []))"
proof -
  let ?cfg = "generate_config0\<lparr>gn_num_messages := 2, gn_message_size := 1\<rparr>"
  let ?e = "fst (exec (run_pipe 5 ?cfg (Sock_udp 3)) generate_env [])"
  have z: "char_of (0::nat) = CHR 0x00" by (simp add: char_of_def)
  have five: "(5::nat) = Suc (Suc (Suc (Suc (Suc 0))))" by simp
  have e: "?e = [(Os Clock_now, rint 1), (Os Clock_now, rint 1)] @
      concat (replicate 2 [(Os (Load_flag ''force_break''), rint 0), (Os Random_double, rint 1), (Os (Generate_payload [CHR 0x00]), rdata [CHR 0x00]),
        (Os (Udp_write 3 [CHR 0x00]), rint 1), (Os Clock_now, rint 1)]) @ [(Os (Load_flag ''force_break''), rint 0)]"
    unfolding five
    by (simp add: run_pipe_def generate_loop_def generate_turn_def generate_message_def send_message_def next_message_def report_rate_def pace_def
        time_over_def make_pacer_def load_force_break_def generate_config0_def generate_env_def iota_def Let_def numeral_2_eq_2 reply0_def rint_def z)
  have c: "payload_contract ?e" "false_reads ?e < 5"
    by (simp_all add: e payload_contract_def payload_ok_def numeral_2_eq_2) (simp add: false_reads_def)
  have "out_messages ?e = [[CHR 0x00], [CHR 0x00]]"
    by (simp add: e message_defs numeral_2_eq_2)
  with generate_stream[OF runs_exec c(2,1)] show ?thesis by (simp add: generate_config0_def)
qed

text \<open>C8: a finished stream is complete. When the sending loop ends by itself with a limit on the number of
  messages, without having read the flag as set, every one of them was written, refused by the transport
  or dropped at random; with a loss rate of 0 or less (random numbers are not negative) none is dropped.\<close>

theorem generate_complete:
  assumes "runs (generate_loop fuel cfg target pacer start st) tr (Ok ())" and "payload_contract tr"
    and "gs_i st = 0" and "0 \<le> message_limit cfg" and "\<not> stop_read tr"
  shows "int (length (out_messages tr) + refused_sends tr + dropped (gn_lossRate cfg) tr) = message_limit cfg \<and>
    (gn_lossRate cfg \<le> 0 \<longrightarrow> (\<forall>e \<in> set tr. fst e = Os Random_double \<longrightarrow> 0 \<le> r_rat (snd e)) \<longrightarrow> dropped (gn_lossRate cfg) tr = 0)"
proof
  show "int (length (out_messages tr) + refused_sends tr + dropped (gn_lossRate cfg) tr) = message_limit cfg"
    using generate_loop_runs[OF assms(1-3)] assms(4,5) by (simp add: handled_def del: of_nat_add)
  show "gn_lossRate cfg \<le> 0 \<longrightarrow> (\<forall>e \<in> set tr. fst e = Os Random_double \<longrightarrow> 0 \<le> r_rat (snd e)) \<longrightarrow> dropped (gn_lossRate cfg) tr = 0"
    by (fastforce simp: dropped_def filter_empty_conv)
qed

definition one_message :: strace where
  "one_message = [(Os (Load_flag ''force_break''), rint 0), (Os Random_double, rint 0), (Os (Generate_payload ''x''), rdata ''x''),
     (Os (Udp_write 3 ''x''), rint 1), (Os Clock_now, rint 1)]"

theorem generate_complete_witness:
  "length (out_messages one_message) + refused_sends one_message + dropped 0 one_message = 1"
proof -
  let ?cfg = "generate_config0\<lparr>gn_num_messages := 1\<rparr>"
  let ?st = "\<lparr>gs_i = 0, gs_stat_time = 0, gs_prev_i = 0, gs_message = ''x''\<rparr>"
  have r: "runs (generate_loop 2 ?cfg (Sock_udp 3) False 0 ?st) one_message (Ok ())"
    by (simp add: one_message_def generate_loop_def generate_turn_def generate_message_def send_message_def next_message_def report_rate_def pace_def time_over_def
        load_force_break_def numeral_2_eq_2 generate_config0_def Let_def rint_def reply0_def)
  have c: "payload_contract one_message" "\<not> stop_read one_message"
    by (simp_all add: one_message_def payload_contract_def payload_ok_def stop_read_def)
  show ?thesis using generate_complete[OF r c(1) _ _ c(2)] by (simp add: generate_config0_def)
qed

text \<open>C32: a limited stream ends. With a limit on the number of messages smaller than the fuel, the sending loop
  ends whatever the environment does: neither the flag nor the transport is needed to stop it.\<close>

theorem generate_limited_ends:
  assumes run: "runs (generate_loop fuel cfg target pacer start st) tr out"
    and lim: "0 \<le> message_limit cfg" "gs_i st = 0" "message_limit cfg < int fuel"
  shows "out \<noteq> Fuel_out"
proof (rule runs_loopP_terminates[OF run[unfolded generate_loop_def],
      where J = "\<lambda>s. 0 \<le> gs_i s" and m = "\<lambda>s. nat (message_limit cfg - gs_i s)"])
  show "0 \<le> gs_i st" "nat (message_limit cfg - gs_i st) < fuel" using lim by simp_all
  show "0 \<le> gs_i s' \<and> nat (message_limit cfg - gs_i s') < nat (message_limit cfg - gs_i s)"
    if "0 \<le> gs_i s" "runs (generate_turn cfg target pacer start (message_limit cfg) s) t (Ok (Inl s'))" for s t s'
    using runs_generate_step[OF that(2)] that(1) lim(1) by auto
qed (use loop_free_runs[OF loop_free_generate_turn] in blast)

theorem generate_limited_ends_witness:
  "snd (exec (generate_loop 3 (generate_config0\<lparr>gn_num_messages := 2\<rparr>) (Sock_udp 3) False 0
     \<lparr>gs_i = 0, gs_stat_time = 0, gs_prev_i = 0, gs_message = []\<rparr>) (\<lambda>_ _. rint 0) []) \<noteq> Fuel_out"
  by (rule generate_limited_ends[OF runs_exec]) (simp_all add: generate_config0_def)

text \<open>The rate report overflows. After more than 203978 messages of the default size in one report, the
  product \<^verbatim>\<open>8 * n * message_size\<close> does not fit an \<^verbatim>\<open>int\<close> and the behaviour is undefined, at about 2.1 Gbps.\<close>

theorem report_rate_overflow:
  "report_rate 1316 st tnow = Exc (Undefined ''signed overflow'') \<longleftrightarrow>
     gs_stat_time st + 1000000 < tnow \<and> \<not> (gs_i st - gs_prev_i st \<in> {-203978..203978})"
proof -
  have "\<not> in_int 32 (8 * n) \<or> \<not> in_int 32 (8 * n * 1316) \<longleftrightarrow> \<not> (n \<in> {-203978..203978})" for n
    by (auto simp: in_int_def)
  then show ?thesis by (simp add: report_rate_def Let_def)
qed

end
