(* ===== verification/Receive.thy ===== *)
theory Receive
  imports Connection
begin

text \<open>
  The \<^verbatim>\<open>receive\<close> command (\<^verbatim>\<open>receive.cpp\<close>): messages are read, optionally printed, validated and answered, while
  a second thread writes the metrics. The validator is not part of the repository: its operations are
  calls. The flag of the second thread is \<^verbatim>\<open>metricsStop\<close>.
\<close>

record receive_config = stats_config +
  rc_print_notifications :: bool
  rc_send_reply :: bool
  rc_reconnect :: bool
  rc_close_listener :: bool
  rc_enable_metrics :: bool
  rc_metrics_freq_ms :: nat
  rc_metrics_file :: string
  rc_max_connections :: int
  rc_message_size :: int

definition receive_config0 :: receive_config where
  "receive_config0 =
     \<lparr>stats_freq_ms = 0, stats_file = '''', stats_format = ''csv'', rc_print_notifications = False, rc_send_reply = False,
      rc_reconnect = False, rc_close_listener = False, rc_enable_metrics = False, rc_metrics_freq_ms = 1000,
      rc_metrics_file = '''', rc_max_connections = 1, rc_message_size = 1316\<rparr>"

definition traceMessage :: "nat \<Rightarrow> int \<Rightarrow> unit sprog" where
  "traceMessage bytes connId =
     bindP (os (Print_line (''RECEIVED MESSAGE length '' @ nat_to_string bytes @ '' on conn ID '' @ int_to_string connId))) (\<lambda>_. Ret ())"

subsection \<open>The metrics thread\<close>

text \<open>One turn; the state is the time of the next report. An empty file name stands for a file that is not open.\<close>

definition metrics_turn :: "string \<Rightarrow> int \<Rightarrow> int \<Rightarrow> (int + unit) sprog" where
  "metrics_turn metricsFile freq statTime =
     bindP (os (Load_flag ''metricsStop'')) (\<lambda>forceBreak.
     if r_int forceBreak \<noteq> 0 then Ret (Inr ())
     else
       bindP (os Clock_now) (\<lambda>tnow.
       bindP (if r_int tnow \<ge> statTime then
                bindP (if metricsFile \<noteq> '''' then
                         bindP (os (Validator_stats_csv False)) (\<lambda>s.
                         bindP (os (Fs_write metricsFile (r_str s))) (\<lambda>_. Ret ()))
                       else
                         bindP (os Validator_stats) (\<lambda>statsStr.
                         bindP (os (Log_line (r_str statsStr))) (\<lambda>_. Ret ()))) (\<lambda>_.
                Ret (statTime + freq))
              else Ret statTime) (\<lambda>statTime.
       bindP (os (Sleep_until statTime)) (\<lambda>_. Ret (Inl statTime)))))"

definition metricsWritingLoop :: "nat \<Rightarrow> string \<Rightarrow> int \<Rightarrow> unit sprog" where
  "metricsWritingLoop fuel metricsFile freq =
     bindP (os Clock_now) (\<lambda>statTime. loopP fuel (metrics_turn metricsFile freq) (r_int statTime))"

subsection \<open>The receiving loop\<close>

text \<open>What is done with a received message.\<close>

definition send_reply :: "receive_config \<Rightarrow> sock \<Rightarrow> unit sprog" where
  "send_reply cfg s =
     (if rc_send_reply cfg then
        bindP (isock_write s ''Message received'' (-1)) (\<lambda>_.
        if rc_print_notifications cfg then
          bindP (os (Log_line (''Reply sent on conn ID '' @ int_to_string (isock_id s)))) (\<lambda>_. Ret ())
        else Ret ())
      else Ret ())"

definition handle_message :: "receive_config \<Rightarrow> sock \<Rightarrow> nat \<Rightarrow> bytes \<Rightarrow> unit sprog" where
  "handle_message cfg s bytes buffer =
     bindP (if rc_print_notifications cfg then traceMessage bytes (isock_id s) else Ret ()) (\<lambda>_.
     bindP (if rc_enable_metrics cfg then bindP (os (Validate_packet (take bytes buffer))) (\<lambda>_. Ret ()) else Ret ()) (\<lambda>_.
     send_reply cfg s))"

definition receive_turn :: "receive_config \<Rightarrow> sock \<Rightarrow> (unit + unit) sprog" where
  "receive_turn cfg s =
     bindP load_force_break (\<lambda>forceBreak.
     if forceBreak then Ret (Inr ())
     else
       bindP (isock_read s (nat (rc_message_size cfg)) (-1)) (\<lambda>(bytes, buffer).
       if bytes = 0 then Ret (Inl ())
       else bindP (handle_message cfg s bytes buffer) (\<lambda>_. Ret (Inl ()))))"

definition receive_loop :: "nat \<Rightarrow> receive_config \<Rightarrow> sock \<Rightarrow> unit sprog" where
  "receive_loop fuel cfg s = loopP fuel (\<lambda>_. receive_turn cfg s) ()"

text \<open>Opening the metrics file and starting the thread: \<open>None\<close> when the file cannot be opened, otherwise
  whether a thread was started.\<close>

definition start_metrics :: "receive_config \<Rightarrow> bool option sprog" where
  "start_metrics cfg =
     (if rc_enable_metrics cfg \<and> rc_metrics_freq_ms cfg > 0 then
        bindP (if rc_metrics_file cfg \<noteq> '''' then
                 bindP (os (Fs_open_write (rc_metrics_file cfg))) (\<lambda>r.
                 if r_int r < 0 then Ret False
                 else
                   bindP (os (Validator_stats_csv True)) (\<lambda>s.
                   bindP (os (Fs_write (rc_metrics_file cfg) (r_str s))) (\<lambda>_. Ret True)))
               else Ret True) (\<lambda>opened.
        if opened then bindP (os (Thread_start ''metrics'')) (\<lambda>_. Ret (Some True)) else Ret None)
      else Ret (Some False))"

definition runPipe :: "nat \<Rightarrow> receive_config \<Rightarrow> sock \<Rightarrow> unit sprog" where
  "runPipe fuel cfg src =
     (if rc_message_size cfg < 0 then Exc (Length_error ''vector'')
      else
        bindP (start_metrics cfg) (\<lambda>th.
        case th of
          None \<Rightarrow> Ret ()
        | Some started \<Rightarrow>
            bindP (catchP (receive_loop fuel cfg src) (\<lambda>e. if is_socket_exn e then Ret () else Exc e)) (\<lambda>_.
            bindP (os (Store_flag ''metricsStop'' True)) (\<lambda>_.
            bindP (if started then bindP (os (Thread_join ''metrics'')) (\<lambda>_. Ret ()) else Ret ()) (\<lambda>_.
            bindP load_force_break (\<lambda>_. Ret ()))))))"

definition receive_run :: "nat \<Rightarrow> build_flags \<Rightarrow> string list \<Rightarrow> receive_config \<Rightarrow> unit sprog" where
  "receive_run fuel fl srcUrls cfg =
     common_run fuel fl srcUrls (stats_config.truncate cfg) (rc_reconnect cfg) (rc_close_listener cfg) (runPipe fuel cfg)"

subsection \<open>What a run shows\<close>

definition validated :: "strace \<Rightarrow> bytes list" where
  "validated tr = concat (map (\<lambda>e. case fst e of Os (Validate_packet p) \<Rightarrow> [p] | _ \<Rightarrow> []) tr)"

lemma validated_append [simp]:
  "validated (t1 @ t2) = validated t1 @ validated t2" "validated [] = []" "validated ((Os (Load_flag f), r) # t) = validated t"
  by (simp_all add: validated_def)

lemma validated_transport: "confined transport_call E p \<Longrightarrow> runs p tr out \<Longrightarrow> validated tr = []"
proof -
  assume "confined transport_call E p" "runs p tr out"
  from confined_runs[OF this] show ?thesis
    by (induction tr) (auto simp: validated_def transport_call_def split: call.splits os_call.splits)
qed

text \<open>Every received message was validated (when metrics are on) and answered (when replies are on), but for
  \<open>open\<close> of them whose answer is still due.\<close>

definition answered_upto :: "receive_config \<Rightarrow> nat \<Rightarrow> strace \<Rightarrow> bool" where
  "answered_upto cfg due tr \<longleftrightarrow>
     (\<forall>m \<in> set (in_messages tr). length m \<le> nat (rc_message_size cfg)) \<and>
     validated tr = (if rc_enable_metrics cfg then in_messages tr else []) \<and>
     out_messages tr = replicate (length (out_messages tr)) ''Message received'' \<and>
     (if rc_send_reply cfg then length (in_messages tr) \<le> length (out_messages tr) + refused_sends tr + due \<and>
        length (out_messages tr) + refused_sends tr \<le> length (in_messages tr)
      else out_messages tr = [] \<and> refused_sends tr = 0)"

lemma answered_append:
  assumes "answered_upto cfg 0 t1" and "answered_upto cfg k t2"
  shows "answered_upto cfg k (t1 @ t2)"
proof -
  have "out_messages t1 @ out_messages t2 = replicate (length (out_messages t1) + length (out_messages t2)) ''Message received''"
    using assms unfolding answered_upto_def replicate_add by metis
  with assms show ?thesis by (auto simp: answered_upto_def)
qed

lemma answered_Nil [simp]: "answered_upto cfg 0 []"
  by (simp add: answered_upto_def)

lemma send_reply_runs:
  assumes "runs (send_reply cfg s) tr out"
  shows "recv_contract tr \<and> in_messages tr = [] \<and> validated tr = [] \<and> (\<forall>m \<in> set (out_messages tr). m = ''Message received'') \<and>
    (case out of
       Ok _ \<Rightarrow> length (out_messages tr) + refused_sends tr = (if rc_send_reply cfg then 1 else 0)
     | Raised e \<Rightarrow> is_socket_exn e \<and> rc_send_reply cfg \<and> length (out_messages tr) + refused_sends tr \<le> 1
     | Fuel_out \<Rightarrow> False)"
proof (cases "rc_send_reply cfg")
  case False
  with assms show ?thesis by (simp add: send_reply_def recv_contract_def)
next
  case True
  let ?wr = "isock_write s ''Message received'' (-1)"
  let ?note = "if rc_print_notifications cfg then
       bindP (os (Log_line (''Reply sent on conn ID '' @ int_to_string (isock_id s)))) (\<lambda>_. Ret ()) else Ret ()"
  have n: "recv_contract t \<and> in_messages t = [] \<and> validated t = [] \<and> out_messages t = [] \<and> refused_sends t = 0 \<and> o1 = Ok ()"
    if "runs ?note t o1" for t o1
    using that by (auto simp: runs_Call message_defs recv_contract_def recv_ok_def validated_def simp del: runs.simps(4) split: if_splits)
  from True assms consider (ok) w u1 u2 where "tr = u1 @ u2" "runs ?wr u1 (Ok w)" "runs ?note u2 out"
    | (exc) e where "out = Raised e" "runs ?wr tr (Raised e)" | (fuel) "runs ?wr tr Fuel_out"
    unfolding send_reply_def by (simp add: runs_bindP) blast
  then show ?thesis
  proof cases
    case ok
    from isk.wr_result[OF ok(2)] isk.wr_receives_nothing[OF ok(2)] validated_transport[OF confined_isock_write ok(2)] n[OF ok(3)] ok(1) True
    show ?thesis by auto
  next
    case exc
    from isk.wr_result[OF exc(2)] isk.wr_receives_nothing[OF exc(2)] validated_transport[OF confined_isock_write exc(2)] exc(1) True
    show ?thesis by auto
  next
    case fuel
    with loop_free_runs[OF isk.wr_loop_free] show ?thesis by blast
  qed
qed

lemma handle_message_runs:
  assumes "runs (handle_message cfg s k bs) tr out"
  shows "recv_contract tr \<and> in_messages tr = [] \<and> validated tr = (if rc_enable_metrics cfg then [take k bs] else []) \<and>
    (\<forall>m \<in> set (out_messages tr). m = ''Message received'') \<and>
    (case out of
       Ok _ \<Rightarrow> length (out_messages tr) + refused_sends tr = (if rc_send_reply cfg then 1 else 0)
     | Raised e \<Rightarrow> is_socket_exn e \<and> rc_send_reply cfg \<and> length (out_messages tr) + refused_sends tr \<le> 1
     | Fuel_out \<Rightarrow> False)"
proof -
  define first where "first = bindP (if rc_print_notifications cfg then traceMessage k (isock_id s) else Ret ()) (\<lambda>_.
     if rc_enable_metrics cfg then bindP (os (Validate_packet (take k bs))) (\<lambda>_. Ret ()) else Ret ())"
  have eq: "handle_message cfg s k bs = bindP first (\<lambda>_. send_reply cfg s)"
    unfolding handle_message_def first_def by (simp add: bindP_assoc)
  have f: "recv_contract t \<and> in_messages t = [] \<and> out_messages t = [] \<and> refused_sends t = 0 \<and> o1 = Ok () \<and>
      validated t = (if rc_enable_metrics cfg then [take k bs] else [])" if "runs first t o1" for t o1
    using that
    by (auto simp: first_def traceMessage_def runs_Call message_defs recv_contract_def recv_ok_def validated_def
        simp del: runs.simps(4) split: if_splits)
  then have "returns first" unfolding returns_def by blast
  with assms eq obtain t1 t2 where tr: "tr = t1 @ t2" "runs first t1 (Ok ())" "runs (send_reply cfg s) t2 out"
    by (auto simp: runs_bindP_returns)
  with f[OF tr(2)] send_reply_runs[OF tr(3)] show ?thesis by (cases out) (simp_all add: tr(1))
qed

lemma replicate_of_all: "(\<forall>m \<in> set xs. m = x) \<Longrightarrow> xs = replicate (length xs) x"
  by (induction xs) auto

lemma receive_turn_runs:
  assumes "runs (receive_turn cfg s) tr out" and "recv_contract tr"
  shows "case out of
      Ok _ \<Rightarrow> answered_upto cfg 0 tr
    | Raised e \<Rightarrow> answered_upto cfg 1 tr \<and> is_socket_exn e
    | Fuel_out \<Rightarrow> False"
proof -
  let ?n = "nat (rc_message_size cfg)"
  let ?rest = "\<lambda>(k, bs). if k = 0 then Ret (Inl ()) else bindP (handle_message cfg s k bs) (\<lambda>_. Ret (Inl ()))"
  from assms(1) obtain r :: reply and t where tr: "tr = (Os (Load_flag ''force_break''), r) # t"
    and t: "if r_int r \<noteq> 0 then t = [] \<and> out = Ok (Inr ()) else runs (bindP (isock_read s ?n (-1)) ?rest) t out"
    unfolding receive_turn_def load_force_break_def by (auto simp: runs_Call simp del: runs.simps(4) split: if_splits)
  show ?thesis
  proof (cases "r_int r = 0")
    case False
    with t tr show ?thesis by (simp add: answered_upto_def)
  next
    case True
    have c: "recv_contract t" using assms(2) tr by simp
    from True t consider
        (ok) k bs t1 t2 where "t = t1 @ t2" "runs (isock_read s ?n (-1)) t1 (Ok (k, bs))" "runs (?rest (k, bs)) t2 out"
      | (exc) e where "out = Raised e" "runs (isock_read s ?n (-1)) t (Raised e)"
      | (fuel) "runs (isock_read s ?n (-1)) t Fuel_out"
      unfolding runs_bindP[of "isock_read s ?n (-1)"] by fastforce
    then show ?thesis
    proof cases
      case ok
      from isk.rd_result[OF ok(2)] c ok(1) have k: "k = length bs" "k \<le> ?n" "in_messages t1 = nonempty bs" by simp_all
      have o1: "out_messages t1 = []" "refused_sends t1 = 0" "validated t1 = []"
        using isk.rd_sends_nothing[OF ok(2)] validated_transport[OF confined_isock_read ok(2)] by simp_all
      show ?thesis
      proof (cases "k = 0")
        case True
        with ok k o1 show ?thesis by (simp add: tr answered_upto_def nonempty_def)
      next
        case False
        with ok(3) obtain o2 where h: "runs (handle_message cfg s k bs) t2 o2"
          "out = (case o2 of Ok _ \<Rightarrow> Ok (Inl ()) | Raised e \<Rightarrow> Raised e | Fuel_out \<Rightarrow> Fuel_out)"
          by (auto simp: runs_bindP split: outcome.splits)
        with handle_message_runs[OF h(1)] k o1 ok(1) False show ?thesis
          by (cases o2) (auto simp: tr answered_upto_def nonempty_def intro: replicate_of_all)
      qed
    next
      case exc
      with isk.rd_result[OF exc(2) c] isk.rd_sends_nothing[OF exc(2)] validated_transport[OF confined_isock_read exc(2)]
      show ?thesis by (simp add: tr answered_upto_def)
    next
      case fuel
      with loop_free_runs[OF isk.rd_loop_free] show ?thesis by blast
    qed
  qed
qed

lemma runs_out_receive_loop: "runs_out_after fuel (receive_loop fuel cfg s)"
  unfolding receive_loop_def
proof (rule runs_out_loopP)
  show "runs_out_after fuel (receive_turn cfg s)"
    by (rule loop_free_runs_out)
      (auto simp: receive_turn_def handle_message_def send_reply_def traceMessage_def load_force_break_def
        intro!: confined_intros isk.rd_loop_free isk.wr_loop_free)
  show "1 \<le> false_reads t" if "runs (receive_turn cfg s) t (Ok (Inl s'))" for t s'
    using that by (auto simp: receive_turn_def runs_bindP_Ok split: if_splits)
qed

lemma runs_out_runPipe: "runs_out_after fuel (runPipe fuel cfg s)"
proof -
  have "runs_out_after fuel (start_metrics cfg)"
    by (rule loop_free_runs_out) (auto simp: start_metrics_def intro!: confined_intros)
  then show ?thesis
    unfolding runPipe_def
    by (auto intro!: runs_out_intros runs_out_receive_loop simp del: bindP_callP bindP_if split: option.splits)
qed

subsection \<open>Properties\<close>

text \<open>C7: the receiver handles every message once. Each received message fits the buffer; with metrics enabled
  the validated packets are exactly the received messages, in order; with replies enabled each message is
  answered by exactly one reply, accepted or refused by the transport (the last one may be missing when an
  exception ends the loop); without replies nothing is sent; and only \<^verbatim>\<open>socket::exception\<close> ends the loop. The same
  holds of a loop that is still running.\<close>

theorem receive_answers:
  assumes "runs (receive_loop fuel cfg s) tr out" and "recv_contract tr"
  shows "case out of
      Ok _ \<Rightarrow> answered_upto cfg 0 tr
    | Raised e \<Rightarrow> answered_upto cfg 1 tr \<and> is_socket_exn e
    | Fuel_out \<Rightarrow> answered_upto cfg 0 tr"
proof -
  have "case out of
      Ok _ \<Rightarrow> recv_contract ([] @ tr) \<longrightarrow> answered_upto cfg 0 ([] @ tr)
    | Raised e \<Rightarrow> recv_contract ([] @ tr) \<longrightarrow> answered_upto cfg 1 ([] @ tr) \<and> is_socket_exn e
    | Fuel_out \<Rightarrow> recv_contract ([] @ tr) \<longrightarrow> answered_upto cfg 0 ([] @ tr)"
  proof (rule runs_loopP_outcome[where I = "\<lambda>_ h. recv_contract h \<longrightarrow> answered_upto cfg 0 h" and body = "\<lambda>_. receive_turn cfg s"])
    show "runs (loopP fuel (\<lambda>_. receive_turn cfg s) ()) tr out" using assms(1) by (simp add: receive_loop_def)
  qed (auto dest!: receive_turn_runs intro: answered_append)
  with assms(2) show ?thesis by (cases out) simp_all
qed

definition answered_trace :: strace where
  "answered_trace = [(Os (Load_flag ''force_break''), rint 0), (Os (Udp_read 1 1316), rdata ''abc''),
     (Os (Validate_packet ''abc''), rint 0), (Os (Udp_write 1 ''Message received''), rint 16), (Os (Load_flag ''force_break''), rint 1)]"

theorem receive_answers_witness:
  "answered_upto (receive_config0\<lparr>rc_send_reply := True, rc_enable_metrics := True\<rparr>) 0 answered_trace \<and> length (in_messages answered_trace) = 1"
proof -
  let ?cfg = "receive_config0\<lparr>rc_send_reply := True, rc_enable_metrics := True\<rparr>"
  have r: "runs (receive_loop 2 ?cfg (Sock_udp 1)) answered_trace (Ok ())"
    by (simp add: answered_trace_def receive_loop_def receive_turn_def handle_message_def send_reply_def load_force_break_def numeral_2_eq_2 receive_config0_def)
  have c: "recv_contract answered_trace"
    by (simp add: answered_trace_def recv_contract_def recv_ok_def)
  have "length (in_messages answered_trace) = 1"
    by (simp add: answered_trace_def message_defs)
  with receive_answers[OF r c] show ?thesis by simp
qed

definition reports :: "strace \<Rightarrow> nat" where
  "reports tr = length (filter (\<lambda>e. fst e \<in> {Os (Validator_stats_csv False), Os Validator_stats}) tr)"

definition sleeps :: "strace \<Rightarrow> int list" where
  "sleeps tr = concat (map (\<lambda>e. case fst e of Os (Sleep_until t) \<Rightarrow> [t] | _ \<Rightarrow> []) tr)"

lemma reports_append [simp]:
  "reports (t1 @ t2) = reports t1 + reports t2" "sleeps (t1 @ t2) = sleeps t1 @ sleeps t2" "reports [] = 0" "sleeps [] = []"
  by (simp_all add: reports_def sleeps_def)

lemma metrics_turn_runs:
  assumes "runs (metrics_turn fname freq st) tr out"
  shows "(out = Ok (Inr ()) \<and> reports tr = 0 \<and> sleeps tr = []) \<or>
     (reports tr \<le> 1 \<and> out = Ok (Inl (st + int (reports tr) * freq)) \<and> sleeps tr = [st + int (reports tr) * freq])"
  using assms
  by (auto simp: metrics_turn_def runs_Call reports_def sleeps_def simp del: runs.simps(4) split: if_splits)

text \<open>The metrics are reported on a fixed grid. The thread sleeps only until times that are a whole number of
  periods after its start, that number being the reports written before the sleep at the latest: a slow
  report is not followed by a shifted schedule, and a missed period is made up for.\<close>

theorem metrics_no_drift:
  assumes "runs (metricsWritingLoop fuel fname freq) ((Os Clock_now, t0) # tr) out" and "0 < freq"
  shows "\<forall>t \<in> set (sleeps tr). \<exists>j \<le> reports tr. t = r_int t0 + int j * freq"
proof -
  define I where "I st h \<longleftrightarrow> st = r_int t0 + int (reports h) * freq \<and>
     (\<forall>t \<in> set (sleeps h). \<exists>j \<le> reports h. t = r_int t0 + int j * freq)" for st h
  have loop: "runs (loopP n (metrics_turn fname freq) st) tr out \<Longrightarrow> I st h \<Longrightarrow>
      \<forall>t \<in> set (sleeps (h @ tr)). \<exists>j \<le> reports (h @ tr). t = r_int t0 + int j * freq" for n st h tr
  proof (induction n arbitrary: st h tr)
    case (Suc n)
    have "returns (metrics_turn fname freq st)"
      using metrics_turn_runs unfolding returns_def by blast
    with Suc.prems(1) obtain x t1 t2 where t: "tr = t1 @ t2" "runs (metrics_turn fname freq st) t1 (Ok x)"
      "runs (case x of Inl s' \<Rightarrow> loopP n (metrics_turn fname freq) s' | Inr a \<Rightarrow> Ret a) t2 out"
      by (auto simp: runs_bindP_returns)
    show ?case
    proof (cases x)
      case (Inl st')
      with metrics_turn_runs[OF t(2)] Suc.prems(2) have "I st' (h @ t1)"
        by (auto simp: I_def algebra_simps intro: le_SucI trans_le_add1)
      with Suc.IH[of st' t2 "h @ t1"] t Inl show ?thesis by simp
    next
      case (Inr a)
      with metrics_turn_runs[OF t(2)] Suc.prems(2) t show ?thesis by (auto simp: I_def)
    qed
  qed (simp add: I_def)
  from assms(1) have "runs (loopP fuel (metrics_turn fname freq) (r_int t0)) tr out"
    by (simp add: metricsWritingLoop_def)
  from loop[OF this, of "[]"] show ?thesis by (simp add: I_def)
qed

theorem metrics_no_drift_witness:
  "list_all (\<lambda>t. \<exists>j \<le> 1. t = 5 + int j * 100) (sleeps [(Os (Load_flag ''metricsStop''), rint 0), (Os Clock_now, rint 7), (Os Validator_stats, rstr ''s''), (Os (Log_line ''s''), rint 0),
      (Os (Sleep_until 105), rint 0), (Os (Load_flag ''metricsStop''), rint 1)])"
proof -
  let ?tr = "[(Os (Load_flag ''metricsStop''), rint 0), (Os Clock_now, rint 7), (Os Validator_stats, rstr ''s''), (Os (Log_line ''s''), rint 0),
      (Os (Sleep_until 105), rint 0), (Os (Load_flag ''metricsStop''), rint 1)]"
  have "runs (metricsWritingLoop 2 '''' 100) ((Os Clock_now, rint 5) # ?tr) (Ok ())"
    by (simp add: metricsWritingLoop_def metrics_turn_def numeral_2_eq_2)
  from metrics_no_drift[OF this] show ?thesis by (simp add: reports_def list_all_iff)
qed

end
