(* ===== verification/FileReceive.thy ===== *)
theory FileReceive
  imports SrtStats FlagLoops
begin

text \<open>
  Receiving files (\<^verbatim>\<open>file-receive.cpp\<close>). A file arrives as packets: the first byte holds two flags (bit 0: first
  packet of a file, bit 1: last), the first packet carries the name of the file up to a NUL, the rest is
  data. The output stream is modelled with its open file and its error state. Progress messages are not
  modelled. A directory call answers 1 when it created the directory, 0 when there was one, and a
  negative number on an error.
\<close>

subsection \<open>Directories\<close>

definition createFolder :: "string \<Rightarrow> bool sprog" where
  "createFolder path = bindP (os (Fs_create_directory path)) (\<lambda>r. Ret (\<not> r_int r < 0))"

definition is_delim :: "char \<Rightarrow> bool" where
  "is_delim c \<longleftrightarrow> c = CHR ''/'' \<or> c = CHR 0x5C"

text \<open>\<^verbatim>\<open>find\<close> of a text, \<^verbatim>\<open>find_first_of\<close> and \<^verbatim>\<open>find_last_of\<close> of the delimiters; \<open>None\<close> is \<^verbatim>\<open>npos\<close>.\<close>

definition find_text :: "string \<Rightarrow> string \<Rightarrow> nat option" where
  "find_text pat s = find (\<lambda>i. take (length pat) (drop i s) = pat) [0..<Suc (length s)]"

definition find_first_delim :: "string \<Rightarrow> nat \<Rightarrow> nat option" where
  "find_first_delim s pos = find (\<lambda>i. is_delim (s ! i)) [pos..<length s]"

definition find_last_delim :: "string \<Rightarrow> nat option" where
  "find_last_delim s = find (\<lambda>i. is_delim (s ! i)) (rev [0..<length s])"

text \<open>Where the directories start: behind a leading \<^verbatim>\<open>./\<close>.\<close>

definition folders_start :: "string \<Rightarrow> nat" where
  "folders_start path =
     (case find_text ''./'' path of
        Some i \<Rightarrow> i + 2
      | None \<Rightarrow> (case find_text [CHR ''.'', CHR 0x5C] path of Some i \<Rightarrow> i + 2 | None \<Rightarrow> 0))"

definition folder_turn :: "string \<Rightarrow> nat \<Rightarrow> nat option \<Rightarrow> (nat option + bool) sprog" where
  "folder_turn path lastDelim pos =
     (case pos of
        None \<Rightarrow> Ret (Inr True)
      | Some p \<Rightarrow>
          if p = lastDelim then Ret (Inr True)
          else
            let pos = find_first_delim path (p + 1) in
            bindP (createFolder (case pos of None \<Rightarrow> path | Some q \<Rightarrow> take q path)) (\<lambda>ok.
            if ok then Ret (Inl pos) else Ret (Inr False)))"

text \<open>The loop makes at most one turn per character.\<close>

definition createSubfolders :: "string \<Rightarrow> bool sprog" where
  "createSubfolders path =
     (let pos = folders_start path in
      case find_last_delim path of
        None \<Rightarrow> Ret True
      | Some lastDelim \<Rightarrow>
          if lastDelim < pos then Ret True
          else loopP (length path + 2) (folder_turn path lastDelim) (Some pos))"

subsection \<open>The output stream\<close>

record ofile =
  of_open :: "string option"
  of_fail :: bool

definition of_close :: "ofile \<Rightarrow> ofile sprog" where
  "of_close f =
     (case of_open f of
        None \<Rightarrow> Ret (f\<lparr>of_fail := True\<rparr>)
      | Some p \<Rightarrow> bindP (os (Fs_close p)) (\<lambda>_. Ret (f\<lparr>of_open := None\<rparr>)))"

definition of_open_file :: "string \<Rightarrow> ofile \<Rightarrow> ofile sprog" where
  "of_open_file p f =
     bindP (os (Fs_open_write p)) (\<lambda>r.
       if r_int r < 0 then Ret (f\<lparr>of_fail := True\<rparr>) else Ret \<lparr>of_open = Some p, of_fail = False\<rparr>)"

definition of_write :: "bytes \<Rightarrow> ofile \<Rightarrow> ofile sprog" where
  "of_write bs f =
     (case of_open f of
        None \<Rightarrow> Ret (f\<lparr>of_fail := True\<rparr>)
      | Some p \<Rightarrow> bindP (os (Fs_write p bs)) (\<lambda>r. Ret (if r_int r < 0 then f\<lparr>of_fail := True\<rparr> else f)))"

definition of_dtor :: "ofile \<Rightarrow> unit sprog" where
  "of_dtor f = (case of_open f of None \<Rightarrow> Ret () | Some p \<Rightarrow> bindP (os (Fs_close p)) (\<lambda>_. Ret ()))"

subsection \<open>The packets\<close>

record recv_state =
  rs_file :: ofile
  rs_buf :: bytes
  rs_timeStart :: int
  rs_timeProgress :: int
  rs_fileSize :: nat

definition is_first :: "char \<Rightarrow> bool" where
  "is_first c \<longleftrightarrow> odd (of_char c :: nat)"

definition is_eof :: "char \<Rightarrow> bool" where
  "is_eof c \<longleftrightarrow> odd ((of_char c :: nat) div 2)"

text \<open>The first packet of a file: \<open>Inl\<close> the new state and the size of the header, \<open>Inr\<close> the result of
  \<^verbatim>\<open>receiveFiles\<close>. A name without a NUL in the buffer is read past its end.\<close>

definition begin_file :: "string \<Rightarrow> int \<Rightarrow> recv_state \<Rightarrow> (recv_state \<times> nat + bool \<times> ofile) sprog" where
  "begin_file dstPath tNow st =
     bindP (of_close (rs_file st)) (\<lambda>ofile.
     let name = drop 1 (rs_buf st) in
     if CHR 0x00 \<notin> set name then Exc (Undefined ''unterminated file name'')
     else
       let filename = takeWhile (\<lambda>c. c \<noteq> CHR 0x00) name;
           filepath = dstPath @ filename;
           hdrSize = 1 + length filename + 1
       in bindP (createSubfolders filepath) (\<lambda>ok.
          if \<not> ok then Ret (Inr (False, ofile))
          else
            bindP (of_open_file filepath ofile) (\<lambda>ofile.
            if of_fail ofile then Ret (Inr (True, ofile))
            else Ret (Inl (st\<lparr>rs_file := ofile, rs_timeStart := tNow, rs_timeProgress := tNow, rs_fileSize := 0\<rparr>, hdrSize)))))"

text \<open>Storing the data; the count is unsigned, so a header longer than the packet is an enormous count.\<close>

definition store_data :: "int \<Rightarrow> bool \<Rightarrow> nat \<Rightarrow> nat \<Rightarrow> recv_state \<Rightarrow> recv_state sprog" where
  "store_data tNow isEof bytes hdrSize st =
     (if of_fail (rs_file st) then Ret st
      else if bytes < hdrSize then Exc (Undefined ''negative count'')
      else
        bindP (of_write (take (bytes - hdrSize) (drop hdrSize (rs_buf st))) (rs_file st)) (\<lambda>ofile.
        let st = st\<lparr>rs_file := ofile, rs_fileSize := rs_fileSize st + (bytes - hdrSize)\<rparr> in
        bindP (os Clock_now) (\<lambda>t.
        let st = (if r_int t \<ge> rs_timeProgress st + 1000000 then st\<lparr>rs_timeProgress := tNow\<rparr> else st) in
        if isEof then bindP (of_close (rs_file st)) (\<lambda>ofile. Ret (st\<lparr>rs_file := ofile\<rparr>)) else Ret st)))"

definition receive_packet :: "string \<Rightarrow> nat \<Rightarrow> recv_state \<Rightarrow> (recv_state + bool \<times> ofile) sprog" where
  "receive_packet dstPath bytes st =
     (case rs_buf st of
        [] \<Rightarrow> Exc (Undefined ''buf[0]'')
      | c # rest \<Rightarrow>
          bindP (os Clock_now) (\<lambda>tNow.
          bindP (if is_first c then begin_file dstPath (r_int tNow) st else Ret (Inl (st, 1))) (\<lambda>x.
          case x of
            Inr res \<Rightarrow> Ret (Inr res)
          | Inl (st, hdrSize) \<Rightarrow> bindP (store_data (r_int tNow) (is_eof c) bytes hdrSize st) (\<lambda>st. Ret (Inl st)))))"

definition file_turn :: "srt_sock \<Rightarrow> string \<Rightarrow> recv_state \<Rightarrow> (recv_state + bool \<times> ofile) sprog" where
  "file_turn src dstPath st =
     bindP load_force_break (\<lambda>forceBreak.
     if forceBreak then Ret (Inr (True, rs_file st))
     else
       bindP (tryP (srt_read src (length (rs_buf st)) (-1))) (\<lambda>x.
       case x of
         Inl e \<Rightarrow> bindP (of_dtor (rs_file st)) (\<lambda>_. Exc e)
       | Inr (bytes, data) \<Rightarrow>
           if bytes = 0 then Ret (Inl st)
           else receive_packet dstPath bytes (st\<lparr>rs_buf := data @ drop (length data) (rs_buf st)\<rparr>)))"

definition receiveFiles :: "nat \<Rightarrow> srt_sock \<Rightarrow> string \<Rightarrow> bytes \<Rightarrow> bool sprog" where
  "receiveFiles fuel src dstPath buf =
     bindP (loopP fuel (file_turn src dstPath)
       \<lparr>rs_file = \<lparr>of_open = None, of_fail = False\<rparr>, rs_buf = buf, rs_timeStart = 0, rs_timeProgress = 0, rs_fileSize = 0\<rparr>)
       (\<lambda>(res, ofile). bindP (of_dtor ofile) (\<lambda>_. Ret res))"

subsection \<open>The statistics thread\<close>

definition stats_turn :: "(json \<Rightarrow> string) \<Rightarrow> srt_version \<Rightarrow> string \<Rightarrow> string \<Rightarrow> int \<Rightarrow> srt_sock \<Rightarrow> bool \<Rightarrow> (bool + unit) sprog" where
  "stats_turn dump v statsFile statsFormat interval sock printHeader =
     bindP load_force_break (\<lambda>forceBreak.
     if forceBreak then Ret (Inr ())
     else
       bindP (os (Load_flag ''localBreak'')) (\<lambda>localBreak.
       if r_int localBreak \<noteq> 0 then Ret (Inr ())
       else
         bindP (os (Sleep_for interval)) (\<lambda>_.
         bindP (srt_get_statistics dump v sock statsFormat printHeader) (\<lambda>line.
         bindP (os (Fs_write statsFile line)) (\<lambda>_. Ret (Inl False))))))"

definition statsFunc :: "(json \<Rightarrow> string) \<Rightarrow> srt_version \<Rightarrow> nat \<Rightarrow> int \<Rightarrow> string \<Rightarrow> string \<Rightarrow> srt_sock \<Rightarrow> unit sprog" where
  "statsFunc dump v fuel statsFreqMs statsFile statsFormat sock =
     (if statsFreqMs = 0 then Ret ()
      else if statsFile = '''' then Ret ()
      else
        bindP (os (Fs_open_write statsFile)) (\<lambda>r.
        if r_int r < 0 then Ret ()
        else loopP fuel (stats_turn dump v statsFile statsFormat statsFreqMs sock) True))"

subsection \<open>The command\<close>

record file_recv_config =
  fr_dst_path :: string
  fr_segment_size :: nat
  fr_stats_freq_ms :: int
  fr_stats_file :: string
  fr_stats_format :: string

definition file_recv_config0 :: file_recv_config where
  "file_recv_config0 = \<lparr>fr_dst_path = '''', fr_segment_size = 1456 * 1000, fr_stats_freq_ms = 0, fr_stats_file = '''', fr_stats_format = ''csv''\<rparr>"

text \<open>The connection is the pending result of the future; a future made by \<^verbatim>\<open>async\<close> is valid and its socket is
  not null, so that the two early returns are not reached. An exception leaves the function without setting
  \<^verbatim>\<open>localBreak\<close>, and the destructor of the future then waits for the statistics thread.\<close>

definition startFileReceiver :: "nat \<Rightarrow> srt_sock sprog \<Rightarrow> file_recv_config \<Rightarrow> (srt_sock \<Rightarrow> unit sprog) \<Rightarrow> unit sprog" where
  "startFileReceiver fuel connection cfg release =
     bindP connection (\<lambda>sock.
     bindP (os (Thread_start ''statsLogger'')) (\<lambda>_.
     bindP (tryP (receiveFiles fuel sock (fr_dst_path cfg) (replicate (fr_segment_size cfg) (CHR 0x00)))) (\<lambda>x.
     case x of
       Inl e \<Rightarrow> bindP (os (Thread_join ''statsLogger'')) (\<lambda>_. bindP (release sock) (\<lambda>_. Exc e))
     | Inr _ \<Rightarrow>
         bindP (os (Store_flag ''localBreak'' True)) (\<lambda>_.
         bindP (os (Thread_join ''statsLogger'')) (\<lambda>_. release sock)))))"

text \<open>An accepted connection is an object of its own, a connected caller is the socket itself.\<close>

definition release_connection :: "srt_sock \<Rightarrow> srt_sock \<Rightarrow> unit sprog" where
  "release_connection self connection = (if ss_mode self = LISTENER then srt_dtor connection else Ret ())"

definition file_receive_uri :: "string \<Rightarrow> file_recv_config \<Rightarrow> uri" where
  "file_receive_uri srcUrl cfg =
     (let ut = param_set ''messageapi'' ''true'' (param_set ''transtype'' ''file'' (Parse srcUrl EXPECT_FILE))
      in if \<not> param_exists ut ''rcvbuf'' then param_set ''rcvbuf'' (nat_to_string (fr_segment_size cfg * 10 mod 2 ^ 64)) ut else ut)"

definition file_receive_run :: "nat \<Rightarrow> build_flags \<Rightarrow> string \<Rightarrow> file_recv_config \<Rightarrow> unit sprog" where
  "file_receive_run fuel fl srcUrl cfg =
     bindP (srt_ctor fl (file_receive_uri srcUrl cfg)) (\<lambda>socket.
     let accept = (ss_mode socket = LISTENER) in
     bindP (tryP (bindP (if accept then srt_async_accept fl socket else srt_async_connect fl socket) (\<lambda>connection.
       startFileReceiver fuel connection cfg (release_connection socket)))) (\<lambda>x.
     bindP (srt_dtor socket) (\<lambda>_.
     case x of Inl e \<Rightarrow> if is_socket_exn e then Ret () else Exc e | Inr _ \<Rightarrow> Ret ())))"

subsection \<open>The directories that are created\<close>

definition delims :: "string \<Rightarrow> nat \<Rightarrow> nat \<Rightarrow> nat list" where
  "delims path a b = filter (\<lambda>i. is_delim (path ! i)) [a..<b]"

lemma find_filter: "find P xs = (case filter P xs of [] \<Rightarrow> None | x # _ \<Rightarrow> Some x)"
  by (induction xs) auto

lemma find_first_delim_next:
  assumes "is_delim (path ! l)" and "l < length path" and "p < l"
  obtains q where "find_first_delim path (Suc p) = Some q" "p < q" "q \<le> l"
    "delims path (Suc p) (Suc l) = q # delims path (Suc q) (Suc l)"
proof -
  have "l \<in> set (delims path (Suc p) (Suc l))"
    using assms by (simp add: delims_def)
  then obtain q qs where d: "delims path (Suc p) (Suc l) = q # qs"
    by (cases "delims path (Suc p) (Suc l)") auto
  have "q \<in> set (delims path (Suc p) (Suc l))" by (simp add: d)
  then have q: "p < q" "q \<le> l" "is_delim (path ! q)" by (auto simp: delims_def)
  have "sorted (delims path (Suc p) (Suc l))" by (simp add: delims_def sorted_wrt_filter del: upt_Suc)
  then have "q \<le> i" if "i \<in> set (delims path (Suc p) (Suc l))" for i
    using that by (auto simp: d)
  then have low: "\<forall>i \<in> {Suc p..<q}. \<not> is_delim (path ! i)"
    using q(2) by (fastforce simp: delims_def)
  have f: "filter (\<lambda>i. is_delim (path ! i)) [Suc p..<m] = q # filter (\<lambda>i. is_delim (path ! i)) [Suc q..<m]" if "q < m" for m
  proof -
    have "[Suc p..<m] = [Suc p..<q] @ q # [Suc q..<m]"
      using q that upt_add_eq_append[of "Suc p" q "m - q"] by (simp add: upt_conv_Cons)
    with low q show ?thesis by (simp add: filter_empty_conv)
  qed
  have "find_first_delim path (Suc p) = Some q"
    unfolding find_first_delim_def find_filter using f[of "length path"] q assms by simp
  moreover have "delims path (Suc p) (Suc l) = q # delims path (Suc q) (Suc l)"
    unfolding delims_def using f[of "Suc l"] q by simp
  ultimately show ?thesis using that q by blast
qed

lemma find_last_delim_Some:
  assumes "find_last_delim path = Some l"
  shows "l < length path" "is_delim (path ! l)" "\<And>i. l < i \<Longrightarrow> i < length path \<Longrightarrow> \<not> is_delim (path ! i)"
proof -
  from assms obtain k where k: "k < length path" "rev [0..<length path] ! k = l" "is_delim (path ! l)"
    "\<forall>j < k. \<not> is_delim (path ! (rev [0..<length path] ! j))"
    unfolding find_last_delim_def find_Some_iff by auto
  then have l: "l = length path - Suc k" by (simp add: rev_nth)
  with k show "l < length path" "is_delim (path ! l)" by auto
  show "\<not> is_delim (path ! i)" if "l < i" "i < length path" for i
  proof -
    have "length path - Suc i < k" "rev [0..<length path] ! (length path - Suc i) = i" using that l k(1) by (auto simp: rev_nth)
    with k(4) show ?thesis by metis
  qed
qed

lemma find_last_delim_None: "find_last_delim path = None \<Longrightarrow> i < length path \<Longrightarrow> \<not> is_delim (path ! i)"
  by (auto simp: find_last_delim_def find_None_iff)

text \<open>The directories of a path: what precedes each delimiter behind the start.\<close>

definition folders :: "string \<Rightarrow> string list" where
  "folders path = map (\<lambda>q. take q path) (delims path (Suc (folders_start path)) (length path))"

lemma delims_upto_last:
  assumes "find_last_delim path = Some l"
  shows "delims path (Suc p) (length path) = delims path (Suc p) (Suc l)"
proof (cases "p \<le> l")
  case True
  from find_last_delim_Some(1)[OF assms] obtain k where k: "length path = Suc l + k"
    using less_iff_Suc_add by auto
  have "[Suc p..<length path] = [Suc p..<Suc l] @ [Suc l..<length path]"
    unfolding k by (rule upt_add_eq_append) (use True in simp)
  with find_last_delim_Some(3)[OF assms] show ?thesis
    by (simp add: delims_def filter_empty_conv del: upt_Suc)
next
  case False
  with find_last_delim_Some(3)[OF assms] show ?thesis by (auto simp: delims_def filter_empty_conv)
qed

definition dirs_made :: "string list \<Rightarrow> strace \<Rightarrow> bool outcome \<Rightarrow> bool" where
  "dirs_made ds tr out \<longleftrightarrow>
     (\<exists>k \<le> length ds. map fst tr = map (Os \<circ> Fs_create_directory) (take k ds) \<and>
        list_all (\<lambda>e. 0 \<le> r_int (snd e)) (butlast tr) \<and>
        (out = Ok True \<and> k = length ds \<and> list_all (\<lambda>e. 0 \<le> r_int (snd e)) tr \<or>
         out = Ok False \<and> tr \<noteq> [] \<and> r_int (snd (last tr)) < 0))"

lemma dirs_made_Nil: "dirs_made [] [] (Ok True)"
  by (simp add: dirs_made_def)

lemma dirs_made_fail: "r_int r < 0 \<Longrightarrow> dirs_made (d # ds) [(Os (Fs_create_directory d), r)] (Ok False)"
  unfolding dirs_made_def by (rule exI[of _ 1]) simp

lemma dirs_made_Cons:
  assumes "0 \<le> r_int r" and "dirs_made ds tr out"
  shows "dirs_made (d # ds) ((Os (Fs_create_directory d), r) # tr) out"
proof -
  from assms(2) obtain k where "k \<le> length ds" "map fst tr = map (Os \<circ> Fs_create_directory) (take k ds)"
      "list_all (\<lambda>e. 0 \<le> r_int (snd e)) (butlast tr)"
      "out = Ok True \<and> k = length ds \<and> list_all (\<lambda>e. 0 \<le> r_int (snd e)) tr \<or> out = Ok False \<and> tr \<noteq> [] \<and> r_int (snd (last tr)) < 0"
    unfolding dirs_made_def by blast
  with assms(1) show ?thesis
    unfolding dirs_made_def by (intro exI[of _ "Suc k"]) auto
qed

lemma folder_loop_runs:
  assumes "find_last_delim path = Some l"
  shows "runs (loopP n (folder_turn path l) (Some p)) tr out \<Longrightarrow> p \<le> l \<Longrightarrow> l - p < n \<Longrightarrow>
    dirs_made (map (\<lambda>q. take q path) (delims path (Suc p) (Suc l))) tr out"
proof (induction n arbitrary: p tr)
  case (Suc n)
  note l = find_last_delim_Some[OF assms]
  show ?case
  proof (cases "p = l")
    case True
    with Suc.prems(1) show ?thesis by (simp add: folder_turn_def delims_def dirs_made_Nil)
  next
    case False
    with Suc.prems l obtain q where q: "find_first_delim path (Suc p) = Some q" "p < q" "q \<le> l"
      "delims path (Suc p) (Suc l) = q # delims path (Suc q) (Suc l)"
      using find_first_delim_next[of path l p] by auto
    from False q(1) have "folder_turn path l (Some p) =
        Call (Os (Fs_create_directory (take q path))) (\<lambda>r. if r_int r < 0 then Ret (Inr False) else Ret (Inl (Some q)))"
      by (auto simp: folder_turn_def createFolder_def)
    with Suc.prems(1) obtain r :: reply and t where tr: "tr = (Os (Fs_create_directory (take q path)), r) # t"
      and t: "if r_int r < 0 then t = [] \<and> out = Ok False else runs (loopP n (folder_turn path l) (Some q)) t out"
      by (auto simp: runs_Call simp del: runs.simps(4) split: if_splits)
    show ?thesis
    proof (cases "r_int r < 0")
      case True
      with t tr q(4) show ?thesis by (simp add: dirs_made_fail)
    next
      case False
      with t Suc.IH[of q t] q Suc.prems(3) have "dirs_made (map (\<lambda>q. take q path) (delims path (Suc q) (Suc l))) t out" by simp
      with False tr q(4) show ?thesis by (simp add: dirs_made_Cons)
    qed
  qed
qed simp

lemma createSubfolders_runs:
  assumes "runs (createSubfolders path) tr out"
  shows "dirs_made (folders path) tr out"
proof (cases "find_last_delim path")
  case None
  then have "delims path a (length path) = []" for a
    by (auto simp: delims_def filter_empty_conv dest: find_last_delim_None)
  with assms None show ?thesis by (simp add: createSubfolders_def folders_def dirs_made_Nil)
next
  case (Some l)
  note l = find_last_delim_Some[OF Some]
  show ?thesis
  proof (cases "l < folders_start path")
    case True
    with l(3) have "delims path (Suc (folders_start path)) (length path) = []"
      by (auto simp: delims_def filter_empty_conv)
    with assms Some True show ?thesis by (simp add: createSubfolders_def folders_def Let_def dirs_made_Nil)
  next
    case False
    with assms Some folder_loop_runs[OF Some, of "length path + 2" "folders_start path" tr out] l(1)
    show ?thesis by (simp add: createSubfolders_def folders_def Let_def delims_upto_last[OF Some] del: loopP.simps)
  qed
qed

subsection \<open>The files a session delivers\<close>

text \<open>The specification: each packet starts a file or continues the last one.\<close>

definition packet_name :: "bytes \<Rightarrow> string" where
  "packet_name m = takeWhile (\<lambda>c. c \<noteq> CHR 0x00) (tl m)"

definition append_last :: "(string \<times> bytes) list \<Rightarrow> bytes \<Rightarrow> (string \<times> bytes) list" where
  "append_last fs bs = (if fs = [] then [] else butlast fs @ [(fst (last fs), snd (last fs) @ bs)])"

definition absorb :: "string \<Rightarrow> (string \<times> bytes) list \<Rightarrow> bytes \<Rightarrow> (string \<times> bytes) list" where
  "absorb dst fs m =
     (if is_first (hd m) then fs @ [(dst @ packet_name m, drop (length (packet_name m) + 2) m)] else append_last fs (tl m))"

definition session_files :: "string \<Rightarrow> bytes list \<Rightarrow> (string \<times> bytes) list" where
  "session_files dst ms = foldl (absorb dst) [] ms"

text \<open>A well-formed session: a first packet names its file, any other packet follows one that was not the last
  of its file.\<close>

definition packet_ok :: "bool \<Rightarrow> bytes \<Rightarrow> bool" where
  "packet_ok opened m \<longleftrightarrow> m \<noteq> [] \<and> (if is_first (hd m) then CHR 0x00 \<in> set (tl m) else opened)"

primrec session_ok :: "bool \<Rightarrow> bytes list \<Rightarrow> bool" where
  "session_ok opened [] \<longleftrightarrow> True"
| "session_ok opened (m # ms) \<longleftrightarrow> packet_ok opened m \<and> session_ok (\<not> is_eof (hd m)) ms"

definition open_after :: "bytes list \<Rightarrow> bool" where
  "open_after ms \<longleftrightarrow> ms \<noteq> [] \<and> \<not> is_eof (hd (last ms))"

lemma session_ok_append:
  "session_ok b (ms @ [m]) \<longleftrightarrow> session_ok b ms \<and> packet_ok (if ms = [] then b else open_after ms) m"
  by (induction ms arbitrary: b) (auto simp: open_after_def)

lemma session_ok_prefix: "session_ok b (ms @ ns) \<Longrightarrow> session_ok b ms"
  by (induction ms arbitrary: b) auto

lemma session_files_append: "session_files dst (ms @ [m]) = absorb dst (session_files dst ms) m"
  by (simp add: session_files_def)

text \<open>The files that the calls of a trace wrote, in the order in which they were opened.\<close>

definition file_event :: "(string \<times> bytes) list \<Rightarrow> call \<times> reply \<Rightarrow> (string \<times> bytes) list" where
  "file_event fs e =
     (case fst e of
        Os (Fs_open_write p) \<Rightarrow> fs @ [(p, [])]
      | Os (Fs_write p bs) \<Rightarrow> append_last fs bs
      | _ \<Rightarrow> fs)"

definition files_after :: "(string \<times> bytes) list \<Rightarrow> strace \<Rightarrow> (string \<times> bytes) list" where
  "files_after fs tr = foldl file_event fs tr"

text \<open>Every file system call succeeded.\<close>

definition fs_ok :: "strace \<Rightarrow> bool" where
  "fs_ok tr \<longleftrightarrow> list_all (\<lambda>e. case fst e of
       Os (Fs_open_write p) \<Rightarrow> 0 \<le> r_int (snd e) | Os (Fs_write p bs) \<Rightarrow> 0 \<le> r_int (snd e)
     | Os (Fs_create_directory p) \<Rightarrow> 0 \<le> r_int (snd e) | _ \<Rightarrow> True) tr"

lemma fs_append [simp]:
  "files_after fs (t1 @ t2) = files_after (files_after fs t1) t2" "fs_ok (t1 @ t2) \<longleftrightarrow> fs_ok t1 \<and> fs_ok t2"
  "files_after fs [] = fs" "fs_ok []"
  by (simp_all add: files_after_def fs_ok_def)

lemma fs_event_simps [simp]:
  "files_after fs ((Os (Load_flag f), r) # t) = files_after fs t" "fs_ok ((Os (Load_flag f), r) # t) \<longleftrightarrow> fs_ok t"
  "files_after fs ((Os Clock_now, r) # t) = files_after fs t" "fs_ok ((Os Clock_now, r) # t) \<longleftrightarrow> fs_ok t"
  "files_after fs ((Os (Fs_close p), r) # t) = files_after fs t" "fs_ok ((Os (Fs_close p), r) # t) \<longleftrightarrow> fs_ok t"
  "files_after fs ((Os (Fs_open_write p), r) # t) = files_after (fs @ [(p, [])]) t"
  "fs_ok ((Os (Fs_open_write p), r) # t) \<longleftrightarrow> 0 \<le> r_int r \<and> fs_ok t"
  "files_after fs ((Os (Fs_write p bs), r) # t) = files_after (append_last fs bs) t"
  "fs_ok ((Os (Fs_write p bs), r) # t) \<longleftrightarrow> 0 \<le> r_int r \<and> fs_ok t"
  by (simp_all add: files_after_def fs_ok_def file_event_def)

lemma srt_call_no_files: "list_all (\<lambda>e. \<exists>c. fst e = Srt c) tr \<Longrightarrow> files_after fs tr = fs"
  by (induction tr) (auto simp: files_after_def file_event_def)

lemma createSubfolders_files:
  assumes "runs (createSubfolders path) tr out" and "fs_ok tr"
  shows "files_after fs tr = fs \<and> out = Ok True \<and> in_messages tr = []"
proof -
  from createSubfolders_runs[OF assms(1)] obtain k where k: "map fst tr = map (Os \<circ> Fs_create_directory) (take k (folders path))"
    "out = Ok True \<or> out = Ok False \<and> tr \<noteq> [] \<and> r_int (snd (last tr)) < 0"
    unfolding dirs_made_def by blast
  have dirs: "\<exists>p. fst e = Os (Fs_create_directory p)" if "e \<in> set tr" for e
  proof -
    from that have "fst e \<in> set (map fst tr)" by simp
    then show ?thesis unfolding k(1) by auto
  qed
  have "\<not> r_int (snd (last tr)) < 0" if ne: "tr \<noteq> []"
  proof -
    obtain p where "fst (last tr) = Os (Fs_create_directory p)" using dirs[OF last_in_set[OF ne]] by blast
    moreover have "fs_ok [last tr]"
      using assms(2) append_butlast_last_id[OF ne] fs_append(2)[of "butlast tr" "[last tr]"] by simp
    ultimately show ?thesis by (simp add: fs_ok_def)
  qed
  with k(2) have "out = Ok True" by blast
  moreover have "files_after fs t = fs \<and> in_messages t = []" if "\<forall>e \<in> set t. \<exists>p. fst e = Os (Fs_create_directory p)" for t
    using that by (induction t) (auto simp: files_after_def file_event_def in_messages_def in_message_def)
  ultimately show ?thesis using dirs by blast
qed

definition quiet :: "strace \<Rightarrow> bool" where
  "quiet tr \<longleftrightarrow> in_messages tr = [] \<and> recv_contract tr"

lemma quiet_simps [simp]:
  "quiet []" "quiet (t1 @ t2) \<longleftrightarrow> quiet t1 \<and> quiet t2"
  "quiet ((Os Clock_now, r) # t) \<longleftrightarrow> quiet t" "quiet ((Os (Fs_close p), r) # t) \<longleftrightarrow> quiet t"
  "quiet ((Os (Fs_open_write p), r) # t) \<longleftrightarrow> quiet t" "quiet ((Os (Fs_write p bs), r) # t) \<longleftrightarrow> quiet t"
  by (auto simp: quiet_def recv_contract_def recv_ok_def in_messages_def in_message_def)

lemma append_last_simps [simp]: "append_last (fs @ [(p, bs)]) cs = fs @ [(p, bs @ cs)]"
  by (simp add: append_last_def)

lemma of_close_runs:
  assumes "runs (of_close f) tr out"
  shows "quiet tr \<and> fs_ok tr \<and> files_after fs tr = fs \<and> (\<exists>f'. out = Ok f' \<and> of_open f' = None \<and> of_fail f' = (of_fail f \<or> of_open f = None))"
  using assms by (auto simp: of_close_def runs_Call simp del: runs.simps(4) split: option.splits)

lemma createSubfolders_quiet: "runs (createSubfolders path) tr out \<Longrightarrow> quiet tr"
proof -
  assume "runs (createSubfolders path) tr out"
  moreover have "confined (\<lambda>c. \<not> is_recv c) (\<lambda>_. True) (createSubfolders path)"
    by (auto simp: createSubfolders_def folder_turn_def createFolder_def is_recv_def Let_def simp del: loopP.simps
        intro!: confined_intros split: option.splits)
  ultimately show ?thesis using no_recvs[OF confined_runs] by (auto simp: quiet_def)
qed

lemma loop_free_of: "loop_free (of_close f)" "loop_free (of_open_file p f)" "loop_free (of_write bs f)" "loop_free (of_dtor f)"
  by (auto simp: of_close_def of_open_file_def of_write_def of_dtor_def intro!: confined_intros split: option.splits)

lemma begin_file_runs:
  assumes "runs (begin_file dst tNow st) tr out" and "fs_ok tr"
    and buf: "rs_buf st = m @ rest" "m \<noteq> []" "CHR 0x00 \<in> set (tl m)"
  shows "quiet tr \<and> files_after fs tr = fs @ [(dst @ packet_name m, [])] \<and>
    (\<exists>st'. out = Ok (Inl (st', length (packet_name m) + 2)) \<and> rs_buf st' = rs_buf st \<and>
       rs_file st' = \<lparr>of_open = Some (dst @ packet_name m), of_fail = False\<rparr>)"
proof -
  let ?path = "dst @ packet_name m"
  have d: "drop 1 (rs_buf st) = tl m @ rest" using buf(1,2) by (cases m) auto
  have nm: "takeWhile (\<lambda>c. c \<noteq> CHR 0x00) (tl m @ rest) = packet_name m"
    using buf(3) by (auto simp: packet_name_def)
  let ?k = "\<lambda>ok f. if \<not> ok then Ret (Inr (False, f))
      else bindP (of_open_file ?path f) (\<lambda>f2. if of_fail f2 then Ret (Inr (True, f2))
        else Ret (Inl (st\<lparr>rs_file := f2, rs_timeStart := tNow, rs_timeProgress := tNow, rs_fileSize := 0\<rparr>, 1 + length (packet_name m) + 1)))"
  have b: "begin_file dst tNow st = bindP (of_close (rs_file st)) (\<lambda>f. bindP (createSubfolders ?path) (\<lambda>ok. ?k ok f))"
    unfolding begin_file_def d nm Let_def using buf(3) by simp
  have "returns (of_close (rs_file st))" using of_close_runs unfolding returns_def by blast
  with assms(1) b obtain f t1 t2 where t: "tr = t1 @ t2" "runs (of_close (rs_file st)) t1 (Ok f)"
    "runs (bindP (createSubfolders ?path) (\<lambda>ok. ?k ok f)) t2 out"
    by (auto simp: runs_bindP_returns)
  have "returns (createSubfolders ?path)"
    using createSubfolders_runs[of ?path] unfolding returns_def dirs_made_def by blast
  with t(3) obtain ok u1 u2 where u: "t2 = u1 @ u2" "runs (createSubfolders ?path) u1 (Ok ok)" "runs (?k ok f) u2 out"
    by (auto simp: runs_bindP_returns)
  from assms(2) t(1) u(1) have f: "fs_ok u1" "fs_ok u2" by simp_all
  from createSubfolders_files[OF u(2) f(1)] u(3) have k: "files_after fs u1 = fs" "runs (?k True f) u2 out" for fs by auto
  from k(2) f(2) obtain r :: reply where r: "u2 = [(Os (Fs_open_write ?path), r)]"
    "out = Ok (Inl (st\<lparr>rs_file := \<lparr>of_open = Some ?path, of_fail = False\<rparr>, rs_timeStart := tNow, rs_timeProgress := tNow, rs_fileSize := 0\<rparr>,
       length (packet_name m) + 2))"
    by (auto simp: of_open_file_def runs_Call simp del: runs.simps(4) split: if_splits)
  show ?thesis
    using of_close_runs[OF t(2), of fs] createSubfolders_quiet[OF u(2)] k(1) by (simp add: t(1) u(1) r)
qed

lemma store_data_runs:
  assumes "runs (store_data tNow isEof bytes hdr st) tr out" and "fs_ok tr"
    and "\<not> of_fail (rs_file st)" "of_open (rs_file st) = Some p" "hdr \<le> bytes"
  shows "quiet tr \<and> files_after fs tr = append_last fs (take (bytes - hdr) (drop hdr (rs_buf st))) \<and>
    (\<exists>st'. out = Ok st' \<and> rs_buf st' = rs_buf st \<and> \<not> of_fail (rs_file st') \<and> of_open (rs_file st') = (if isEof then None else Some p))"
  using assms
  by (auto simp: store_data_def of_write_def of_close_def Let_def runs_Call simp del: runs.simps(4) split: if_splits)

text \<open>The relation between the stream and the packets so far.\<close>

definition stream_ok :: "bool \<Rightarrow> ofile \<Rightarrow> bool" where
  "stream_ok opened f \<longleftrightarrow> \<not> of_fail f \<and> (of_open f \<noteq> None \<longleftrightarrow> opened)"

lemma takeWhile_shorter: "x \<in> set xs \<Longrightarrow> \<not> P x \<Longrightarrow> length (takeWhile P xs) < length xs"
  by (induction xs) auto

lemma store_packet_runs:
  assumes "runs (bindP (store_data tn eof (length m) h s) (\<lambda>st. Ret (Inl st))) u out" "fs_ok u" "\<not> of_fail (rs_file s)"
    "of_open (rs_file s) = Some p" "rs_buf s = m @ rest" "h \<le> length m"
  shows "quiet u \<and> files_after fs u = append_last fs (drop h m) \<and>
    (\<exists>st'. out = Ok (Inl st') \<and> rs_buf st' = rs_buf s \<and> stream_ok (\<not> eof) (rs_file st'))"
proof -
  from assms(1) obtain o1 where o1: "runs (store_data tn eof (length m) h s) u o1"
    "out = (case o1 of Ok s' \<Rightarrow> Ok (Inl s') | Raised e \<Rightarrow> Raised e | Fuel_out \<Rightarrow> Fuel_out)"
    by (auto simp: runs_bindP split: outcome.splits)
  have "take (length m - h) (drop h (m @ rest)) = drop h m" using assms(6) by simp
  then show ?thesis using store_data_runs[OF o1(1) assms(2,3,4), of fs] assms(5,6) o1(2)
    by (auto simp: stream_ok_def)
qed

lemma packet_name_fits: "CHR 0x00 \<in> set (tl m) \<Longrightarrow> length (packet_name m) + 2 \<le> length m"
  using takeWhile_shorter[of "CHR 0x00" "tl m" "\<lambda>c. c \<noteq> CHR 0x00"] by (cases m) (simp_all add: packet_name_def)

lemma receive_packet_runs:
  assumes "runs (receive_packet dst bytes st) tr out" and "fs_ok tr"
    and buf: "rs_buf st = m @ rest" "bytes = length m" and ok: "packet_ok opened m" and st: "stream_ok opened (rs_file st)"
  shows "quiet tr \<and> files_after fs tr = absorb dst fs m \<and>
    (\<exists>st'. out = Ok (Inl st') \<and> length (rs_buf st') = length (rs_buf st) \<and> stream_ok (\<not> is_eof (hd m)) (rs_file st'))"
proof -
  from ok obtain c cs where m: "m = c # cs" by (cases m) (auto simp: packet_ok_def)
  let ?rest = "\<lambda>tn x. case x of Inr res \<Rightarrow> Ret (Inr res)
          | Inl (st, hdrSize) \<Rightarrow> bindP (store_data tn (is_eof c) bytes hdrSize st) (\<lambda>st. Ret (Inl st))"
  from assms(1) m buf(1) obtain tn :: reply and t where tr: "tr = (Os Clock_now, tn) # t"
    and t: "runs (bindP (if is_first c then begin_file dst (r_int tn) st else Ret (Inl (st, 1))) (?rest (r_int tn))) t out"
    unfolding receive_packet_def by (auto simp: runs_Call simp del: runs.simps(4) bindP_if)
  have fin: "quiet u \<and> files_after fs' u = append_last fs' (drop h m) \<and>
      (\<exists>st'. out = Ok (Inl st') \<and> rs_buf st' = rs_buf s \<and> stream_ok (\<not> is_eof (hd m)) (rs_file st'))"
    if "runs (?rest (r_int tn) (Inl (s, h))) u out" "fs_ok u" "\<not> of_fail (rs_file s)" "of_open (rs_file s) = Some p"
       "rs_buf s = m @ rest" "h \<le> length m" for s h u fs' p
    using store_packet_runs[of "r_int tn" "is_eof c" m h s u out p rest fs'] that by (simp add: buf(2) m)
  show ?thesis
  proof (cases "is_first c")
    case False
    with ok m have "opened" by (simp add: packet_ok_def)
    with st obtain p where p: "\<not> of_fail (rs_file st)" "of_open (rs_file st) = Some p" by (auto simp: stream_ok_def)
    from False t have "runs (?rest (r_int tn) (Inl (st, 1))) t out" by simp
    from fin[OF this _ p buf(1), of fs] assms(2) tr False m show ?thesis by (auto simp: absorb_def)
  next
    case True
    with ok m have nul: "CHR 0x00 \<in> set (tl m)" by (simp add: packet_ok_def)
    from True t have "runs (bindP (begin_file dst (r_int tn) st) (?rest (r_int tn))) t out" by simp
    moreover have bf: "\<exists>st'. o1 = Ok (Inl (st', length (packet_name m) + 2))" if "runs (begin_file dst (r_int tn) st) u o1" "fs_ok u" for u o1
      using begin_file_runs[OF that(1,2) buf(1) _ nul] m by auto
    ultimately obtain x t1 t2 where t12: "t = t1 @ t2" "runs (begin_file dst (r_int tn) st) t1 (Ok x)" "runs (?rest (r_int tn) x) t2 out"
      using assms(2) unfolding tr runs_bindP by fastforce
    from assms(2) tr t12(1) have f: "fs_ok t1" "fs_ok t2" by simp_all
    from begin_file_runs[OF t12(2) f(1) buf(1) _ nul, of fs] m obtain st' where b: "quiet t1"
      "files_after fs t1 = fs @ [(dst @ packet_name m, [])]" "x = Inl (st', length (packet_name m) + 2)" "rs_buf st' = rs_buf st"
      "rs_file st' = \<lparr>of_open = Some (dst @ packet_name m), of_fail = False\<rparr>"
      by auto
    note len = packet_name_fits[OF nul]
    from fin[of st' "length (packet_name m) + 2" t2 "dst @ packet_name m" "fs @ [(dst @ packet_name m, [])]"] t12(3) b f(2) buf(1) len
    have "quiet t2" "files_after (fs @ [(dst @ packet_name m, [])]) t2 = append_last (fs @ [(dst @ packet_name m, [])]) (drop (length (packet_name m) + 2) m)"
      "\<exists>st''. out = Ok (Inl st'') \<and> rs_buf st'' = rs_buf st' \<and> stream_ok (\<not> is_eof (hd m)) (rs_file st'')"
      by simp_all
    with b True m show ?thesis by (auto simp: tr t12(1) absorb_def)
  qed
qed

definition session_rel :: "string \<Rightarrow> nat \<Rightarrow> recv_state \<Rightarrow> strace \<Rightarrow> bool" where
  "session_rel dst n st h \<longleftrightarrow>
     files_after [] h = session_files dst (in_messages h) \<and> stream_ok (open_after (in_messages h)) (rs_file st) \<and> length (rs_buf st) = n"

definition well_behaved :: "strace \<Rightarrow> bool" where
  "well_behaved tr \<longleftrightarrow> recv_contract tr \<and> fs_ok tr \<and> session_ok False (in_messages tr)"

lemma well_behaved_append: "well_behaved (h @ tr) \<Longrightarrow> well_behaved h \<and> recv_contract tr \<and> fs_ok tr"
  by (auto simp: well_behaved_def dest: session_ok_prefix)

lemma srt_read_files: "runs (srt_read s n t) tr out \<Longrightarrow> files_after fs tr = fs"
proof -
  assume "runs (srt_read s n t) tr out"
  moreover have "confined (\<lambda>c. \<exists>x. c = Srt x) (\<lambda>_. True) (srt_read s n t)"
    by (auto simp: srt_read_def raise_exception_def Let_def intro!: confined_intros)
  ultimately show ?thesis using srt_call_no_files confined_runs by blast
qed

lemma of_dtor_runs: "runs (of_dtor f) tr out \<Longrightarrow> quiet tr \<and> fs_ok tr \<and> files_after fs tr = fs \<and> out = Ok ()"
  by (auto simp: of_dtor_def runs_Call simp del: runs.simps(4) split: option.splits)

lemma messages_flag:
  "in_messages ((Os (Load_flag f), r) # t) = in_messages t" "recv_contract ((Os (Load_flag f), r) # t) \<longleftrightarrow> recv_contract t"
  by (simp_all add: in_messages_def in_message_def recv_contract_def recv_ok_def)

text \<open>A packet that was read is absorbed.\<close>

lemma received_packet_rel:
  assumes rd: "runs (srt_read src (length (rs_buf st)) (-1)) t1 (Ok (k, data))" and "k \<noteq> 0"
    and rp: "runs (receive_packet dst k (st\<lparr>rs_buf := data @ drop (length data) (rs_buf st)\<rparr>)) t2 out"
    and wb: "well_behaved (h @ t1 @ t2)" and rel: "session_rel dst n st h"
  shows "\<exists>st'. out = Ok (Inl st') \<and> session_rel dst n st' (h @ t1 @ t2)"
proof -
  let ?st = "st\<lparr>rs_buf := data @ drop (length data) (rs_buf st)\<rparr>"
  note rel' = rel[unfolded session_rel_def]
  from well_behaved_append[OF wb] have c: "recv_contract t1" "fs_ok t1" "recv_contract t2" "fs_ok t2" by simp_all
  from srt_sock.rd_result[OF rd] c have k: "k = length data" "k \<le> length (rs_buf st)" "in_messages t1 = nonempty data" by simp_all
  with assms(2) have in1: "in_messages t1 = [data]" by (auto simp: nonempty_def)
  from wb have "well_behaved ((h @ t1) @ t2)" by simp
  from well_behaved_append[OF this] have "session_ok False (in_messages h @ [data])"
    by (simp add: well_behaved_def in1)
  then have ok: "packet_ok (open_after (in_messages h)) data"
    by (auto simp: session_ok_append open_after_def split: if_splits)
  from receive_packet_runs[OF rp _ _ k(1) ok, of "drop (length data) (rs_buf st)" "session_files dst (in_messages h)"] c rel'
  have "quiet t2" "files_after (session_files dst (in_messages h)) t2 = absorb dst (session_files dst (in_messages h)) data"
    "\<exists>st'. out = Ok (Inl st') \<and> length (rs_buf st') = length (rs_buf ?st) \<and> stream_ok (\<not> is_eof (hd data)) (rs_file st')"
    by simp_all
  then show ?thesis
    using k(1,2) rel' srt_read_files[OF rd] in1
    by (auto simp: session_rel_def session_files_append open_after_def quiet_def)
qed

lemma file_turn_runs:
  assumes "runs (file_turn src dst st) tr out" and wb: "well_behaved (h @ tr)" and rel: "session_rel dst n st h"
  shows "case out of
      Ok (Inl st') \<Rightarrow> session_rel dst n st' (h @ tr)
    | Ok (Inr (b, f)) \<Rightarrow> b \<and> files_after [] (h @ tr) = session_files dst (in_messages (h @ tr))
    | Raised e \<Rightarrow> is_socket_exn e \<and> files_after [] (h @ tr) = session_files dst (in_messages (h @ tr))
    | Fuel_out \<Rightarrow> False"
proof -
  let ?k = "\<lambda>x. case x of
         Inl e \<Rightarrow> bindP (of_dtor (rs_file st)) (\<lambda>_. Exc e)
       | Inr (bytes, data) \<Rightarrow>
           if bytes = 0 then Ret (Inl st)
           else receive_packet dst bytes (st\<lparr>rs_buf := data @ drop (length data) (rs_buf st)\<rparr>)"
  let ?rd = "srt_read src (length (rs_buf st)) (-1)"
  note flag = messages_flag
  from assms(1) obtain r :: reply and t where tr: "tr = (Os (Load_flag ''force_break''), r) # t"
    and t: "if r_int r \<noteq> 0 then t = [] \<and> out = Ok (Inr (True, rs_file st)) else runs (bindP (tryP ?rd) ?k) t out"
    unfolding file_turn_def load_force_break_def by (auto simp: runs_Call simp del: runs.simps(4) split: if_splits)
  from well_behaved_append[OF wb] tr flag have c: "recv_contract t" "fs_ok t" by simp_all
  note rel' = rel[unfolded session_rel_def]
  show ?thesis
  proof (cases "r_int r = 0")
    case False
    with t tr rel' show ?thesis by (simp add: flag)
  next
    case True
    have "returns (tryP ?rd)"
      using loop_free_runs[OF loop_free_tryP[OF srt_sock.rd_loop_free]] unfolding returns_def by (auto simp: runs_tryP) (metis loop_free_runs srt_sock.rd_loop_free)
    with True t obtain x t1 t2 where t12: "t = t1 @ t2" "runs (tryP ?rd) t1 (Ok x)" "runs (?k x) t2 out"
      by (auto simp: runs_bindP_returns)
    show ?thesis
    proof (cases x)
      case (Inl e)
      with t12 have e: "runs ?rd t1 (Raised e)" and d: "runs (bindP (of_dtor (rs_file st)) (\<lambda>_. Exc e)) t2 out" by simp_all
      from d have "runs (of_dtor (rs_file st)) t2 (Ok ()) \<and> out = Raised e"
        using of_dtor_runs[of "rs_file st"] by (fastforce simp: runs_bindP)
      with of_dtor_runs[of "rs_file st" t2 "Ok ()"] srt_sock.rd_result[OF e] srt_read_files[OF e] c t12(1) rel' show ?thesis
        by (simp add: tr flag quiet_def)
    next
      case (Inr p)
      obtain k data where p: "p = (k, data)" by (cases p)
      with Inr t12 have rd: "runs ?rd t1 (Ok (k, data))" by simp
      from srt_sock.rd_result[OF rd] c t12(1) have k: "k = length data" "k \<le> length (rs_buf st)" "in_messages t1 = nonempty data" by simp_all
      show ?thesis
      proof (cases "k = 0")
        case True
        with t12 Inr p k srt_read_files[OF rd] rel show ?thesis by (simp add: tr flag session_rel_def nonempty_def)
      next
        case False
        with t12(3) Inr p have rp: "runs (receive_packet dst k (st\<lparr>rs_buf := data @ drop (length data) (rs_buf st)\<rparr>)) t2 out" by simp
        have "session_rel dst n st (h @ [(Os (Load_flag ''force_break''), r)])"
          using rel by (simp add: session_rel_def flag)
        from received_packet_rel[OF rd False rp _ this] wb tr t12(1) show ?thesis by auto
      qed
    qed
  qed
qed

lemma runs_out_receiveFiles: "runs_out_after fuel (receiveFiles fuel src dst buf)"
proof -
  have bf: "runs_out_after fuel (begin_file dst tn st)" for tn st
  proof -
    have "runs_out_after fuel (createSubfolders p)" for p
      using createSubfolders_runs[of p] unfolding runs_out_after_def dirs_made_def by blast
    then show ?thesis
      unfolding begin_file_def Let_def
      by (intro runs_out_intros loop_free_runs_out[OF loop_free_of(1)] loop_free_runs_out[OF loop_free_of(2)]) simp_all
  qed
  have sd: "loop_free (store_data tn eof n hdr st)" for tn eof n hdr st
    by (auto simp: store_data_def Let_def intro!: confined_intros loop_free_of)
  have rp: "runs_out_after fuel (receive_packet dst n st)" for n st
    unfolding receive_packet_def
    by (auto intro!: runs_out_intros bf loop_free_runs_out[OF sd] simp del: bindP_if bindP_callP split: list.splits sum.splits prod.splits)
  have ft: "runs_out_after fuel (file_turn src dst st)" for st
    unfolding file_turn_def
    by (auto intro!: runs_out_intros rp loop_free_runs_out[OF srt_sock.rd_loop_free] loop_free_runs_out[OF loop_free_of(4)]
        simp del: bindP_if bindP_callP split: sum.splits prod.splits)
  have "runs_out_after fuel (loopP fuel (file_turn src dst) st)" for st
  proof (rule runs_out_loopP[OF ft])
    show "1 \<le> false_reads t" if "runs (file_turn src dst s) t (Ok (Inl s'))" for s t s'
      using that by (auto simp: file_turn_def runs_bindP_Ok split: if_splits)
  qed
  then show ?thesis
    unfolding receiveFiles_def
    by (intro runs_out_intros) (auto intro!: runs_out_intros loop_free_runs_out[OF loop_free_of(4)] split: prod.splits)
qed

definition files_match :: "string \<Rightarrow> strace \<Rightarrow> bool" where
  "files_match dst h \<longleftrightarrow> files_after [] h = session_files dst (in_messages h)"

lemma file_loop_runs:
  assumes r: "runs (loopP fuel (file_turn src dst) st) t out" and wb: "well_behaved t" and st: "session_rel dst n st []"
  shows "case out of Ok (b, f) \<Rightarrow> b \<and> files_match dst t | Raised e \<Rightarrow> is_socket_exn e \<and> files_match dst t | Fuel_out \<Rightarrow> True"
proof -
  have "case out of
      Ok p \<Rightarrow> well_behaved ([] @ t) \<longrightarrow> fst p \<and> files_match dst ([] @ t)
    | Raised e \<Rightarrow> well_behaved ([] @ t) \<longrightarrow> is_socket_exn e \<and> files_match dst ([] @ t)
    | Fuel_out \<Rightarrow> True"
  proof (rule runs_loopP_invariant[OF r, where I = "\<lambda>s h. well_behaved h \<longrightarrow> session_rel dst n s h"])
    show "well_behaved [] \<longrightarrow> session_rel dst n st []" using st by simp
  next
    fix s h u s'
    assume "well_behaved h \<longrightarrow> session_rel dst n s h" "runs (file_turn src dst s) u (Ok (Inl s'))"
    then show "well_behaved (h @ u) \<longrightarrow> session_rel dst n s' (h @ u)"
      using file_turn_runs[of src dst s u "Ok (Inl s')" h n] well_behaved_append[of h u] by auto
  next
    fix s h u p
    assume "well_behaved h \<longrightarrow> session_rel dst n s h" "runs (file_turn src dst s) u (Ok (Inr p))"
    then show "well_behaved (h @ u) \<longrightarrow> fst p \<and> files_match dst (h @ u)"
      using file_turn_runs[of src dst s u "Ok (Inr p)" h n] well_behaved_append[of h u]
      by (auto simp: files_match_def split: prod.splits)
  next
    fix s h u e
    assume "well_behaved h \<longrightarrow> session_rel dst n s h" "runs (file_turn src dst s) u (Raised e)"
    then show "well_behaved (h @ u) \<longrightarrow> is_socket_exn e \<and> files_match dst (h @ u)"
      using file_turn_runs[of src dst s u "Raised e" h n] well_behaved_append[of h u] by (auto simp: files_match_def)
  qed
  with wb show ?thesis by (cases out) (auto split: prod.splits)
qed

lemma receiveFiles_runs:
  assumes "runs (receiveFiles fuel src dst buf) tr out" and "false_reads tr < fuel" and "well_behaved tr"
  shows "files_after [] tr = session_files dst (in_messages tr) \<and>
    (case out of Ok b \<Rightarrow> b | Raised e \<Rightarrow> is_socket_exn e | Fuel_out \<Rightarrow> False)"
proof -
  let ?st = "\<lparr>rs_file = \<lparr>of_open = None, of_fail = False\<rparr>, rs_buf = buf, rs_timeStart = 0, rs_timeProgress = 0, rs_fileSize = 0\<rparr>"
  have st0: "session_rel dst (length buf) ?st []"
    by (simp add: session_rel_def session_files_def stream_ok_def open_after_def)
  have nf: "out \<noteq> Fuel_out" by (rule runs_out_ends[OF runs_out_receiveFiles assms(1,2)])
  from assms(1) nf consider
      (ok) b f t1 t2 where "tr = t1 @ t2" "runs (loopP fuel (file_turn src dst) ?st) t1 (Ok (b, f))"
        "runs (bindP (of_dtor f) (\<lambda>_. Ret b)) t2 out"
    | (exc) e where "out = Raised e" "runs (loopP fuel (file_turn src dst) ?st) tr (Raised e)"
    unfolding receiveFiles_def runs_bindP[of "loopP fuel (file_turn src dst) ?st"] by fastforce
  then show ?thesis
  proof cases
    case ok
    from ok(3) have d: "runs (of_dtor f) t2 (Ok ())" "out = Ok b"
      using of_dtor_runs[of f] by (fastforce simp: runs_bindP)+
    from file_loop_runs[OF ok(2) _ st0] well_behaved_append[of t1 t2] assms(3) ok(1) have "b" "files_match dst t1" by auto
    with d of_dtor_runs[OF d(1)] show ?thesis by (simp add: ok(1) files_match_def quiet_def)
  next
    case exc
    with file_loop_runs[OF exc(2) assms(3) st0] show ?thesis by (simp add: files_match_def)
  qed
qed

text \<open>C6: the receiver of files refines its specification. When the packets that arrive form a well-formed
  session and the file system calls succeed, the files opened and the bytes written to them are exactly
  those the packets stand for, in order; the receiver returns true when the flag is set and otherwise ends
  with the \<^verbatim>\<open>socket::exception\<close> of a read. It ends once the flag is read as set.\<close>

theorem file_receive_refines:
  assumes "runs (receiveFiles fuel src dst buf) tr out" and "false_reads tr < fuel" and "well_behaved tr"
  shows "files_after [] tr = session_files dst (in_messages tr) \<and>
    (case out of Ok b \<Rightarrow> b | Raised e \<Rightarrow> is_socket_exn e | Fuel_out \<Rightarrow> False)"
  by (rule receiveFiles_runs[OF assms])

definition one_file_session :: strace where
  "one_file_session =
     [(Os (Load_flag ''force_break''), rint 0), (Srt (Srt_recvmsg2 7 10), rdata [CHR 0x03, CHR ''a'', CHR 0x00, CHR ''x'', CHR ''y'']),
      (Os Clock_now, rint 5), (Os (Fs_open_write ''a''), rint 0), (Os (Fs_write ''a'' ''xy''), rint 2), (Os Clock_now, rint 6),
      (Os (Fs_close ''a''), rint 0), (Os (Load_flag ''force_break''), rint 1)]"

theorem file_receive_refines_witness:
  "files_after [] one_file_session = session_files '''' (in_messages one_file_session) \<and> files_after [] one_file_session = [(''a'', ''xy'')]"
proof -
  let ?sock = "srt_sock0\<lparr>ss_bind_socket := 7, ss_blocking_mode := True\<rparr>"
  have "find_last_delim ''a'' = None" by code_simp
  then have sub: "createSubfolders ''a'' = Ret True" by (simp add: createSubfolders_def)
  have bits: "is_first (CHR 0x03)" "is_eof (CHR 0x03)" by (simp_all add: is_first_def is_eof_def)
  have r: "runs (receiveFiles 2 ?sock '''' (replicate 10 (CHR 0x00))) one_file_session (Ok True)"
    by (simp add: receiveFiles_def file_turn_def receive_packet_def begin_file_def store_data_def of_close_def of_open_file_def of_write_def
        of_dtor_def srt_read_def one_file_session_def load_force_break_def numeral_2_eq_2 Let_def sub bits srt_consts)
  have wb: "well_behaved one_file_session" "false_reads one_file_session < 2"
    by (simp_all add: one_file_session_def well_behaved_def recv_contract_def recv_ok_def fs_ok_def in_messages_def in_message_def packet_ok_def
        srt_consts bits false_reads_def)
  have "files_after [] one_file_session = [(''a'', ''xy'')]"
    by (simp add: one_file_session_def files_after_def file_event_def append_last_def)
  with file_receive_refines[OF r wb(2,1)] show ?thesis by simp
qed

text \<open>The specification: the directories in which a relative path lies, outermost first; each is the non-empty
  text before a delimiter.\<close>

definition parent_dirs :: "string \<Rightarrow> string list" where
  "parent_dirs path = map (\<lambda>q. take q path) (filter (\<lambda>q. is_delim (path ! q)) [1..<length path])"

lemma parent_dirs_iff: "d \<in> set (parent_dirs path) \<longleftrightarrow> d \<noteq> [] \<and> (\<exists>c rest. path = d @ c # rest \<and> is_delim c)"
proof
  assume "d \<in> set (parent_dirs path)"
  then obtain q where q: "1 \<le> q" "q < length path" "is_delim (path ! q)" "d = take q path"
    by (auto simp: parent_dirs_def)
  then have "path = d @ path ! q # drop (Suc q) path" by (simp add: id_take_nth_drop)
  moreover have "d \<noteq> []" using q by auto
  ultimately show "d \<noteq> [] \<and> (\<exists>c rest. path = d @ c # rest \<and> is_delim c)" using q(3) by blast
next
  assume "d \<noteq> [] \<and> (\<exists>c rest. path = d @ c # rest \<and> is_delim c)"
  then obtain c rest where "d \<noteq> []" and p: "path = d @ c # rest" "is_delim c" by blast
  then have "1 \<le> length d" by (cases d) simp_all
  with p have "length d \<in> set (filter (\<lambda>q. is_delim (path ! q)) [1..<length path])" "d = take (length d) path" by simp_all
  then show "d \<in> set (parent_dirs path)" unfolding parent_dirs_def by (metis image_eqI list.set_map)
qed

lemma find_text_None: "find_text pat s = None \<longleftrightarrow> \<not> sublist pat s"
proof -
  have "sublist pat s \<longleftrightarrow> (\<exists>i < Suc (length s). take (length pat) (drop i s) = pat)"
  proof
    assume "sublist pat s"
    then obtain a b where "s = a @ pat @ b" by (auto simp: sublist_def)
    then show "\<exists>i < Suc (length s). take (length pat) (drop i s) = pat" by (intro exI[of _ "length a"]) simp
  next
    assume "\<exists>i < Suc (length s). take (length pat) (drop i s) = pat"
    then obtain i where "s = take i s @ pat @ drop (length pat) (drop i s)"
      by (metis append_take_drop_id)
    then show "sublist pat s" by (metis sublist_appendI)
  qed
  then show ?thesis by (auto simp: find_text_def find_None_iff simp del: upt_Suc)
qed

lemma find_text_prefix: "find_text pat (pat @ s) = Some 0"
  by (simp add: find_text_def upt_conv_Cons del: upt_Suc)

text \<open>The start the code finds is the end of a prefix \<^verbatim>\<open>./\<close>, when the text it looks for is not somewhere else.\<close>

definition start_ok :: "string \<Rightarrow> string \<Rightarrow> bool" where
  "start_ok pre rest \<longleftrightarrow>
     pre = ''./'' \<or>
     pre = [CHR ''.'', CHR 0x5C] \<and> \<not> sublist ''./'' rest \<or>
     pre = '''' \<and> \<not> sublist ''./'' rest \<and> \<not> sublist [CHR ''.'', CHR 0x5C] rest"

lemma folders_start_ok: "start_ok pre rest \<Longrightarrow> folders_start (pre @ rest) = length pre"
  using find_text_prefix[of "''./''" rest] find_text_prefix[of "[CHR ''.'', CHR 0x5C]" rest]
    find_text_None[of "''./''" "pre @ rest"] find_text_None[of "[CHR ''.'', CHR 0x5C]" "pre @ rest"]
  by (auto simp: start_ok_def folders_start_def sublist_Cons_right)

lemma folders_parent_dirs:
  assumes "start_ok pre rest"
  shows "folders (pre @ rest) = map ((@) pre) (parent_dirs rest)"
proof -
  let ?k = "length pre"
  have "[Suc ?k..<length (pre @ rest)] = map (\<lambda>q. q + ?k) [1..<length rest]"
    by (rule nth_equalityI) simp_all
  then show ?thesis
    by (simp add: folders_def delims_def parent_dirs_def folders_start_ok[OF assms] filter_map comp_def nth_append)
qed

text \<open>C25: the directories of a file. For a path that is relative, or starts with \<^verbatim>\<open>./\<close> or \<^verbatim>\<open>.\\<close>, and has
  neither of these two texts further inside (behind \<^verbatim>\<open>./\<close> anything goes), \<^verbatim>\<open>createSubfolders\<close> ends whatever the file system
  answers. It creates the directories in which the file lies, each the non-empty text before a delimiter with the
  leading \<^verbatim>\<open>./\<close> kept, from the outermost to the innermost; it returns true exactly when all of them were
  created or existed, and stops at the first that fails.\<close>

theorem createSubfolders_result:
  assumes "runs (createSubfolders (pre @ rest)) tr out" and "start_ok pre rest"
  shows "\<exists>k \<le> length (parent_dirs rest).
     map fst tr = map (\<lambda>d. Os (Fs_create_directory (pre @ d))) (take k (parent_dirs rest)) \<and>
     (out = Ok True \<and> k = length (parent_dirs rest) \<and> list_all (\<lambda>e. 0 \<le> r_int (snd e)) tr \<or>
      out = Ok False \<and> tr \<noteq> [] \<and> r_int (snd (last tr)) < 0 \<and> list_all (\<lambda>e. 0 \<le> r_int (snd e)) (butlast tr))"
proof -
  have "dirs_made (map ((@) pre) (parent_dirs rest)) tr out"
    using createSubfolders_runs[OF assms(1)] by (simp add: folders_parent_dirs[OF assms(2)])
  then show ?thesis unfolding dirs_made_def by (auto simp: take_map)
qed

theorem createSubfolders_result_witness:
  "map fst (fst (exec (createSubfolders ''./a/b/c'') (\<lambda>_ _. rint 1) [])) = [Os (Fs_create_directory ''./a''), Os (Fs_create_directory ''./a/b'')]"
proof -
  have f: "parent_dirs ''a/b/c'' = [''a'', ''a/b'']" by code_simp
  have e: "snd (exec (createSubfolders ''./a/b/c'') (\<lambda>_ _. rint 1) []) = Ok True" by code_simp
  have s: "start_ok ''./'' ''a/b/c''" by (simp add: start_ok_def)
  have "runs (createSubfolders (''./'' @ ''a/b/c'')) (fst (exec (createSubfolders ''./a/b/c'') (\<lambda>_ _. rint 1) []))
      (snd (exec (createSubfolders ''./a/b/c'') (\<lambda>_ _. rint 1) []))"
    using runs_exec[of "createSubfolders ''./a/b/c''"] by simp
  from createSubfolders_result[OF this s] show ?thesis by (auto simp: f e)
qed

text \<open>The search for \<^verbatim>\<open>./\<close> is not anchored at the start of the path: the directory in front of it is not created.\<close>

lemma subfolders_unanchored:
  "map fst (fst (exec (createSubfolders ''a./b/c'') env [])) ! 0 = Os (Fs_create_directory ''a./b'')
   \<and> parent_dirs ''a./b/c'' = [''a.'', ''a./b'']"
proof
  have f: "folders ''a./b/c'' = [''a./b'']" by code_simp
  from createSubfolders_runs[OF runs_exec[of "createSubfolders ''a./b/c''" env "[]"]]
  show "map fst (fst (exec (createSubfolders ''a./b/c'') env [])) ! 0 = Os (Fs_create_directory ''a./b'')"
    by (cases "fst (exec (createSubfolders ''a./b/c'') env [])") (auto simp: f dirs_made_def take_Cons' split: if_splits)
  show "parent_dirs ''a./b/c'' = [''a.'', ''a./b'']" by code_simp
qed

end
