(* ===== verification/FileSend.thy ===== *)
theory FileSend
  imports FileReceive
begin

text \<open>
  Sending files (\<^verbatim>\<open>file-send.cpp\<close>): enumerating a directory, and cutting each file into the packets that
  \<open>FileReceive\<close> reassembles. \<^verbatim>\<open>ifstream::read\<close> is the call \<open>Fs_read\<close>: it answers the bytes read, fewer than asked
  for at the end of the file, and a negative number on an error. Progress messages are not modelled.
\<close>

record file_send_config =
  fs_src_path :: string
  fs_segment_size :: nat
  fs_only_print :: bool
  fs_stats_freq_ms :: int
  fs_stats_file :: string
  fs_stats_format :: string

definition file_send_config0 :: file_send_config where
  "file_send_config0 = \<lparr>fs_src_path = '''', fs_segment_size = 1456 * 1000, fs_only_print = False,
     fs_stats_freq_ms = 0, fs_stats_file = '''', fs_stats_format = ''csv''\<rparr>"

subsection \<open>Sending one file\<close>

text \<open>The inner loop: a write that returns 0 is repeated. The result says whether the packet was delivered.\<close>

definition send_turn :: "srt_sock \<Rightarrow> bytes \<Rightarrow> unit \<Rightarrow> (unit + bool) sprog" where
  "send_turn dst packet _ =
     bindP (srt_write dst packet (-1)) (\<lambda>st.
     if st = 0 then Ret (Inl ())
     else if st = SRT_ERROR then Ret (Inr False)
     else Ret (Inr (st = int (length packet))))"

definition send_packet :: "nat \<Rightarrow> srt_sock \<Rightarrow> bytes \<Rightarrow> bool sprog" where
  "send_packet fuel dst packet = loopP fuel (send_turn dst packet) ()"

definition packet_flags :: "bool \<Rightarrow> bool \<Rightarrow> char" where
  "packet_flags isEof isStart = char_of ((if isEof then 2 else 0) + (if isStart then 1 else 0) :: nat)"

text \<open>One turn; the state is the header that is still to be sent (the name with its NUL, or nothing) and the
  number of bytes sent. \<open>Inr\<close> tells whether the file goes on to its report or the sender fails.\<close>

definition segment_turn :: "nat \<Rightarrow> srt_sock \<Rightarrow> nat \<Rightarrow> bytes \<times> nat \<Rightarrow> (bytes \<times> nat + bool \<times> nat) sprog" where
  "segment_turn fuel dst bufSize s =
     (case s of (hdr, fileSize) \<Rightarrow>
     bindP load_force_break (\<lambda>forceBreak.
     if forceBreak then Ret (Inr (True, fileSize))
     else
       let want = bufSize - (length hdr + 1) in
       bindP (os (Fs_read want)) (\<lambda>r.
       let n = length (r_bytes r);
           isEof = (\<not> r_int r < 0 \<and> n < want);
           isStart = (hdr \<noteq> []);
           packet = packet_flags isEof isStart # hdr @ r_bytes r;
           after = (\<lambda>(hdr, fileSize).
             if isEof then Ret (Inr (True, fileSize))
             else if r_int r < 0 then Ret (Inr (False, fileSize))
             else Ret (Inl (hdr, fileSize)))
       in if n > 0 then
            bindP (send_packet fuel dst packet) (\<lambda>delivered.
            if \<not> delivered then Ret (Inr (False, fileSize + n)) else after ([], fileSize + n))
          else after (hdr, fileSize))))"

text \<open>\<^verbatim>\<open>snprintf\<close> may write one byte more than there is behind the flags; the rate divides by the time taken.\<close>

definition sendFile :: "nat \<Rightarrow> string \<Rightarrow> string \<Rightarrow> srt_sock \<Rightarrow> nat \<Rightarrow> bool sprog" where
  "sendFile fuel filename uploadName dst bufSize =
     bindP (os (Fs_open_read filename)) (\<lambda>r.
     if r_int r < 0 then Ret False
     else
       bindP (os Clock_now) (\<lambda>timeStart.
       let name = takeWhile (\<lambda>c. c \<noteq> CHR 0x00) uploadName in
       if bufSize < length name + 2 then Exc (Undefined ''snprintf past the buffer'')
       else
         bindP (loopP fuel (segment_turn fuel dst bufSize) (name @ [CHR 0x00], 0)) (\<lambda>(res, fileSize).
         if \<not> res then Ret False
         else
           bindP (os Clock_now) (\<lambda>timeEnd.
           if r_int timeEnd = r_int timeStart then Exc (Undefined ''division by zero'') else Ret True))))"

subsection \<open>Directories\<close>

text \<open>One turn of the breadth-first search: the directories to visit and the files found.\<close>

definition directory_turn :: "string list \<times> string list \<Rightarrow> (string list \<times> string list + string list) sprog" where
  "directory_turn s =
     (case s of
        ([], filenames) \<Rightarrow> Ret (Inr filenames)
      | (p # subdirs, filenames) \<Rightarrow>
          bindP (os (Fs_is_directory p)) (\<lambda>d.
          if r_int d < 0 then Exc (Filesystem_error p)
          else if r_int d = 0 then Ret (Inl (subdirs, filenames @ [p]))
          else
            bindP (os (Fs_list_directory p)) (\<lambda>l.
            if r_int l < 0 then Exc (Filesystem_error p)
            else
              Ret (Inl (subdirs @ map fst (filter snd (r_entries l)),
                        filenames @ map fst (filter (\<lambda>e. \<not> snd e) (r_entries l)))))))"

definition readDirectory :: "nat \<Rightarrow> string \<Rightarrow> string list sprog" where
  "readDirectory fuel path = loopP fuel directory_turn ([path], [])"

text \<open>Paths: two paths are equal when they have the same elements, a trailing delimiter being an element.\<close>

function path_tokens :: "string \<Rightarrow> string list" where
  "path_tokens [] = []"
| "path_tokens (c # s) =
     (if c = CHR ''/'' then path_tokens s
      else (c # takeWhile (\<lambda>d. d \<noteq> CHR ''/'') s) # path_tokens (dropWhile (\<lambda>d. d \<noteq> CHR ''/'') s))"
  by pat_completeness auto

termination
  by (relation "measure length") (auto simp: less_Suc_eq_le length_dropWhile_le)

definition path_parts :: "string \<Rightarrow> bool \<times> string list \<times> bool" where
  "path_parts s = (s \<noteq> [] \<and> hd s = CHR ''/'', path_tokens s, path_tokens s \<noteq> [] \<and> last s = CHR ''/'')"

definition path_filename :: "string \<Rightarrow> string" where
  "path_filename s = rev (takeWhile (\<lambda>c. c \<noteq> CHR ''/'') (rev s))"

definition relativePath :: "string \<Rightarrow> string \<Rightarrow> string" where
  "relativePath filepath dirpath =
     (if path_parts dirpath = path_parts filepath then path_filename filepath
      else if find_text dirpath filepath \<noteq> Some 0 then []
      else drop (length dirpath) filepath)"

subsection \<open>The command\<close>

definition send_all :: "nat \<Rightarrow> srt_sock \<Rightarrow> string \<Rightarrow> nat \<Rightarrow> string list \<Rightarrow> unit sprog" where
  "send_all fuel dst srcPath bufSize filenames =
     bindP (foldP (\<lambda>fname go.
       if \<not> go then Ret False
       else
         bindP (sendFile fuel fname (relativePath fname srcPath) dst bufSize) (\<lambda>transmitRes.
         if \<not> transmitRes then Ret False
         else bindP load_force_break (\<lambda>forceBreak. Ret (\<not> forceBreak)))) filenames True) (\<lambda>_. Ret ())"

text \<open>Waiting until the send buffer is empty: the reply's second number is the blocks left.\<close>

definition drain_turn :: "int \<Rightarrow> unit \<Rightarrow> (unit + unit) sprog" where
  "drain_turn s _ =
     bindP (srt (Srt_getsndbuffer s)) (\<lambda>r.
     if r_int r = SRT_ERROR then Ret (Inr ())
     else if r_int2 r = 0 then Ret (Inr ())
     else bindP (os (Sleep_for 5)) (\<lambda>_. Ret (Inl ())))"

text \<open>\<^verbatim>\<open>dstSock\<close> is a copy of the socket object: its destructor closes the socket, and that of the original does
  so again.\<close>

definition startFileSender ::
  "nat \<Rightarrow> srt_sock sprog \<Rightarrow> file_send_config \<Rightarrow> string list \<Rightarrow> (srt_sock \<Rightarrow> unit sprog) \<Rightarrow> unit sprog" where
  "startFileSender fuel connection cfg filenames release =
     bindP connection (\<lambda>sock.
     bindP (os (Thread_start ''statsLogger'')) (\<lambda>_.
     let dstSock = sock in
     bindP (tryP (bindP (send_all fuel dstSock (fs_src_path cfg) (fs_segment_size cfg) filenames) (\<lambda>_.
       loopP fuel (drain_turn (ss_bind_socket dstSock)) ()))) (\<lambda>x.
     case x of
       Inl e \<Rightarrow>
         bindP (srt_dtor dstSock) (\<lambda>_.
         bindP (os (Thread_join ''statsLogger'')) (\<lambda>_. bindP (release sock) (\<lambda>_. Exc e)))
     | Inr _ \<Rightarrow>
         bindP (os (Store_flag ''localBreak'' True)) (\<lambda>_.
         bindP (os (Thread_join ''statsLogger'')) (\<lambda>_.
         bindP (srt_dtor dstSock) (\<lambda>_. release sock))))))"

definition file_send_uri :: "string \<Rightarrow> file_send_config \<Rightarrow> uri" where
  "file_send_uri dstUrl cfg =
     (let ut = param_set ''blocking'' ''true'' (param_set ''messageapi'' ''true'' (param_set ''transtype'' ''file'' (Parse dstUrl EXPECT_FILE)))
      in if \<not> param_exists ut ''sndbuf'' then param_set ''sndbuf'' (nat_to_string (fs_segment_size cfg * 10 mod 2 ^ 64)) ut else ut)"

definition file_send_run :: "nat \<Rightarrow> build_flags \<Rightarrow> string \<Rightarrow> file_send_config \<Rightarrow> unit sprog" where
  "file_send_run fuel fl dstUrl cfg =
     bindP (readDirectory fuel (fs_src_path cfg)) (\<lambda>filenames.
     if filenames = [] then Ret ()
     else if fs_only_print cfg then
       bindP (os (Print_line (''Files found in '' @ fs_src_path cfg))) (\<lambda>_.
       forP (\<lambda>fname. bindP (os (Print_line fname)) (\<lambda>_.
         bindP (os (Print_line (''RELATIVE: '' @ relativePath fname (fs_src_path cfg)))) (\<lambda>_. Ret ()))) filenames)
     else
       bindP (srt_ctor fl (file_send_uri dstUrl cfg)) (\<lambda>socket.
       let accept = (ss_mode socket = LISTENER) in
       bindP (tryP (bindP (if accept then srt_async_accept fl socket else srt_async_connect fl socket) (\<lambda>connection.
         startFileSender fuel connection cfg filenames (release_connection socket)))) (\<lambda>x.
       bindP (srt_dtor socket) (\<lambda>_.
       case x of Inl e \<Rightarrow> if is_socket_exn e then Ret () else Exc e | Inr _ \<Rightarrow> Ret ()))))"

subsection \<open>The packets of a file\<close>

text \<open>The reads of a trace with their end-of-file mark, and the packets they are cut into.\<close>

definition segment :: "call \<times> reply \<Rightarrow> (bytes \<times> bool) list" where
  "segment e = (case fst e of Os (Fs_read want) \<Rightarrow> [(r_bytes (snd e), \<not> r_int (snd e) < 0 \<and> length (r_bytes (snd e)) < want)] | _ \<Rightarrow> [])"

definition segments :: "strace \<Rightarrow> (bytes \<times> bool) list" where
  "segments tr = concat (map segment tr)"

primrec packets :: "bytes \<Rightarrow> (bytes \<times> bool) list \<Rightarrow> bytes list" where
  "packets hdr [] = []"
| "packets hdr (s # ss) =
     (if fst s = [] then packets hdr ss else (packet_flags (snd s) (hdr \<noteq> []) # hdr @ fst s) # packets [] ss)"

text \<open>The documented result of a successful send is the size of the message.\<close>

definition send_contract :: "strace \<Rightarrow> bool" where
  "send_contract tr \<longleftrightarrow> list_all (\<lambda>e. case e of (Srt (Srt_sendmsg2 s m), r) \<Rightarrow> r_int r = SRT_ERROR \<or> r_int r = int (length m) | _ \<Rightarrow> True) tr"

lemma segments_append [simp]:
  "segments (t1 @ t2) = segments t1 @ segments t2" "segments [] = []"
  "send_contract (t1 @ t2) \<longleftrightarrow> send_contract t1 \<and> send_contract t2" "send_contract []"
  by (simp_all add: segments_def send_contract_def)

lemma segments_events [simp]:
  "segments ((Os (Load_flag f), r) # t) = segments t" "send_contract ((Os (Load_flag f), r) # t) \<longleftrightarrow> send_contract t"
  "segments ((Os Clock_now, r) # t) = segments t" "send_contract ((Os Clock_now, r) # t) \<longleftrightarrow> send_contract t"
  "segments ((Os (Fs_open_read p), r) # t) = segments t" "send_contract ((Os (Fs_open_read p), r) # t) \<longleftrightarrow> send_contract t"
  "send_contract ((Os (Fs_read n), r) # t) \<longleftrightarrow> send_contract t"
  "segments ((Os (Fs_read n), r) # t) = (r_bytes r, \<not> r_int r < 0 \<and> length (r_bytes r) < n) # segments t"
  "out_messages ((Os (Load_flag f), r) # t) = out_messages t" "out_messages ((Os Clock_now, r) # t) = out_messages t"
  "out_messages ((Os (Fs_open_read p), r) # t) = out_messages t" "out_messages ((Os (Fs_read n), r) # t) = out_messages t"
  by (simp_all add: segments_def segment_def send_contract_def out_messages_def out_message_def)

lemma srt_write_segments: "runs (srt_write s m t) tr out \<Longrightarrow> segments tr = []"
proof -
  assume "runs (srt_write s m t) tr out"
  moreover have "confined (\<lambda>c. \<exists>x. c = Srt x) (\<lambda>_. True) (srt_write s m t)"
    by (auto simp: srt_write_def raise_exception_def raise_exception_reason_def intro!: confined_intros)
  ultimately have "list_all (\<lambda>e. \<exists>x. fst e = Srt x) tr" by (rule confined_runs[rotated])
  then show ?thesis by (induction tr) (auto simp: segments_def segment_def)
qed

lemma srt_write_sent:
  assumes "runs (srt_write s m t) tr (Ok k)" and "send_contract tr" and "m \<noteq> []"
  shows "if k = 0 then out_messages tr = [] else out_messages tr = [m]"
  using assms
  by (auto simp: srt_write_def runs_call_simps message_defs send_contract_def SRT_ERROR_def simp del: runs.simps(4) split: if_splits)

lemma send_turn_runs:
  "runs (send_turn dst packet s) tr (Ok x) \<longleftrightarrow>
     (\<exists>k. runs (srt_write dst packet (-1)) tr (Ok k) \<and> x = (if k = 0 then Inl () else Inr (k \<noteq> SRT_ERROR \<and> k = int (length packet))))"
proof -
  have "(\<lambda>st. if st = 0 then Ret (Inl ()) else if st = SRT_ERROR then Ret (Inr False) else Ret (Inr (st = int (length packet)))) =
      (\<lambda>k. Ret (if k = 0 then Inl () else Inr (k \<noteq> SRT_ERROR \<and> k = int (length packet))) :: (unit + bool) sprog)"
    by (auto simp: fun_eq_iff)
  then show ?thesis unfolding send_turn_def by (auto simp: runs_bindP_Ok)
qed

lemma send_packet_runs:
  assumes "runs (send_packet fuel dst packet) tr (Ok b)" and "send_contract tr" and "packet \<noteq> []"
  shows "segments tr = [] \<and> out_messages tr = [packet]"
proof -
  have "runs (loopP n (send_turn dst packet) s) tr (Ok b) \<Longrightarrow> send_contract tr \<Longrightarrow> segments tr = [] \<and> out_messages tr = [packet]" for n s tr
  proof (induction n arbitrary: tr s)
    case (Suc n)
    from Suc.prems(1) obtain x t1 t2 where x: "tr = t1 @ t2" "runs (send_turn dst packet s) t1 (Ok x)"
      "runs (case x of Inl s' \<Rightarrow> loopP n (send_turn dst packet) s' | Inr a \<Rightarrow> Ret a) t2 (Ok b)"
      by (auto simp: runs_bindP_Ok)
    then obtain k where t: "tr = t1 @ t2" "runs (srt_write dst packet (-1)) t1 (Ok k)"
      "if k = 0 then runs (loopP n (send_turn dst packet) ()) t2 (Ok b) else t2 = []"
      unfolding send_turn_runs by (auto split: if_splits)
    show ?case
      using Suc.IH[of "()" t2] t Suc.prems(2) srt_write_sent[OF t(2) _ assms(3)] srt_write_segments[OF t(2)] by (auto split: if_splits)
  qed simp
  with assms show ?thesis unfolding send_packet_def by blast
qed

lemma segment_turn_runs:
  assumes "runs (segment_turn fuel dst bufSize (hdr, sz)) tr (Ok x)" and "send_contract tr"
  shows "case x of
      Inl (hdr', sz') \<Rightarrow> (\<exists>bs. segments tr = [(bs, False)] \<and> out_messages tr = packets hdr (segments tr) \<and> hdr' = (if bs = [] then hdr else []))
    | Inr (True, sz') \<Rightarrow> out_messages tr = packets hdr (segments tr) \<and> length (segments tr) \<le> 1
    | Inr (False, sz') \<Rightarrow> True"
proof -
  from assms(1) consider
      (stop) r sz' where "tr = [(Os (Load_flag ''force_break''), r)]" "x = Inr (True, sz')"
    | (go) f r t where "tr = (Os (Load_flag ''force_break''), f) # (Os (Fs_read (bufSize - (length hdr + 1))), r) # t"
        "runs (let n = length (r_bytes r);
           isEof = (\<not> r_int r < 0 \<and> n < bufSize - (length hdr + 1));
           packet = packet_flags isEof (hdr \<noteq> []) # hdr @ r_bytes r;
           after = (\<lambda>(hdr, fileSize).
             if isEof then Ret (Inr (True, fileSize))
             else if r_int r < 0 then Ret (Inr (False, fileSize))
             else Ret (Inl (hdr, fileSize)))
       in if n > 0 then
            bindP (send_packet fuel dst packet) (\<lambda>delivered.
            if \<not> delivered then Ret (Inr (False, sz + n)) else after ([], sz + n))
          else after (hdr, sz)) t (Ok x)"
    unfolding segment_turn_def load_force_break_def by (auto simp: runs_Call Let_def simp del: runs.simps(4) split: if_splits)
  then show ?thesis
  proof cases
    case stop
    then show ?thesis by simp
  next
    case go
    let ?eof = "\<not> r_int r < 0 \<and> length (r_bytes r) < bufSize - (length hdr + 1)"
    let ?packet = "packet_flags ?eof (hdr \<noteq> []) # hdr @ r_bytes r"
    have c: "send_contract t" using assms(2) go(1) by simp
    show ?thesis
    proof (cases "r_bytes r = []")
      case True
      with go show ?thesis by (auto simp: Let_def split: if_splits)
    next
      case False
      with go(2) obtain b t1 where t1: "runs (send_packet fuel dst ?packet) t1 (Ok b)" "t = t1"
        "x = (if \<not> b then Inr (False, sz + length (r_bytes r)) else if ?eof then Inr (True, sz + length (r_bytes r))
              else if r_int r < 0 then Inr (False, sz + length (r_bytes r)) else Inl ([], sz + length (r_bytes r)))"
        by (auto simp: runs_bindP_Ok Let_def split: if_splits)
      from send_packet_runs[OF t1(1)] c t1(2) have "segments t = []" "out_messages t = [?packet]" by auto
      with False t1(3) go(1) show ?thesis by (auto split: if_splits)
    qed
  qed
qed

lemma packets_append:
  "packets hdr (ss @ ts) = packets hdr ss @ packets (if list_all (\<lambda>s. fst s = []) ss then hdr else []) ts"
  by (induction ss arbitrary: hdr) auto

lemma segment_loop_runs:
  "runs (loopP n (segment_turn fuel dst bufSize) (hdr, sz)) tr (Ok (True, sz')) \<Longrightarrow> send_contract tr \<Longrightarrow>
     out_messages tr = packets hdr (segments tr) \<and> (\<forall>s \<in> set (butlast (segments tr)). \<not> snd s)"
proof (induction n arbitrary: hdr sz tr)
  case (Suc n)
  from Suc.prems(1) obtain x t1 t2 where t: "tr = t1 @ t2" "runs (segment_turn fuel dst bufSize (hdr, sz)) t1 (Ok x)"
    "runs (case x of Inl s' \<Rightarrow> loopP n (segment_turn fuel dst bufSize) s' | Inr a \<Rightarrow> Ret a) t2 (Ok (True, sz'))"
    by (auto simp: runs_bindP_Ok)
  note turn = segment_turn_runs[OF t(2)]
  show ?case
  proof (cases x)
    case (Inl s)
    obtain hdr' sz1 where s: "s = (hdr', sz1)" by (cases s)
    with turn Inl t Suc.prems(2) obtain bs where bs: "segments t1 = [(bs, False)]" "out_messages t1 = packets hdr [(bs, False)]"
      "hdr' = (if bs = [] then hdr else [])"
      by auto
    from Suc.IH[of hdr' sz1 t2] t Inl s Suc.prems(2)
    have "out_messages t2 = packets hdr' (segments t2)" "\<forall>s \<in> set (butlast (segments t2)). \<not> snd s" by simp_all
    with bs t(1) packets_append[of hdr "[(bs, False)]" "segments t2"] show ?thesis by auto
  next
    case (Inr p)
    with t have p: "p = (True, sz')" "t2 = []" by auto
    with turn Inr t(1) Suc.prems(2) have "out_messages tr = packets hdr (segments tr)" "length (segments tr) \<le> 1" by auto
    then show ?thesis by (cases "segments tr" rule: rev_cases) auto
  qed
qed simp

lemma sendFile_runs:
  assumes "runs (sendFile fuel filename uploadName dst bufSize) tr (Ok True)" and "send_contract tr"
  shows "out_messages tr = packets (takeWhile (\<lambda>c. c \<noteq> CHR 0x00) uploadName @ [CHR 0x00]) (segments tr) \<and>
    (\<forall>s \<in> set (butlast (segments tr)). \<not> snd s)"
proof -
  let ?name = "takeWhile (\<lambda>c. c \<noteq> CHR 0x00) uploadName"
  from assms(1) obtain a b :: reply and sz t1 t2 where
    tr: "tr = [(Os (Fs_open_read filename), a), (Os Clock_now, b)] @ t1 @ t2"
    and t1: "runs (loopP fuel (segment_turn fuel dst bufSize) (?name @ [CHR 0x00], 0)) t1 (Ok (True, sz))"
    and t2: "\<exists>c. t2 = [(Os Clock_now, c)]"
    unfolding sendFile_def Let_def by (auto simp: runs_Call runs_bindP_Ok simp del: runs.simps(4) loopP.simps split: if_splits)
  from t2 obtain c :: reply where "t2 = [(Os Clock_now, c)]" by blast
  with segment_loop_runs[OF t1] assms(2) show ?thesis by (simp add: tr)
qed

subsection \<open>Round trip\<close>

lemma packet_flags_bits [simp]: "is_first (packet_flags e s) = s" "is_eof (packet_flags e s) = e"
  by (simp_all add: packet_flags_def is_first_def is_eof_def)

lemma absorb_continue:
  "foldl (absorb dst) (fs @ [(p, bs)]) (packets [] ss) = fs @ [(p, bs @ concat (map fst ss))]"
  by (induction ss arbitrary: bs) (auto simp: absorb_def)

lemma absorb_packets:
  assumes "CHR 0x00 \<notin> set name"
  shows "foldl (absorb dst) fs (packets (name @ [CHR 0x00]) ss) =
    (if concat (map fst ss) = [] then fs else fs @ [(dst @ name, concat (map fst ss))])"
proof (induction ss)
  case (Cons s ss)
  have n: "packet_name (c # name @ CHR 0x00 # bs) = name" for c bs
    unfolding packet_name_def list.sel by (subst takeWhile_append2) (use assms in auto)
  have "absorb dst fs (packet_flags e True # name @ CHR 0x00 # bs) = fs @ [(dst @ name, bs)]" for e bs
    by (simp add: absorb_def n)
  with Cons show ?case by (simp add: absorb_continue)
qed simp

lemma session_ok_continue: "(\<forall>s \<in> set (butlast ss). \<not> snd s) \<Longrightarrow> session_ok True (packets [] ss)"
  by (induction ss) (auto simp: packet_ok_def split: if_splits)

lemma session_ok_packets:
  "(\<forall>s \<in> set (butlast ss). \<not> snd s) \<Longrightarrow> session_ok b (packets (name @ [CHR 0x00]) ss)"
proof (induction ss)
  case (Cons s ss)
  then have ss: "\<forall>s \<in> set (butlast ss). \<not> snd s" by (auto split: if_splits)
  show ?case
  proof (cases "fst s = []")
    case True
    with Cons.IH[OF ss] show ?thesis by simp
  next
    case False
    have "session_ok (\<not> snd s) (packets [] ss)"
    proof (cases "ss = []")
      case False
      with Cons.prems have "\<not> snd s" by simp
      with session_ok_continue[OF ss] show ?thesis by simp
    qed simp
    with False show ?thesis by (simp add: packet_ok_def)
  qed
qed simp


definition one_file_sent :: strace where
  "one_file_sent =
     [(Os (Fs_open_read ''f''), rint 0), (Os Clock_now, rint 1), (Os (Load_flag ''force_break''), rint 0), (Os (Fs_read 7), rdata ''xy''),
      (Srt (Srt_sendmsg2 7 [CHR 0x03, CHR ''a'', CHR 0x00, CHR ''x'', CHR ''y'']), rint 5), (Os Clock_now, rint 2)]"



definition full_packet_sent :: strace where
  "full_packet_sent =
     [(Os (Fs_open_read ''f''), rint 0), (Os Clock_now, rint 1), (Os (Load_flag ''force_break''), rint 0), (Os (Fs_read 2), rdata ''xy''),
      (Srt (Srt_sendmsg2 7 [CHR 0x01, CHR ''a'', CHR 0x00, CHR ''x'', CHR ''y'']), rint 5),
      (Os (Load_flag ''force_break''), rint 0), (Os (Fs_read 4), rdata []), (Os Clock_now, rint 2)]"


subsection \<open>The search for files\<close>

definition visited :: "strace \<Rightarrow> string list" where
  "visited tr = concat (map (\<lambda>e. case fst e of Os (Fs_is_directory p) \<Rightarrow> [p] | _ \<Rightarrow> []) tr)"

definition listed :: "strace \<Rightarrow> (string \<times> bool) list" where
  "listed tr = concat (map (\<lambda>e. case fst e of
       Os (Fs_list_directory p) \<Rightarrow> r_entries (snd e)
     | Os (Fs_is_directory p) \<Rightarrow> if r_int (snd e) = 0 then [(p, False)] else []
     | _ \<Rightarrow> []) tr)"

lemma visited_append [simp]:
  "visited (t1 @ t2) = visited t1 @ visited t2" "listed (t1 @ t2) = listed t1 @ listed t2" "visited [] = []" "listed [] = []"
  by (simp_all add: visited_def listed_def)

definition found_dirs :: "strace \<Rightarrow> string list" where
  "found_dirs tr = map fst (filter snd (listed tr))"

definition found_files :: "strace \<Rightarrow> string list" where
  "found_files tr = map fst (filter (\<lambda>e. \<not> snd e) (listed tr))"

lemma directory_turn_runs:
  assumes "runs (directory_turn (ds, fs)) tr (Ok x)"
  shows "case x of
      Inl (ds', fs') \<Rightarrow> visited tr @ ds' = ds @ found_dirs tr \<and> fs' = fs @ found_files tr
    | Inr fs' \<Rightarrow> ds = [] \<and> tr = [] \<and> fs' = fs"
  using assms
  by (auto simp: directory_turn_def runs_Call visited_def listed_def found_dirs_def found_files_def simp del: runs.simps(4)
      split: list.splits if_splits)

text \<open>C24: the search finds everything. When it returns, the directories it visited are the starting path and every
  directory that any visited directory listed, each as often as it was listed and in that order, and the
  result is every file that was listed (or the path itself when it is a file), in order.\<close>

theorem readDirectory_complete:
  assumes "runs (readDirectory fuel path) tr (Ok filenames)"
  shows "visited tr = path # found_dirs tr \<and> filenames = found_files tr"
proof -
  have dirs: "found_dirs (t1 @ t2) = found_dirs t1 @ found_dirs t2" "found_files (t1 @ t2) = found_files t1 @ found_files t2" for t1 t2
    by (simp_all add: found_dirs_def found_files_def)
  have "visited ([] @ tr) = path # found_dirs ([] @ tr) \<and> filenames = found_files ([] @ tr)"
  proof (rule runs_loopP_Ok[OF assms[unfolded readDirectory_def],
        where I = "\<lambda>s h. visited h @ fst s = path # found_dirs h \<and> snd s = found_files h"])
    show "visited [] @ fst ([path], []) = path # found_dirs [] \<and> snd ([path], []) = found_files []"
      by (simp add: found_dirs_def found_files_def)
  next
    fix s h t s'
    assume I: "visited h @ fst s = path # found_dirs h \<and> snd s = found_files h" and r: "runs (directory_turn s) t (Ok (Inl s'))"
    from r have "visited t @ fst s' = fst s @ found_dirs t \<and> snd s' = snd s @ found_files t"
      using directory_turn_runs[of "fst s" "snd s" t "Inl s'"] by (simp add: split_beta)
    with I show "visited (h @ t) @ fst s' = path # found_dirs (h @ t) \<and> snd s' = found_files (h @ t)"
      by (simp add: dirs)
  next
    fix s h t a
    assume I: "visited h @ fst s = path # found_dirs h \<and> snd s = found_files h" and r: "runs (directory_turn s) t (Ok (Inr a))"
    from r have "fst s = [] \<and> t = [] \<and> a = snd s"
      using directory_turn_runs[of "fst s" "snd s" t "Inr a"] by simp
    with I show "visited (h @ t) = path # found_dirs (h @ t) \<and> a = found_files (h @ t)" by simp
  qed
  then show ?thesis by simp
qed

definition small_tree :: "strace \<Rightarrow> call \<Rightarrow> reply" where
  "small_tree h c =
     (case c of
        Os (Fs_list_directory p) \<Rightarrow>
          if p = ''d'' then (rint 0)\<lparr>r_entries := [(''d/e'', True), (''d/f'', False)]\<rparr> else (rint 0)\<lparr>r_entries := [(''d/e/g'', False)]\<rparr>
      | _ \<Rightarrow> rint 1)"

theorem readDirectory_complete_witness:
  "\<exists>tr. runs (readDirectory 3 ''d'') tr (Ok [''d/f'', ''d/e/g'']) \<and> visited tr = [''d'', ''d/e'']"
proof -
  let ?e = "exec (readDirectory 3 ''d'') small_tree []"
  have o: "snd ?e = Ok [''d/f'', ''d/e/g'']" "found_dirs (fst ?e) = [''d/e'']"
    by (simp_all add: readDirectory_def directory_turn_def small_tree_def numeral_3_eq_3 found_dirs_def listed_def rint_def reply0_def Let_def)
  with runs_exec[of "readDirectory 3 ''d''" small_tree "[]"] have r: "runs (readDirectory 3 ''d'') (fst ?e) (Ok [''d/f'', ''d/e/g''])" by simp
  from readDirectory_complete[OF r] o(2) r show ?thesis by auto
qed

lemma runs_bind_tryP:
  assumes "runs (bindP (tryP p) f) tr out" and "out \<noteq> Fuel_out"
  obtains x t1 t2 where "tr = t1 @ t2" "runs (f x) t2 out"
proof -
  have "\<not> runs (tryP p) tr (Raised e)" for e by (simp add: runs_tryP)
  with assms that show thesis unfolding runs_bindP by blast
qed

text \<open>How often a program closes a socket at least.\<close>

definition closes :: "nat \<Rightarrow> int \<Rightarrow> 'a sprog \<Rightarrow> bool" where
  "closes n s p \<longleftrightarrow> (\<forall>tr out. runs p tr out \<longrightarrow> n \<le> count_list (closed_sockets tr) s)"

lemma closes_bindP:
  assumes "returns p" and "closes n s p" and "\<And>x. closes m s (f x)"
  shows "closes (n + m) s (bindP p f)"
  unfolding closes_def runs_bindP_returns[OF assms(1)]
proof (intro allI impI)
  fix tr out
  assume "\<exists>x tr1 tr2. tr = tr1 @ tr2 \<and> runs p tr1 (Ok x) \<and> runs (f x) tr2 out"
  then obtain x t1 t2 where "tr = t1 @ t2" "runs p t1 (Ok x)" "runs (f x) t2 out" by blast
  with assms(2,3) show "n + m \<le> count_list (closed_sockets tr) s"
    unfolding closes_def by (auto simp: trace_projections_append intro!: add_mono)
qed

lemma closes_simps: "closes 0 s p" "returns (callP c)" "returns (srt_dtor sock)" "closes 1 (ss_bind_socket sock) (srt_dtor sock)"
  using runs_srt_dtor unfolding closes_def returns_def by fastforce+

text \<open>The connection of a sender is closed twice. Sending over an accepted connection copies the socket object;
  on every way out of \<^verbatim>\<open>startFileSender\<close> after the connection was made, the destructors of the copy and of the
  original close the same socket.\<close>

theorem file_sender_double_close:
  assumes "runs (startFileSender fuel (Ret sock) cfg filenames (release_connection listener)) tr out" and "out \<noteq> Fuel_out"
    and "ss_mode listener = LISTENER"
  shows "2 \<le> count_list (closed_sockets tr) (ss_bind_socket sock)"
proof -
  let ?work = "bindP (send_all fuel sock (fs_src_path cfg) (fs_segment_size cfg) filenames) (\<lambda>_. loopP fuel (drain_turn (ss_bind_socket sock)) ())"
  define bye :: "cpp_exn + unit \<Rightarrow> unit sprog" where "bye x = (case x of
       Inl e \<Rightarrow>
         bindP (srt_dtor sock) (\<lambda>_.
         bindP (os (Thread_join ''statsLogger'')) (\<lambda>_. bindP (release_connection listener sock) (\<lambda>_. Exc e)))
     | Inr _ \<Rightarrow>
         bindP (os (Store_flag ''localBreak'' True)) (\<lambda>_.
         bindP (os (Thread_join ''statsLogger'')) (\<lambda>_.
         bindP (srt_dtor sock) (\<lambda>_. release_connection listener sock))))" for x
  have rel: "release_connection listener sock = srt_dtor sock" using assms(3) by (simp add: release_connection_def)
  have "startFileSender fuel (Ret sock) cfg filenames (release_connection listener) =
      Call (Os (Thread_start ''statsLogger'')) (\<lambda>_. bindP (tryP ?work) bye)"
    unfolding startFileSender_def Let_def bye_def by (simp only: bindP.simps(1) bindP_callP)
  with assms(1) obtain r :: reply and t where t: "tr = (Os (Thread_start ''statsLogger''), r) # t" "runs (bindP (tryP ?work) bye) t out"
    by (auto simp: runs_Call simp del: runs.simps(4))
  from t(2) assms(2) obtain x t1 t2 where t12: "t = t1 @ t2" "runs (bye x) t2 out"
    by (rule runs_bind_tryP)
  have "closes (1 + (0 + (1 + 0))) (ss_bind_socket sock) (bye x)" if "x = Inl e" for e
    unfolding bye_def that sum.case rel by (intro closes_bindP closes_simps)
  moreover have "closes (0 + (0 + (1 + 1))) (ss_bind_socket sock) (bye x)" if "x = Inr y" for y
    unfolding bye_def that sum.case rel by (intro closes_bindP closes_simps)
  ultimately have "2 \<le> count_list (closed_sockets t2) (ss_bind_socket sock)"
    using t12(2) unfolding closes_def by (cases x) auto
  then show ?thesis by (simp add: t(1) t12(1) trace_projections_append closed_sockets_def)
qed

theorem file_sender_double_close_witness:
  "2 \<le> count_list (closed_sockets (fst (exec (startFileSender 1 (Ret (srt_sock0\<lparr>ss_bind_socket := 7\<rparr>)) file_send_config0 []
     (release_connection (srt_sock0\<lparr>ss_mode := LISTENER\<rparr>))) (\<lambda>_ _. rint 0) []))) 7"
proof -
  let ?p = "startFileSender 1 (Ret (srt_sock0\<lparr>ss_bind_socket := 7\<rparr>)) file_send_config0 [] (release_connection (srt_sock0\<lparr>ss_mode := LISTENER\<rparr>))"
  have "snd (exec ?p (\<lambda>_ _. rint 0) []) \<noteq> Fuel_out"
    by (simp add: startFileSender_def send_all_def drain_turn_def srt_dtor_def release_connection_def Let_def srt_consts srt_sock0_def rint_def reply0_def)
  from file_sender_double_close[OF runs_exec this] show ?thesis by (simp add: srt_sock0_def)
qed

end
