(* ===== verification/SrtNode.thy ===== *)
theory SrtNode
  imports UriParser CreateAddr SocketOptions ISocket FlagLoops
begin

text \<open>
  The node of the \<^verbatim>\<open>file forward\<close> command (\<^verbatim>\<open>srt_node.cpp\<close>): an SRT endpoint with one epoll for accepting and one for
  receiving. The atomic flag \<^verbatim>\<open>m_stop_accept\<close>, which another thread may set, is read and written by calls; it is
  named after its node. Messages of the verbose log are not modelled, the calls in their arguments are.
\<close>

record srt_node =
  n_stop_flag :: string
  n_accepted :: "int list"
  n_bindsock :: int
  n_epoll_accept :: int
  n_epoll_receive :: int
  n_host :: string
  n_port :: int
  n_options :: cmap

definition no_epoll :: string where
  "no_epoll = ''Can'' @ [CHR 0x27] @ ''t create epoll in nonblocking mode''"

definition node_ctor :: "string \<Rightarrow> uri \<Rightarrow> srt_node sprog" where
  "node_ctor stop_flag src_uri =
     bindP (srt Srt_startup) (\<lambda>_.
     bindP (srt Srt_epoll_create) (\<lambda>a.
     if r_int a = -1 then Exc (Runtime_error no_epoll)
     else
       bindP (srt Srt_epoll_create) (\<lambda>b.
       if r_int b = -1 then Exc (Runtime_error no_epoll)
       else Ret \<lparr>n_stop_flag = stop_flag, n_accepted = [], n_bindsock = SRT_INVALID_SOCK, n_epoll_accept = r_int a,
                 n_epoll_receive = r_int b, n_host = m_host src_uri, n_port = portno src_uri, n_options = parameters src_uri\<rparr>)))"

definition node_close :: "srt_node \<Rightarrow> unit sprog" where
  "node_close self = bindP (os (Store_flag (n_stop_flag self) True)) (\<lambda>_. Ret ())"

definition node_dtor :: "srt_node \<Rightarrow> unit sprog" where
  "node_dtor self =
     bindP (os (Store_flag (n_stop_flag self) True)) (\<lambda>_.
     bindP (srt (Srt_close (n_bindsock self))) (\<lambda>_. Ret ()))"

subsection \<open>Accepting\<close>

definition ConfigureAcceptedSocket :: "build_flags \<Rightarrow> srt_node \<Rightarrow> int \<Rightarrow> int sprog" where
  "ConfigureAcceptedSocket fl self sock =
     bindP (srt (Srt_setsockopt sock SRTO_RCVSYN (OV_bool False))) (\<lambda>result.
     if r_int result = -1 then Ret (r_int result)
     else
       bindP (srt (Srt_setsockopt sock SRTO_SNDSYN (OV_int 1))) (\<lambda>result.
       if r_int result = -1 then Ret (r_int result)
       else bindP (SrtConfigurePost fl sock (n_options self)) (\<lambda>_. Ret 0)))"

definition AcceptNewClient :: "build_flags \<Rightarrow> srt_node \<Rightarrow> int sprog" where
  "AcceptNewClient fl self =
     bindP (srt (Srt_accept (n_bindsock self))) (\<lambda>socket.
     if r_int socket = SRT_INVALID_SOCK then bindP (srt Srt_getlasterror_str) (\<lambda>_. Ret (r_int socket))
     else
       bindP (ConfigureAcceptedSocket fl self (r_int socket)) (\<lambda>stat.
       bindP (if stat = SRT_ERROR then bindP (srt Srt_getlasterror_str) (\<lambda>_. Ret ()) else Ret ()) (\<lambda>_.
       Ret (r_int socket))))"

text \<open>One turn of the accepting loop. The capacity \<^verbatim>\<open>rnum\<close>, which each wait overwrites with the number of sockets it
  stored and the next wait is given again, and the array of these sockets are used by the library and the log only: what
  the node does depends on the returned count, which the reply leaves open.\<close>

definition accept_turn :: "build_flags \<Rightarrow> srt_node \<Rightarrow> unit \<Rightarrow> (unit + int \<times> srt_node) sprog" where
  "accept_turn fl self _ =
     bindP load_force_break (\<lambda>force_break.
     if force_break then Ret (Inr (SRT_ERROR, self))
     else
       bindP (srt (Srt_epoll_wait (n_epoll_accept self) True False 500)) (\<lambda>epoll_res.
       if r_int epoll_res > 0 then
         bindP (AcceptNewClient fl self) (\<lambda>sock.
         if sock \<noteq> SRT_INVALID_SOCK then
           bindP (srt (Srt_epoll_add_usock (n_epoll_receive self) sock (SRT_EPOLL_IN + SRT_EPOLL_ERR))) (\<lambda>_.
           Ret (Inr (sock, self\<lparr>n_accepted := (if sock \<in> set (n_accepted self) then n_accepted self else n_accepted self @ [sock])\<rparr>)))
         else Ret (Inl ()))
       else Ret (Inl ())))"

definition AcceptingThread :: "nat \<Rightarrow> build_flags \<Rightarrow> srt_node \<Rightarrow> (int \<times> srt_node) sprog" where
  "AcceptingThread fuel fl self = loopP fuel (accept_turn fl self) ()"

subsection \<open>Connecting and listening\<close>

definition node_ConfigurePre :: "build_flags \<Rightarrow> srt_node \<Rightarrow> int \<Rightarrow> int sprog" where
  "node_ConfigurePre fl self sock =
     bindP (srt (Srt_setsockopt sock SRTO_TSBPDMODE (OV_int 0))) (\<lambda>result.
     if r_int result = -1 then Ret (r_int result)
     else
       bindP (srt (Srt_setsockopt sock SRTO_RCVSYN (OV_int 0))) (\<lambda>result.
       if r_int result = -1 then Ret (r_int result)
       else
         bindP (srt (Srt_setsockopt sock SRTO_SNDSYN (OV_int 1))) (\<lambda>result.
         if r_int result = -1 then Ret (r_int result)
         else
           bindP (SrtConfigurePre fl sock '''' (n_options self)) (\<lambda>(conmode, failures).
           Ret (if conmode = FAILURE then SRT_ERROR else 0)))))"

text \<open>\<^verbatim>\<open>sizeof sa\<close> is the size of the whole object: the address and its length field.\<close>

definition sizeof_netaddr_any :: int where
  "sizeof_netaddr_any = 32"

definition connect_node :: "srt_node \<Rightarrow> netaddr_any \<Rightarrow> int sprog" where
  "connect_node self sa =
     bindP (srt (Srt_setsockopt (n_bindsock self) SRTO_RCVSYN (OV_int 1))) (\<lambda>result.
     if r_int result = -1 then Ret (r_int result)
     else
       bindP (srt (Srt_connect (n_bindsock self) (storage sa) sizeof_netaddr_any)) (\<lambda>stat.
       if r_int stat = SRT_ERROR then
         bindP (srt (Srt_close (n_bindsock self))) (\<lambda>_.
         bindP (srt Srt_getlasterror_str) (\<lambda>_. Ret SRT_ERROR))
       else
         bindP (srt (Srt_setsockopt (n_bindsock self) SRTO_RCVSYN (OV_int 0))) (\<lambda>result.
         if r_int result = -1 then bindP (srt Srt_getlasterror_str) (\<lambda>_. Ret (r_int result))
         else
           bindP (srt (Srt_epoll_add_usock (n_epoll_receive self) (n_bindsock self) (SRT_EPOLL_IN + SRT_EPOLL_ERR))) (\<lambda>_. Ret 0))))"

definition listen_node :: "srt_node \<Rightarrow> netaddr_any \<Rightarrow> int \<Rightarrow> int sprog" where
  "listen_node self sa max_conn =
     bindP (srt (Srt_bind (n_bindsock self) (storage sa) sizeof_netaddr_any)) (\<lambda>stat.
     if r_int stat = SRT_ERROR then bindP (srt (Srt_close (n_bindsock self))) (\<lambda>_. Ret SRT_ERROR)
     else
       bindP (srt (Srt_listen (n_bindsock self) max_conn)) (\<lambda>stat.
       if r_int stat = SRT_ERROR then
         bindP (srt (Srt_close (n_bindsock self))) (\<lambda>_.
         bindP (srt Srt_getlasterror_str) (\<lambda>_. Ret SRT_ERROR))
       else Ret 0))"

text \<open>The node with its socket, and the result.\<close>

definition EstablishConnection :: "build_flags \<Rightarrow> srt_node \<Rightarrow> bool \<Rightarrow> int \<Rightarrow> (int \<times> srt_node) sprog" where
  "EstablishConnection fl self caller max_conn =
     bindP (srt Srt_create_socket) (\<lambda>s.
     let self = self\<lparr>n_bindsock := r_int s\<rparr> in
     if n_bindsock self = SRT_INVALID_SOCK then Ret (SRT_ERROR, self)
     else
       bindP (node_ConfigurePre fl self (n_bindsock self)) (\<lambda>stat.
       if stat = SRT_ERROR then Ret (SRT_ERROR, self)
       else
         bindP (srt (Srt_epoll_add_usock (n_epoll_accept self) (n_bindsock self) SRT_EPOLL_IN)) (\<lambda>_.
         bindP (create_addr (n_host self) (n_port self)) (\<lambda>sa.
         bindP (if caller then connect_node self sa else listen_node self sa max_conn) (\<lambda>res. Ret (res, self))))))"

definition node_Listen :: "build_flags \<Rightarrow> srt_node \<Rightarrow> int \<Rightarrow> (int \<times> srt_node) sprog" where
  "node_Listen fl self max_conn = EstablishConnection fl self False max_conn"

definition node_Connect :: "build_flags \<Rightarrow> srt_node \<Rightarrow> (int \<times> srt_node) sprog" where
  "node_Connect fl self = EstablishConnection fl self True 1"

subsection \<open>Receiving and sending\<close>

text \<open>The result of \<^verbatim>\<open>Receive\<close>: the return value, the bytes in the buffer, and the connection id when it was set.\<close>

record received =
  rx_res :: int
  rx_data :: bytes
  rx_id :: "int option"

text \<open>After a receive that gave no data. A failed one that is neither a lost connection nor an invalid socket is
  reported with its connection.\<close>

definition receive_failed :: "srt_node \<Rightarrow> int \<Rightarrow> int \<Rightarrow> (received \<times> srt_node) sprog" where
  "receive_failed self sock recv_res =
     bindP (srt Srt_getlasterror) (\<lambda>err.
     let srt_err = r_int err; erased = self\<lparr>n_accepted := removeAll sock (n_accepted self)\<rparr>;
         none = \<lparr>rx_res = 0, rx_data = [], rx_id = None\<rparr>
     in if srt_err = SRT_ECONNLOST then bindP (srt (Srt_close sock)) (\<lambda>_. Ret (none, erased))
        else if srt_err = SRT_EINVSOCK then
          bindP (srt (Srt_getsockstate sock)) (\<lambda>_.
          bindP (srt (Srt_epoll_remove_usock (n_epoll_receive self) sock)) (\<lambda>_. Ret (none, erased)))
        else Ret (\<lparr>rx_res = recv_res, rx_data = [], rx_id = Some sock\<rparr>, self))"

definition receive_from :: "srt_node \<Rightarrow> int \<Rightarrow> nat \<Rightarrow> (received \<times> srt_node) sprog" where
  "receive_from self sock buffer_len =
     bindP (srt (Srt_recvmsg2 sock buffer_len)) (\<lambda>r.
     if r_int r > 0 then Ret (\<lparr>rx_res = r_int r, rx_data = r_bytes r, rx_id = Some sock\<rparr>, self)
     else receive_failed self sock (r_int r))"

text \<open>One turn; \<open>ndebug\<close> tells whether assertions are compiled out. The reply holds the sockets ready to read,
  and the number of those ready to write.\<close>

definition receive_node_turn :: "bool \<Rightarrow> nat \<Rightarrow> srt_node \<Rightarrow> unit \<Rightarrow> (unit + received \<times> srt_node) sprog" where
  "receive_node_turn ndebug buffer_len self _ =
     bindP (os (Load_flag (n_stop_flag self))) (\<lambda>stop.
     if r_int stop \<noteq> 0 then Ret (Inr (\<lparr>rx_res = 0, rx_data = [], rx_id = None\<rparr>, self))
     else
       bindP (srt (Srt_epoll_wait (n_epoll_receive self) True True 3000)) (\<lambda>epoll_res.
       if r_int epoll_res \<le> 0 then Ret (Inl ())
       else
         let rnum = int (length (r_fds epoll_res)); wnum = r_int2 epoll_res in
         if \<not> ndebug \<and> \<not> (rnum > 0 \<and> wnum \<le> rnum) then Exc (Undefined ''assert'')
         else if rnum \<le> 0 \<and> wnum \<le> 0 then Ret (Inr (\<lparr>rx_res = -2, rx_data = [], rx_id = None\<rparr>, self))
         else
           let sock = (case r_fds epoll_res of [] \<Rightarrow> SRT_INVALID_SOCK | s # _ \<Rightarrow> s) in
           bindP (receive_from self sock buffer_len) (\<lambda>x. Ret (Inr x))))"

definition node_Receive :: "nat \<Rightarrow> bool \<Rightarrow> srt_node \<Rightarrow> nat \<Rightarrow> (received \<times> srt_node) sprog" where
  "node_Receive fuel ndebug self buffer_len = loopP fuel (receive_node_turn ndebug buffer_len self) ()"

definition node_Send :: "bytes \<Rightarrow> int \<Rightarrow> int sprog" where
  "node_Send buffer srt_socket_id = bindP (srt (Srt_sendmsg srt_socket_id buffer (-1) True)) (\<lambda>r. Ret (r_int r))"

definition node_Send_bindsock :: "srt_node \<Rightarrow> bytes \<Rightarrow> int sprog" where
  "node_Send_bindsock self buffer = bindP (srt (Srt_sendmsg (n_bindsock self) buffer (-1) True)) (\<lambda>r. Ret (r_int r))"

subsection \<open>Waiting for the send buffer\<close>

text \<open>One poll; the state is \<^verbatim>\<open>ms_passed\<close>. The replies' further numbers are the blocks and the bytes left.\<close>

definition undelivered_turn :: "int \<Rightarrow> int \<Rightarrow> int \<Rightarrow> (int + int) sprog" where
  "undelivered_turn sock wait_ms ms_passed =
     bindP (srt (Srt_getsndbuffer sock)) (\<lambda>r.
     let blocks = r_int2 r; bytes = wrap_int 32 (r_int3 r) in
     if r_int r = SRT_ERROR then Ret (Inr SRT_ERROR)
     else if wait_ms = 0 then Ret (Inr bytes)
     else if wait_ms \<noteq> -1 \<and> ms_passed \<ge> wait_ms then Ret (Inr bytes)
     else
       bindP (if blocks \<noteq> 0 then bindP (os (Sleep_for 1)) (\<lambda>_. Ret ()) else Ret ()) (\<lambda>_.
       if ms_passed = 2 ^ 31 - 1 then Exc (Undefined ''signed overflow'')
       else if blocks \<noteq> 0 then Ret (Inl (ms_passed + 1)) else Ret (Inr bytes)))"

definition WaitUndelivered :: "nat \<Rightarrow> srt_node \<Rightarrow> int \<Rightarrow> int sprog" where
  "WaitUndelivered fuel self wait_ms =
     bindP (srt (Srt_getsockstate (n_bindsock self))) (\<lambda>status.
     if r_int status \<noteq> SRTS_CONNECTED \<and> r_int status \<noteq> SRTS_CLOSING then Ret 0
     else loopP fuel (undelivered_turn (n_bindsock self) wait_ms) 0)"

subsection \<open>Properties\<close>

definition waits :: "strace \<Rightarrow> nat" where
  "waits tr = length (filter (\<lambda>e. fst e = Os (Sleep_for 1)) tr)"

lemma waits_append [simp]: "waits (t1 @ t2) = waits t1 + waits t2" "waits [] = 0"
  by (simp_all add: waits_def)

definition poll_result :: "reply \<Rightarrow> int" where
  "poll_result r = (if r_int r = SRT_ERROR then SRT_ERROR else wrap_int 32 (r_int3 r))"

lemma undelivered_turn_runs:
  assumes "runs (undelivered_turn s w m) tr out" and "0 \<le> w" "m \<le> w" "w < 2 ^ 31"
  shows "\<exists>r t. tr = (Srt (Srt_getsndbuffer s), r) # t \<and>
     (out = Ok (Inr (poll_result r)) \<and> waits tr = 0 \<or> out = Ok (Inl (m + 1)) \<and> m < w \<and> waits tr = 1)"
  using assms
  by (auto simp: undelivered_turn_def poll_result_def waits_def Let_def runs_Call simp del: runs.simps(4) split: if_splits)

lemma undelivered_loop_runs:
  "runs (loopP n (undelivered_turn s w) m) tr out \<Longrightarrow> 0 \<le> m \<Longrightarrow> m \<le> w \<Longrightarrow> w < 2 ^ 31 \<Longrightarrow> nat (w - m) < n \<Longrightarrow>
     waits tr \<le> nat (w - m) \<and> (\<exists>r. (Srt (Srt_getsndbuffer s), r) \<in> set tr \<and> out = Ok (poll_result r))"
proof (induction n arbitrary: m tr)
  case (Suc n)
  have turn: "\<exists>r t. u = (Srt (Srt_getsndbuffer s), r) # t \<and>
     (o1 = Ok (Inr (poll_result r)) \<and> waits u = 0 \<or> o1 = Ok (Inl (m + 1)) \<and> m < w \<and> waits u = 1)"
    if "runs (undelivered_turn s w m) u o1" for u o1
    using undelivered_turn_runs[OF that] Suc.prems by simp
  then have "returns (undelivered_turn s w m)" unfolding returns_def by blast
  with Suc.prems(1) obtain x t1 t2 where t: "tr = t1 @ t2" "runs (undelivered_turn s w m) t1 (Ok x)"
    "runs (case x of Inl s' \<Rightarrow> loopP n (undelivered_turn s w) s' | Inr a \<Rightarrow> Ret a) t2 out"
    by (auto simp: runs_bindP_returns)
  from turn[OF t(2)] obtain r t' where r: "t1 = (Srt (Srt_getsndbuffer s), r) # t'"
    "x = Inr (poll_result r) \<and> waits t1 = 0 \<or> x = Inl (m + 1) \<and> m < w \<and> waits t1 = 1" by auto
  show ?case
  proof (cases x)
    case (Inl m')
    with r have m: "m' = m + 1" "m < w" "waits t1 = 1" by auto
    with Suc.IH[of m' t2] t(3) Inl Suc.prems have "waits t2 \<le> nat (w - m') \<and> (\<exists>r. (Srt (Srt_getsndbuffer s), r) \<in> set t2 \<and> out = Ok (poll_result r))"
      by simp
    with m t(1) show ?thesis by auto
  next
    case (Inr a)
    with r t show ?thesis by auto
  qed
qed simp

text \<open>C31: waiting for undelivered data is bounded. With a time limit of \<open>w\<close> milliseconds it always returns, after at
  most \<open>w\<close> sleeps of one millisecond; the result is 0 for a socket that is neither connected nor closing,
  and otherwise the number of bytes (or the error) that a poll of the send buffer reported. A fuel of \<open>w + 1\<close>
  turns is enough.\<close>

theorem WaitUndelivered_bounded:
  assumes "runs (WaitUndelivered fuel self w) tr out" and "0 \<le> w" and "w < 2 ^ 31" and "nat w < fuel"
  shows "waits tr \<le> nat w \<and>
    (out = Ok 0 \<or> (\<exists>r. (Srt (Srt_getsndbuffer (n_bindsock self)), r) \<in> set tr \<and> out = Ok (poll_result r)))"
proof -
  from assms(1) obtain st :: reply and t where tr: "tr = (Srt (Srt_getsockstate (n_bindsock self)), st) # t"
    and t: "t = [] \<and> out = Ok 0 \<or> runs (loopP fuel (undelivered_turn (n_bindsock self) w) 0) t out"
    unfolding WaitUndelivered_def by (auto simp: runs_Call simp del: runs.simps(4) split: if_splits)
  have w: "waits ((Srt c, st) # t) = waits t" for c by (simp add: waits_def)
  from t show ?thesis
  proof
    assume "runs (loopP fuel (undelivered_turn (n_bindsock self) w) 0) t out"
    from undelivered_loop_runs[OF this] assms(2-4) show ?thesis by (auto simp: w tr)
  qed (simp add: tr waits_def)
qed

definition node0 :: srt_node where
  "node0 = \<lparr>n_stop_flag = ''stop'', n_accepted = [], n_bindsock = 7, n_epoll_accept = 1, n_epoll_receive = 2, n_host = [], n_port = 0, n_options = []\<rparr>"

theorem WaitUndelivered_bounded_witness:
  "waits (fst (exec (WaitUndelivered 3 node0 2) (\<lambda>_ _. reply0\<lparr>r_int := SRTS_CONNECTED, r_int2 := 4, r_int3 := 9\<rparr>) [])) = 2 \<and>
   snd (exec (WaitUndelivered 3 node0 2) (\<lambda>_ _. reply0\<lparr>r_int := SRTS_CONNECTED, r_int2 := 4, r_int3 := 9\<rparr>) []) = Ok 9"
proof -
  let ?env = "\<lambda>(_ :: strace) (_ :: call). reply0\<lparr>r_int := SRTS_CONNECTED, r_int2 := 4, r_int3 := 9\<rparr>"
  have "waits (fst (exec (WaitUndelivered 3 node0 2) ?env [])) \<le> nat 2"
    by (rule conjunct1[OF WaitUndelivered_bounded[OF runs_exec]]) simp_all
  moreover have "waits (fst (exec (WaitUndelivered 3 node0 2) ?env [])) = 2" "snd (exec (WaitUndelivered 3 node0 2) ?env []) = Ok 9"
    by (simp_all add: WaitUndelivered_def undelivered_turn_def numeral_3_eq_3 srt_consts Let_def wrap_int_def waits_def reply0_def)
  ultimately show ?thesis by blast
qed

subsection \<open>The messages a node receives\<close>

definition received_ok :: "nat \<Rightarrow> received \<Rightarrow> strace \<Rightarrow> bool" where
  "received_ok n rx tr \<longleftrightarrow>
     in_messages tr = (if rx_res rx > 0 then [rx_data rx] else []) \<and>
     (rx_res rx > 0 \<longrightarrow> rx_res rx = int (length (rx_data rx)) \<and> length (rx_data rx) \<le> n)"

lemma runs_receive_failed:
  assumes "runs (receive_failed self sock k) tr out" and "k \<le> 0"
  shows "in_messages tr = [] \<and> (\<exists>rx self'. out = Ok (rx, self') \<and> rx_res rx \<le> 0)"
  using assms
  by (auto simp: receive_failed_def Let_def runs_Call in_messages_def in_message_def simp del: runs.simps(4) split: if_splits)

lemma runs_receive_from:
  assumes "runs (receive_from self sock n) tr out" and "recv_contract tr"
  shows "\<exists>rx self'. out = Ok (rx, self') \<and> received_ok n rx tr"
proof -
  from assms(1) obtain r :: reply and t where tr: "tr = (Srt (Srt_recvmsg2 sock n), r) # t"
    and t: "if r_int r > 0 then t = [] \<and> out = Ok (\<lparr>rx_res = r_int r, rx_data = r_bytes r, rx_id = Some sock\<rparr>, self)
            else runs (receive_failed self sock (r_int r)) t out"
    unfolding receive_from_def by (auto simp: runs_Call simp del: runs.simps(4) split: if_splits)
  from assms(2) have c: "r_int r = SRT_ERROR \<or> r_int r = int (length (r_bytes r)) \<and> length (r_bytes r) \<le> n"
    by (auto simp: tr recv_contract_def recv_ok_def)
  show ?thesis
  proof (cases "r_int r > 0")
    case True
    with t c show ?thesis by (auto simp: tr received_ok_def in_messages_def in_message_def SRT_ERROR_def)
  next
    case False
    with c have "in_messages [(Srt (Srt_recvmsg2 sock n), r)] = []"
      by (auto simp: in_messages_def in_message_def)
    with False t runs_receive_failed[of self sock "r_int r" t out] show ?thesis
      by (auto simp: tr received_ok_def in_messages_def)
  qed
qed

text \<open>Every receive follows a wait on the epoll \<open>e\<close> and takes the first socket that wait reported as readable.\<close>

definition first_ready :: "reply \<Rightarrow> int" where
  "first_ready r = (case r_fds r of [] \<Rightarrow> SRT_INVALID_SOCK | s # _ \<Rightarrow> s)"

definition polled_at :: "int \<Rightarrow> strace \<Rightarrow> nat \<Rightarrow> bool" where
  "polled_at e tr i \<longleftrightarrow> receives_on (fst (tr ! i)) \<noteq> None \<longrightarrow>
     0 < i \<and> fst (tr ! (i - 1)) = Srt (Srt_epoll_wait e True True 3000) \<and>
     receives_on (fst (tr ! i)) = Some (Srt_end (first_ready (snd (tr ! (i - 1)))))"

definition polled :: "int \<Rightarrow> strace \<Rightarrow> bool" where
  "polled e tr \<longleftrightarrow> (\<forall>i < length tr. polled_at e tr i)"

lemma polled_append:
  assumes "polled e t1" and "polled e t2"
  shows "polled e (t1 @ t2)"
  unfolding polled_def
proof (intro allI impI)
  fix i
  assume i: "i < length (t1 @ t2)"
  show "polled_at e (t1 @ t2) i"
  proof (cases "i < length t1")
    case True
    then have "(t1 @ t2) ! i = t1 ! i" "(t1 @ t2) ! (i - 1) = t1 ! (i - 1)" by (auto simp: nth_append)
    with assms(1) True show ?thesis by (auto simp: polled_def polled_at_def)
  next
    case False
    then obtain j where j: "i = length t1 + j" using le_Suc_ex[of "length t1" i] by auto
    with i assms(2) have "polled_at e t2 j" by (simp add: polled_def)
    moreover have "(t1 @ t2) ! (i - 1) = t2 ! (j - 1)" if "0 < j"
      using that j by (cases j) (simp_all add: nth_append)
    ultimately show ?thesis by (auto simp: polled_at_def j)
  qed
qed

lemma no_receive_polled: "list_all (\<lambda>e. receives_on (fst e) = None) tr \<Longrightarrow> polled ep tr"
  by (auto simp: polled_def polled_at_def list_all_length)

lemma polled_one: "receives_on c = None \<Longrightarrow> polled e [(c, r)]"
  by (simp add: no_receive_polled)

lemma polled_receive: "polled e [(Srt (Srt_epoll_wait e True True 3000), w), (Srt (Srt_recvmsg2 (first_ready w) n), r)]"
  by (auto simp: polled_def polled_at_def less_Suc_eq receives_on_def)

lemma receive_failed_quiet: "runs (receive_failed self sock k) tr out \<Longrightarrow> polled e tr"
proof -
  assume "runs (receive_failed self sock k) tr out"
  moreover have "confined (\<lambda>c. receives_on c = None) (\<lambda>_. True) (receive_failed self sock k)"
    by (auto simp: receive_failed_def receives_on_def Let_def intro!: confined_intros)
  ultimately show ?thesis using confined_runs no_receive_polled by blast
qed

lemma receive_failed_node:
  "runs (receive_failed self sock k) tr (Ok (rx, self')) \<Longrightarrow>
     n_epoll_receive self' = n_epoll_receive self \<and> n_stop_flag self' = n_stop_flag self"
  by (auto simp: receive_failed_def Let_def runs_Call simp del: runs.simps(4) split: if_splits)

lemma receive_node_turn_polled:
  assumes "runs (receive_node_turn ndebug n self u) tr out"
  shows "polled (n_epoll_receive self) tr \<and>
     (\<forall>rx self'. out = Ok (Inr (rx, self')) \<longrightarrow>
        n_epoll_receive self' = n_epoll_receive self \<and> n_stop_flag self' = n_stop_flag self)"
proof -
  let ?e = "n_epoll_receive self"
  have flag: "polled ?e [(Os (Load_flag f), r)]" "polled ?e [(Srt (Srt_epoll_wait a b c d), r)]" for f a b c d r
    by (simp_all add: polled_one receives_on_def)
  from assms obtain r :: reply and t where tr: "tr = (Os (Load_flag (n_stop_flag self)), r) # t"
    and t: "t = [] \<and> (\<forall>rx self'. out = Ok (Inr (rx, self')) \<longrightarrow> self' = self) \<or>
      (\<exists>w t'. t = (Srt (Srt_epoll_wait ?e True True 3000), w) # t' \<and>
         (t' = [] \<and> (\<forall>rx self'. out = Ok (Inr (rx, self')) \<longrightarrow> self' = self) \<or>
          runs (bindP (receive_from self (first_ready w) n) (\<lambda>x. Ret (Inr x))) t' out))"
    unfolding receive_node_turn_def Let_def first_ready_def
    by (auto simp: runs_Call simp del: runs.simps(4) split: if_splits)
  have p: "polled ?e tr" if "polled ?e t" using polled_append[OF flag(1) that] by (simp add: tr)
  from t show ?thesis
  proof (elim disjE exE conjE)
    fix w t'
    assume t': "t = (Srt (Srt_epoll_wait ?e True True 3000), w) # t'"
      and run: "runs (bindP (receive_from self (first_ready w) n) (\<lambda>x. Ret (Inr x))) t' out"
    from run obtain o1 where o1: "runs (receive_from self (first_ready w) n) t' o1"
      "out = (case o1 of Ok x \<Rightarrow> Ok (Inr x) | Raised e \<Rightarrow> Raised e | Fuel_out \<Rightarrow> Fuel_out)"
      by (auto simp: runs_bindP split: outcome.splits)
    then obtain r' :: reply and v where v: "t' = (Srt (Srt_recvmsg2 (first_ready w) n), r') # v"
      "v = [] \<and> (\<exists>rx. o1 = Ok (rx, self)) \<or> runs (receive_failed self (first_ready w) (r_int r')) v o1"
      unfolding receive_from_def by (auto simp: runs_Call simp del: runs.simps(4) split: if_splits)
    from v(2) have "polled ?e v"
      using receive_failed_quiet[of self "first_ready w" "r_int r'" v o1 ?e] by (auto simp: polled_def)
    from polled_append[OF polled_receive this] have "polled ?e t" by (simp add: t' v(1))
    moreover have "\<forall>rx self'. out = Ok (Inr (rx, self')) \<longrightarrow>
        n_epoll_receive self' = n_epoll_receive self \<and> n_stop_flag self' = n_stop_flag self"
      using v(2) o1(2) receive_failed_node[of self "first_ready w" "r_int r'" v] by (auto split: outcome.splits)
    ultimately show ?thesis using p by blast
  qed (use p flag in \<open>auto simp: tr\<close>)
qed

lemma receive_node_turn_runs:
  assumes "runs (receive_node_turn ndebug n self u) tr out" and "recv_contract tr"
  shows "case out of
       Ok (Inl _) \<Rightarrow> in_messages tr = []
     | Ok (Inr (rx, self')) \<Rightarrow> received_ok n rx tr
     | Raised e \<Rightarrow> e = Undefined ''assert'' \<and> in_messages tr = []
     | Fuel_out \<Rightarrow> False"
proof -
  have quiet: "in_messages ((Os (Load_flag f), r) # t) = in_messages t" "recv_contract ((Os (Load_flag f), r) # t) \<longleftrightarrow> recv_contract t"
    "in_messages ((Srt (Srt_epoll_wait a b c d), r) # t) = in_messages t" "recv_contract ((Srt (Srt_epoll_wait a b c d), r) # t) \<longleftrightarrow> recv_contract t"
    for f r t a b c d
    by (simp_all add: in_messages_def in_message_def recv_contract_def recv_ok_def)
  from assms(1) obtain r :: reply and t where tr: "tr = (Os (Load_flag (n_stop_flag self)), r) # t"
    and t: "t = [] \<and> out = Ok (Inr (\<lparr>rx_res = 0, rx_data = [], rx_id = None\<rparr>, self)) \<or>
      (\<exists>e t'. t = (Srt (Srt_epoll_wait (n_epoll_receive self) True True 3000), e) # t' \<and>
         (t' = [] \<and> (out = Ok (Inl ()) \<or> out = Raised (Undefined ''assert'') \<or> out = Ok (Inr (\<lparr>rx_res = -2, rx_data = [], rx_id = None\<rparr>, self))) \<or>
          (\<exists>sock. runs (bindP (receive_from self sock n) (\<lambda>x. Ret (Inr x))) t' out)))"
    unfolding receive_node_turn_def Let_def
    by (auto simp: runs_Call simp del: runs.simps(4) split: if_splits) blast+
  from t show ?thesis
  proof (elim disjE exE conjE)
    fix e t' sock
    assume t': "t = (Srt (Srt_epoll_wait (n_epoll_receive self) True True 3000), e) # t'"
      and run: "runs (bindP (receive_from self sock n) (\<lambda>x. Ret (Inr x))) t' out"
    have c: "recv_contract t'" using assms(2) by (simp add: tr t' quiet)
    then have f: "\<exists>rx self'. o1 = Ok (rx, self') \<and> received_ok n rx t'" if "runs (receive_from self sock n) t' o1" for o1
      using runs_receive_from[OF that] by blast
    from run obtain o1 where "runs (receive_from self sock n) t' o1"
      "out = (case o1 of Ok x \<Rightarrow> Ok (Inr x) | Raised e \<Rightarrow> Raised e | Fuel_out \<Rightarrow> Fuel_out)"
      by (auto simp: runs_bindP split: outcome.splits)
    with f[of o1] show ?thesis by (auto simp: tr t' quiet received_ok_def)
  qed (auto simp: tr quiet received_ok_def)
qed

lemma node_Receive_polled:
  assumes "runs (node_Receive fuel ndebug self n) tr out"
  shows "polled (n_epoll_receive self) tr \<and>
     (\<forall>rx self'. out = Ok (rx, self') \<longrightarrow>
        n_epoll_receive self' = n_epoll_receive self \<and> n_stop_flag self' = n_stop_flag self)"
proof -
  let ?e = "n_epoll_receive self"
  have turn: "polled ?e (h @ t)" if "polled ?e h" "runs (receive_node_turn ndebug n self s) t out'" for h t s out'
    using polled_append[OF that(1)] receive_node_turn_polled[OF that(2)] by blast
  have "case out of
      Ok p \<Rightarrow> polled ?e ([] @ tr) \<and> n_epoll_receive (snd p) = ?e \<and> n_stop_flag (snd p) = n_stop_flag self
    | Raised e \<Rightarrow> polled ?e ([] @ tr)
    | Fuel_out \<Rightarrow> polled ?e ([] @ tr)"
  proof (rule runs_loopP_outcome[OF assms[unfolded node_Receive_def], where I = "\<lambda>_ h. polled ?e h"])
    show "polled ?e (h @ t) \<and> n_epoll_receive (snd a) = ?e \<and> n_stop_flag (snd a) = n_stop_flag self"
      if "polled ?e h" "runs (receive_node_turn ndebug n self s) t (Ok (Inr a))" for s h t a
      using turn[OF that] receive_node_turn_polled[OF that(2), THEN conjunct2, rule_format, of "fst a" "snd a"] by simp
    show "polled ?e []" by (simp add: polled_def)
  qed (blast intro: turn)+
  then show ?thesis by (cases out) (simp_all, clarsimp)
qed

lemma node_Receive_runs:
  assumes "runs (node_Receive fuel ndebug self n) tr out" and "recv_contract tr"
  shows "out_messages tr = [] \<and>
    (case out of
       Ok (rx, self') \<Rightarrow> received_ok n rx tr
     | Raised e \<Rightarrow> e = Undefined ''assert'' \<and> in_messages tr = []
     | Fuel_out \<Rightarrow> in_messages tr = [])"
proof
  have "confined (\<lambda>c. \<not> is_send c) (\<lambda>_. True) (node_Receive fuel ndebug self n)"
    by (auto simp: node_Receive_def receive_node_turn_def receive_from_def receive_failed_def is_send_def Let_def
        intro!: confined_intros)
  from no_sends[OF confined_runs[OF this assms(1)]] show "out_messages tr = []" by simp
  have "case out of
       Ok p \<Rightarrow> recv_contract ([] @ tr) \<longrightarrow> received_ok n (fst p) ([] @ tr)
     | Raised e \<Rightarrow> recv_contract ([] @ tr) \<longrightarrow> e = Undefined ''assert'' \<and> in_messages ([] @ tr) = []
     | Fuel_out \<Rightarrow> recv_contract ([] @ tr) \<longrightarrow> in_messages ([] @ tr) = []"
  proof (rule runs_loopP_outcome[OF assms(1)[unfolded node_Receive_def], where I = "\<lambda>_ h. recv_contract h \<longrightarrow> in_messages h = []"])
    show "recv_contract (h @ t) \<longrightarrow> received_ok n (fst a) (h @ t)"
      if "recv_contract h \<longrightarrow> in_messages h = []" "runs (receive_node_turn ndebug n self s) t (Ok (Inr a))" for s h t a
      using that receive_node_turn_runs[OF that(2)] by (auto simp: received_ok_def split: prod.splits)
  qed (auto dest!: receive_node_turn_runs)
  with assms(2) show "case out of
       Ok (rx, self') \<Rightarrow> received_ok n rx tr
     | Raised e \<Rightarrow> e = Undefined ''assert'' \<and> in_messages tr = []
     | Fuel_out \<Rightarrow> in_messages tr = []"
    by (cases out) (auto split: prod.splits)
qed

end
