(* ===== verification/Forward.thy ===== *)
theory Forward
  imports SrtNode
begin

text \<open>
  The \<^verbatim>\<open>file forward\<close> command (\<^verbatim>\<open>file-forward.cpp\<close>): two nodes, a caller and a listener, and one thread per direction.
  Starting and joining a thread are calls; what the threads do is \<open>forwardMessage\<close> and \<open>waitUndelivered\<close>.
\<close>

record forward_config =
  fw_message_size :: int
  fw_planck :: bool
  fw_one_way :: bool

definition forward_config0 :: forward_config where
  "forward_config0 = \<lparr>fw_message_size = 1456, fw_planck = False, fw_one_way = False\<rparr>"

text \<open>The buffer size of the Planck settings, in \<^verbatim>\<open>int\<close> arithmetic with truncating division.\<close>

definition planck_buffer :: "int \<Rightarrow> int option" where
  "planck_buffer n =
     (let scaled = n * 1472; total = (if scaled < 0 then - ((- scaled) div 1456) else scaled div 1456) + 1472; res = 3 * total
      in if in_int 32 scaled \<and> in_int 32 total \<and> in_int 32 res then Some res else None)"

definition createNode :: "string \<Rightarrow> forward_config \<Rightarrow> string \<Rightarrow> bool \<Rightarrow> srt_node sprog" where
  "createNode stop_flag cfg uri isCaller =
     (let u = param_set ''mode'' (if isCaller then ''caller'' else ''listener'') (Parse uri EXPECT_FILE) in
      if \<not> fw_planck cfg then node_ctor stop_flag u
      else
        let u = param_set ''messageapi'' ''true'' (param_set ''transtype'' ''file'' u);
            bufSize = planck_buffer (fw_message_size cfg)
        in if bufSize = None \<and> \<not> (param_exists u ''sndbuf'' \<and> param_exists u ''rcvbuf'') then Exc (Undefined ''signed overflow'')
           else
             let u = (if \<not> param_exists u ''sndbuf'' then param_set ''sndbuf'' (int_to_string (the bufSize)) u else u);
                 u = (if \<not> param_exists u ''rcvbuf'' then param_set ''rcvbuf'' (int_to_string (the bufSize)) u else u)
             in node_ctor stop_flag u)"

subsection \<open>One direction\<close>

text \<open>One turn; the state is the source node. The error text is only read for the log.\<close>

definition forward_turn :: "nat \<Rightarrow> bool \<Rightarrow> int \<Rightarrow> nat \<Rightarrow> srt_node \<Rightarrow> (srt_node + srt_node) sprog" where
  "forward_turn fuel ndebug dstSock bufSize src =
     bindP load_force_break (\<lambda>forceBreak.
     if forceBreak then Ret (Inr src)
     else
       bindP (node_Receive fuel ndebug src bufSize) (\<lambda>(rx, src).
       let recvRes = rx_res rx; connectionId = (case rx_id rx of None \<Rightarrow> 0 | Some i \<Rightarrow> i) in
       if recvRes \<le> 0 then
         if recvRes = 0 \<and> connectionId = 0 then Ret (Inr src)
         else bindP (srt Srt_getlasterror_str) (\<lambda>_. Ret (Inr src))
       else if recvRes > int bufSize then Ret (Inr src)
       else
         bindP (node_Send (take (nat recvRes) (rx_data rx)) dstSock) (\<lambda>sendRes.
         if sendRes \<le> 0 then bindP (srt Srt_getlasterror_str) (\<lambda>_. Ret (Inr src)) else Ret (Inl src))))"

definition forwardMessage :: "nat \<Rightarrow> bool \<Rightarrow> srt_node \<Rightarrow> srt_node \<Rightarrow> int \<Rightarrow> forward_config \<Rightarrow> unit sprog" where
  "forwardMessage fuel ndebug src dst dstSock cfg =
     (if fw_message_size cfg < 0 then Exc (Length_error ''vector'')
      else
        bindP (loopP fuel (forward_turn fuel ndebug dstSock (nat (fw_message_size cfg))) src) (\<lambda>src.
        bindP load_force_break (\<lambda>_.
        bindP (node_close src) (\<lambda>_. node_close dst))))"

subsection \<open>The command\<close>

text \<open>The lambda \<^verbatim>\<open>waitUndelivered\<close>; the pointer it gives up is not the last one to the node.\<close>

definition waitUndelivered :: "nat \<Rightarrow> srt_node \<Rightarrow> int \<Rightarrow> int sprog" where
  "waitUndelivered fuel node waitMs =
     bindP (WaitUndelivered fuel node waitMs) (\<lambda>undelivered.
     bindP (if undelivered = -1 then bindP (srt Srt_getlasterror_str) (\<lambda>_. Ret ()) else Ret ()) (\<lambda>_. Ret undelivered))"

text \<open>Both directions and the final waits, then the destructors of the source and the destination.\<close>

definition forward_threads :: "srt_node \<Rightarrow> srt_node \<Rightarrow> int sprog" where
  "forward_threads src dst =
     bindP (os (Thread_start ''thSrcToDst'')) (\<lambda>_.
     bindP (os (Thread_start ''thDstToSrc'')) (\<lambda>_.
     bindP (os (Thread_join ''thSrcToDst'')) (\<lambda>_.
     bindP (os (Thread_join ''thDstToSrc'')) (\<lambda>_.
     bindP (os (Thread_start ''srcUndelivered'')) (\<lambda>_.
     bindP (os (Thread_start ''dstUndelivered'')) (\<lambda>_.
     bindP (os (Thread_join ''srcUndelivered'')) (\<lambda>_.
     bindP (os (Thread_join ''dstUndelivered'')) (\<lambda>_. Ret 0))))))))"

text \<open>What each of the four threads runs: the function and the arguments the constructor of the thread is given.\<close>

definition forward_thread :: "nat \<Rightarrow> bool \<Rightarrow> forward_config \<Rightarrow> srt_node \<Rightarrow> srt_node \<Rightarrow> int \<Rightarrow> string \<Rightarrow> unit sprog option" where
  "forward_thread fuel ndebug cfg src dst sockSrc name =
     (if name = ''thSrcToDst'' then Some (forwardMessage fuel ndebug src dst (n_bindsock dst) cfg)
      else if name = ''thDstToSrc'' then Some (forwardMessage fuel ndebug dst src sockSrc cfg)
      else if name = ''srcUndelivered'' then Some (bindP (waitUndelivered fuel src 3000) (\<lambda>_. Ret ()))
      else if name = ''dstUndelivered'' then Some (bindP (waitUndelivered fuel dst 3000) (\<lambda>_. Ret ()))
      else None)"

definition forward_nodes :: "nat \<Rightarrow> build_flags \<Rightarrow> srt_node \<Rightarrow> srt_node \<Rightarrow> (int \<times> srt_node \<times> srt_node) sprog" where
  "forward_nodes fuel fl src dst =
     bindP (node_Connect fl dst) (\<lambda>(sockDst, dst).
     if sockDst = SRT_INVALID_SOCK then Ret (1, src, dst)
     else
       bindP (node_Listen fl src 1) (\<lambda>(res, src).
       if res \<noteq> 0 then bindP (srt Srt_getlasterror_str) (\<lambda>_. Ret (1, src, dst))
       else
         bindP (AcceptingThread fuel fl src) (\<lambda>(sockSrc, src).
         if sockSrc = SRT_ERROR then Ret (0, src, dst)
         else bindP (forward_threads src dst) (\<lambda>r. Ret (r, src, dst)))))"

definition startForwarding :: "nat \<Rightarrow> build_flags \<Rightarrow> forward_config \<Rightarrow> string \<Rightarrow> string \<Rightarrow> int sprog" where
  "startForwarding fuel fl cfg srcUri dstUri =
     bindP (createNode ''dst.m_stop_accept'' cfg dstUri True) (\<lambda>dst.
     bindP (tryP (createNode ''src.m_stop_accept'' cfg srcUri False)) (\<lambda>x.
     case x of
       Inl e \<Rightarrow> bindP (node_dtor dst) (\<lambda>_. Exc e)
     | Inr src \<Rightarrow>
         bindP (forward_nodes fuel fl src dst) (\<lambda>(res, src, dst).
         bindP (node_dtor src) (\<lambda>_. bindP (node_dtor dst) (\<lambda>_. Ret res)))))"

definition forward_run :: "nat \<Rightarrow> build_flags \<Rightarrow> string \<Rightarrow> string \<Rightarrow> forward_config \<Rightarrow> unit sprog" where
  "forward_run fuel fl src dst cfg =
     loopP fuel (\<lambda>_.
       bindP load_force_break (\<lambda>forceBreak.
       if forceBreak then Ret (Inr ()) else bindP (startForwarding fuel fl cfg src dst) (\<lambda>_. Ret (Inl ())))) ()"

subsection \<open>What is forwarded\<close>

lemma messages_events [simp]:
  "in_messages ((Os (Load_flag f), r) # t) = in_messages t" "out_messages ((Os (Load_flag f), r) # t) = out_messages t"
  "recv_contract ((Os (Load_flag f), r) # t) \<longleftrightarrow> recv_contract t"
  "in_messages ((Os (Store_flag f b), r) # t) = in_messages t" "out_messages ((Os (Store_flag f b), r) # t) = out_messages t"
  "in_messages ((Srt Srt_getlasterror_str, r) # t) = in_messages t" "out_messages ((Srt Srt_getlasterror_str, r) # t) = out_messages t"
  "recv_contract ((Srt Srt_getlasterror_str, r) # t) \<longleftrightarrow> recv_contract t"
  "in_messages ((Srt (Srt_sendmsg s m ttl i), r) # t) = in_messages t"
  "out_messages ((Srt (Srt_sendmsg s m ttl i), r) # t) = (if r_int r \<noteq> SRT_ERROR then m # out_messages t else out_messages t)"
  "recv_contract ((Srt (Srt_sendmsg s m ttl i), r) # t) \<longleftrightarrow> recv_contract t"
  by (simp_all add: message_defs recv_contract_def recv_ok_def)

text \<open>All received messages went out, but for at most \<open>k\<close> at the end.\<close>

definition relayed :: "nat \<Rightarrow> nat \<Rightarrow> strace \<Rightarrow> bool" where
  "relayed n k tr \<longleftrightarrow> (\<exists>rest. in_messages tr = out_messages tr @ rest \<and> length rest \<le> k) \<and> (\<forall>m \<in> set (in_messages tr). length m \<le> n)"

lemma relayed_append: "relayed n 0 t1 \<Longrightarrow> relayed n k t2 \<Longrightarrow> relayed n k (t1 @ t2)"
  by (auto simp: relayed_def)

lemma forward_turn_runs:
  assumes "runs (forward_turn fuel ndebug dstSock n src) tr out" and "recv_contract tr"
  shows "case out of
      Ok (Inl _) \<Rightarrow> relayed n 0 tr
    | Ok (Inr _) \<Rightarrow> relayed n 1 tr
    | Raised e \<Rightarrow> relayed n 0 tr \<and> e = Undefined ''assert''
    | Fuel_out \<Rightarrow> relayed n 0 tr"
proof -
  let ?k = "\<lambda>(rx, src).
       let recvRes = rx_res rx; connectionId = (case rx_id rx of None \<Rightarrow> 0 | Some i \<Rightarrow> i) in
       if recvRes \<le> 0 then
         if recvRes = 0 \<and> connectionId = 0 then Ret (Inr src)
         else bindP (srt Srt_getlasterror_str) (\<lambda>_. Ret (Inr src))
       else if recvRes > int n then Ret (Inr src)
       else
         bindP (node_Send (take (nat recvRes) (rx_data rx)) dstSock) (\<lambda>sendRes.
         if sendRes \<le> 0 then bindP (srt Srt_getlasterror_str) (\<lambda>_. Ret (Inr src)) else Ret (Inl src))"
  from assms(1) obtain r :: reply and t where tr: "tr = (Os (Load_flag ''force_break''), r) # t"
    and t: "if r_int r \<noteq> 0 then t = [] \<and> out = Ok (Inr src) else runs (bindP (node_Receive fuel ndebug src n) ?k) t out"
    unfolding forward_turn_def load_force_break_def by (auto simp: runs_Call simp del: runs.simps(4) split: if_splits)
  have flag: "relayed n k tr \<longleftrightarrow> relayed n k t" for k by (simp add: relayed_def tr)
  have c: "recv_contract t" using assms(2) tr by simp
  show ?thesis
  proof (cases "r_int r = 0")
    case False
    with t show ?thesis by (simp add: flag) (simp add: relayed_def)
  next
    case True
    with t consider
        (ok) rx src' t1 t2 where "t = t1 @ t2" "runs (node_Receive fuel ndebug src n) t1 (Ok (rx, src'))" "runs (?k (rx, src')) t2 out"
      | (exc) e where "out = Raised e" "runs (node_Receive fuel ndebug src n) t (Raised e)"
      | (fuel) "out = Fuel_out" "runs (node_Receive fuel ndebug src n) t Fuel_out"
      unfolding runs_bindP[of "node_Receive fuel ndebug src n"] by fastforce
    then show ?thesis
    proof cases
      case ok
      from node_Receive_runs[OF ok(2)] c ok(1) have rx: "out_messages t1 = []" "received_ok n rx t1" by simp_all
      show ?thesis
      proof (cases "rx_res rx > 0")
        case False
        with rx ok(1,3) show ?thesis
          by (auto simp: tr relayed_def received_ok_def Let_def runs_Call simp del: runs.simps(4) split: if_splits)
      next
        case True
        with rx(2) have d: "in_messages t1 = [rx_data rx]" "take (nat (rx_res rx)) (rx_data rx) = rx_data rx" "rx_res rx \<le> int n" "length (rx_data rx) \<le> n"
          by (auto simp: received_ok_def)
        with True rx(1) ok(1,3) show ?thesis
          by (auto simp: tr relayed_def node_Send_def SRT_ERROR_def Let_def runs_Call simp del: runs.simps(4) split: if_splits)
      qed
    next
      case exc
      with node_Receive_runs[OF exc(2) c] show ?thesis by (simp add: tr relayed_def)
    next
      case fuel
      with node_Receive_runs[OF fuel(2) c] show ?thesis by (simp add: tr relayed_def)
    qed
  qed
qed

text \<open>Where one turn receives and sends, and what it keeps of the source node.\<close>

lemma forward_turn_moves: "confined (moves UNIV {Srt_end dstSock}) (\<lambda>_. True) (forward_turn fuel ndebug dstSock n src)"
  by (auto simp: forward_turn_def load_force_break_def node_Receive_def receive_node_turn_def receive_from_def
      receive_failed_def node_Send_def Let_def intro!: confined_intros split: prod.splits)

lemma forwardMessage_moves:
  "confined (moves UNIV {Srt_end dstSock}) (\<lambda>_. True) (forwardMessage fuel ndebug src dst dstSock cfg)"
  by (auto simp: forwardMessage_def load_force_break_def node_close_def intro!: confined_intros forward_turn_moves)

lemma forward_turn_polled:
  assumes "runs (forward_turn fuel ndebug dstSock n src) tr out"
  shows "polled (n_epoll_receive src) tr \<and>
     (\<forall>x. out = Ok x \<longrightarrow> (case x of Inl s \<Rightarrow> s | Inr s \<Rightarrow> s) \<in>
        {s. n_epoll_receive s = n_epoll_receive src \<and> n_stop_flag s = n_stop_flag src})"
proof -
  let ?e = "n_epoll_receive src"
  let ?k = "\<lambda>(rx, src).
       let recvRes = rx_res rx; connectionId = (case rx_id rx of None \<Rightarrow> 0 | Some i \<Rightarrow> i) in
       if recvRes \<le> 0 then
         if recvRes = 0 \<and> connectionId = 0 then Ret (Inr src)
         else bindP (srt Srt_getlasterror_str) (\<lambda>_. Ret (Inr src))
       else if recvRes > int n then Ret (Inr src)
       else
         bindP (node_Send (take (nat recvRes) (rx_data rx)) dstSock) (\<lambda>sendRes.
         if sendRes \<le> 0 then bindP (srt Srt_getlasterror_str) (\<lambda>_. Ret (Inr src)) else Ret (Inl src))"
  have flag: "polled ?e [(Os (Load_flag ''force_break''), r)]" for r by (simp add: polled_one receives_on_def)
  have k: "polled ?e t \<and> (out = Ok (Inl s) \<or> out = Ok (Inr s))" if "runs (?k (rx, s)) t out" for rx s t
  proof -
    have "confined (\<lambda>c. receives_on c = None) (\<lambda>_. True) (?k (rx, s))"
      by (auto simp: Let_def node_Send_def receives_on_def intro!: confined_intros)
    from no_receive_polled[OF confined_runs[OF this that]] have "polled ?e t" .
    moreover have "out = Ok (Inl s) \<or> out = Ok (Inr s)"
      using that by (auto simp: Let_def node_Send_def runs_Call simp del: runs.simps(4) split: if_splits)
    ultimately show ?thesis ..
  qed
  from assms obtain r :: reply and t where tr: "tr = (Os (Load_flag ''force_break''), r) # t"
    and t: "t = [] \<and> out = Ok (Inr src) \<or> runs (bindP (node_Receive fuel ndebug src n) ?k) t out"
    unfolding forward_turn_def load_force_break_def by (auto simp: runs_Call simp del: runs.simps(4) split: if_splits)
  from t consider (stop) "t = []" "out = Ok (Inr src)"
      | (ok) rx src' t1 t2 where "t = t1 @ t2" "runs (node_Receive fuel ndebug src n) t1 (Ok (rx, src'))" "runs (?k (rx, src')) t2 out"
      | (exc) o' where "runs (node_Receive fuel ndebug src n) t o'" "\<forall>x. out \<noteq> Ok x"
      unfolding runs_bindP[of "node_Receive fuel ndebug src n"] by fastforce
  then show ?thesis
  proof cases
    case stop
    then show ?thesis using flag by (simp add: tr)
  next
    case ok
    from k[OF ok(3)] node_Receive_polled[OF ok(2)] have "polled ?e t"
      using polled_append ok(1) by blast
    with polled_append[OF flag[of r]] have "polled ?e tr" by (simp add: tr)
    moreover have "n_epoll_receive src' = ?e \<and> n_stop_flag src' = n_stop_flag src"
      using node_Receive_polled[OF ok(2)] by blast
    ultimately show ?thesis using k[OF ok(3)] by auto
  next
    case exc
    from node_Receive_polled[OF exc(1)] polled_append[OF flag[of r], of t] exc(2) show ?thesis by (simp add: tr)
  qed
qed

lemma forward_loop_runs:
  assumes "runs (loopP fuel (forward_turn f ndebug dstSock n) src) tr out" and "recv_contract tr"
  shows "polled (n_epoll_receive src) tr \<and>
    (case out of
       Ok src' \<Rightarrow> relayed n 1 tr \<and> n_stop_flag src' = n_stop_flag src
     | Raised e \<Rightarrow> relayed n 0 tr \<and> e = Undefined ''assert''
     | Fuel_out \<Rightarrow> relayed n 0 tr)"
proof -
  let ?e = "n_epoll_receive src"
  let ?I = "\<lambda>s h. n_epoll_receive s = ?e \<and> n_stop_flag s = n_stop_flag src \<and> polled ?e h \<and> (recv_contract h \<longrightarrow> relayed n 0 h)"
  have turn: "polled ?e (h @ t)" "recv_contract (h @ t) \<Longrightarrow> (case o' of
      Ok (Inl _) \<Rightarrow> relayed n 0 (h @ t)
    | Ok (Inr _) \<Rightarrow> relayed n 1 (h @ t)
    | Raised e \<Rightarrow> relayed n 0 (h @ t) \<and> e = Undefined ''assert''
    | Fuel_out \<Rightarrow> relayed n 0 (h @ t))" if "?I s h" "runs (forward_turn f ndebug dstSock n s) t o'" for s h t o'
    using that forward_turn_polled[OF that(2)] forward_turn_runs[OF that(2)]
    by (auto intro: polled_append relayed_append split: outcome.splits sum.splits)
  have "case out of
      Ok src' \<Rightarrow> polled ?e ([] @ tr) \<and> n_stop_flag src' = n_stop_flag src \<and> (recv_contract ([] @ tr) \<longrightarrow> relayed n 1 ([] @ tr))
    | Raised e \<Rightarrow> polled ?e ([] @ tr) \<and> (recv_contract ([] @ tr) \<longrightarrow> relayed n 0 ([] @ tr) \<and> e = Undefined ''assert'')
    | Fuel_out \<Rightarrow> polled ?e ([] @ tr) \<and> (recv_contract ([] @ tr) \<longrightarrow> relayed n 0 ([] @ tr))"
  proof (rule runs_loopP_outcome[OF assms(1), where I = ?I])
    show "?I src []" by (simp add: polled_def relayed_def)
    show "?I s' (h @ t)" if "?I s h" "runs (forward_turn f ndebug dstSock n s) t (Ok (Inl s'))" for s h t s'
      using turn[OF that] forward_turn_polled[OF that(2)] that(1) by simp
    show "polled ?e (h @ t) \<and> n_stop_flag s' = n_stop_flag src \<and> (recv_contract (h @ t) \<longrightarrow> relayed n 1 (h @ t))"
      if "?I s h" "runs (forward_turn f ndebug dstSock n s) t (Ok (Inr s'))" for s h t s'
      using turn[OF that] forward_turn_polled[OF that(2)] that(1) by simp
    show "polled ?e (h @ t) \<and> (recv_contract (h @ t) \<longrightarrow> relayed n 0 (h @ t) \<and> e = Undefined ''assert'')"
      if "?I s h" "runs (forward_turn f ndebug dstSock n s) t (Raised e)" for s h t e
      using turn[OF that] by simp
    show "polled ?e (h @ t) \<and> (recv_contract (h @ t) \<longrightarrow> relayed n 0 (h @ t))"
      if "?I s h" "runs (forward_turn f ndebug dstSock n s) t Fuel_out" for s h t
      using turn[OF that] by simp
  qed simp
  with assms(2) show ?thesis by (cases out) simp_all
qed


definition relay_trace :: strace where
  "relay_trace =
     [(Os (Load_flag ''force_break''), rint 0), (Os (Load_flag ''stop''), rint 0),
      (Srt (Srt_epoll_wait 2 True True 3000), (rint 1)\<lparr>r_fds := [7]\<rparr>), (Srt (Srt_recvmsg2 7 1456), rdata ''abc''),
      (Srt (Srt_sendmsg 9 ''abc'' (-1) True), rint 3), (Os (Load_flag ''force_break''), rint 1), (Os (Load_flag ''force_break''), rint 1),
      (Os (Store_flag ''stop'' True), rint 0), (Os (Store_flag ''stop'' True), rint 0)]"


text \<open>The threads the command starts are the ones given above, and each direction sends only to the socket of the
  other side: \<^verbatim>\<open>thSrcToDst\<close> to the bound socket of the destination, \<^verbatim>\<open>thDstToSrc\<close> to the accepted connection.\<close>

lemma forward_threads_started:
  "runs (forward_threads src dst) tr out \<Longrightarrow> (Os (Thread_start name), r) \<in> set tr \<Longrightarrow>
     forward_thread fuel ndebug cfg src dst sockSrc name \<noteq> None"
  by (auto simp: forward_threads_def forward_thread_def runs_Call simp del: runs.simps(4))

lemma forward_thread_sends:
  assumes "forward_thread fuel ndebug cfg src dst sockSrc name = Some p" and "runs p tr out"
    and "name = ''thSrcToDst'' \<and> to = n_bindsock dst \<or> name = ''thDstToSrc'' \<and> to = sockSrc"
  shows "list_all (\<lambda>e. moves UNIV {Srt_end to} (fst e)) tr"
  using assms by (auto simp: forward_thread_def intro: confined_runs[OF forwardMessage_moves])

text \<open>C39: a node that waits for data does not notice the interrupt. While the connection is idle (each wait on the epoll
  times out or fails) and the node itself is not closed, \<^verbatim>\<open>Receive\<close> goes on for ever: no amount of fuel is
  enough, whatever the \<^verbatim>\<open>force_break\<close> flag says, and the direction that called it never gets to read the flag.\<close>

theorem node_receive_ignores_break:
  assumes "\<forall>h. r_int (env h (Os (Load_flag (n_stop_flag self)))) = 0"
    and "\<forall>h. r_int (env h (Srt (Srt_epoll_wait (n_epoll_receive self) True True 3000))) \<le> 0"
  shows "snd (exec (node_Receive fuel ndebug self n) env h) = Fuel_out"
  unfolding node_Receive_def
proof (induction fuel arbitrary: h)
  case (Suc fuel)
  then show ?case
    using assms by (simp add: receive_node_turn_def Let_def split_beta)
qed simp

theorem node_receive_ignores_break_witness:
  "snd (exec (node_Receive 1000 False node0 10) (\<lambda>_ c. if c = Os (Load_flag ''force_break'') then rint 1 else rint 0) []) = Fuel_out"
  by (rule node_receive_ignores_break) (simp_all add: node0_def)

end
