(* ===== verification/LogSupport.thy ===== *)
theory LogSupport
  imports CppMap SrtApi
begin

text \<open>
  \<^verbatim>\<open>apps/logsupport.cpp\<close> and \<^verbatim>\<open>apps/logsupport_appdefs.cpp\<close>: the names of the log levels and of the
  functional areas, and the two parsers behind the options \<^verbatim>\<open>--loglevel\<close> and \<^verbatim>\<open>--logfa\<close>. A line written to
  \<^verbatim>\<open>cerr\<close> is a \<open>Print_line\<close> call. Characters are those of the C locale.
\<close>

subsection \<open>Log levels\<close>

definition level_fatal :: int where "level_fatal = 2"
definition level_error :: int where "level_error = 3"
definition level_warning :: int where "level_warning = 4"
definition level_note :: int where "level_note = 5"
definition level_debug :: int where "level_debug = 7"

definition SRT_LOG_LEVEL_MIN :: int where "SRT_LOG_LEVEL_MIN = 2"
definition SRT_LOG_LEVEL_MAX :: int where "SRT_LOG_LEVEL_MAX = 7"

lemmas level_consts =
  level_fatal_def level_error_def level_warning_def level_note_def level_debug_def
  SRT_LOG_LEVEL_MIN_def SRT_LOG_LEVEL_MAX_def

definition srt_level_names :: "(string \<times> int) list" where
  "srt_level_names = fold (\<lambda>e. cmap_put (fst e) (snd e))
     [(''alert'', 1), (''crit'', 2), (''debug'', 7), (''emerg'', 0), (''err'', 3), (''error'', 3),
      (''fatal'', 2), (''info'', 6), (''notice'', 5), (''note'', 5), (''panic'', 0), (''warn'', 4),
      (''warning'', 4)] cmap_empty"

definition isdigit :: "char \<Rightarrow> bool" where
  "isdigit c \<longleftrightarrow> 48 \<le> (of_char c :: nat) \<and> (of_char c :: nat) \<le> 57"

definition strtol10 :: "string \<Rightarrow> int" where
  "strtol10 s = (case strtol_parse 10 s of None \<Rightarrow> 0 | Some (v, _) \<Rightarrow> clamp64 v)"

definition SrtParseLogLevel :: "string \<Rightarrow> int sprog" where
  "SrtParseLogLevel level =
     (if level = [] then Ret level_fatal
      else if isdigit (hd level) then
        (let lev = strtol10 level in
         if SRT_LOG_LEVEL_MIN \<le> lev \<and> lev \<le> SRT_LOG_LEVEL_MAX then Ret lev
         else bindP (os (Print_line (''ERROR: Invalid loglevel number: '' @ level @ '' - fallback to FATAL''))) (\<lambda>_.
              Ret level_fatal))
      else
        (let level = tolower level in
         case cmap_get srt_level_names level of
           None \<Rightarrow>
             bindP (os (Print_line (''ERROR: Invalid loglevel spec: '' @ level @ '' - fallback to FATAL''))) (\<lambda>_.
             Ret level_fatal)
         | Some v \<Rightarrow> Ret v))"

subsection \<open>Functional areas\<close>

definition isupper :: "char \<Rightarrow> bool" where
  "isupper c \<longleftrightarrow> 65 \<le> (of_char c :: nat) \<and> (of_char c :: nat) \<le> 90"

definition islower :: "char \<Rightarrow> bool" where
  "islower c \<longleftrightarrow> 97 \<le> (of_char c :: nat) \<and> (of_char c :: nat) \<le> 122"

lemma letter_code [code]:
  "isupper c \<longleftrightarrow> 65 \<le> (of_char c :: int) \<and> (of_char c :: int) \<le> 90"
  "islower c \<longleftrightarrow> 97 \<le> (of_char c :: int) \<and> (of_char c :: int) \<le> 122"
  by (simp_all add: isupper_def islower_def of_char_le_int)

definition ToLowerFormat :: "char \<Rightarrow> cpp_exn + char" where
  "ToLowerFormat c =
     (if islower c then Inr c
      else if isupper c then Inr (tolower_char c)
      else if c = CHR ''_'' then Inr (CHR ''-'')
      else Inl (Invalid_argument ''Wrong FA name - please check the definition in scripts/generate-logging-defs.tcl file''))"

primrec transform_name :: "string \<Rightarrow> cpp_exn + string" where
  "transform_name [] = Inr []"
| "transform_name (c # cs) =
     (case ToLowerFormat c of
        Inl e \<Rightarrow> Inl e
      | Inr c' \<Rightarrow> (case transform_name cs of Inl e \<Rightarrow> Inl e | Inr cs' \<Rightarrow> Inr (c' # cs')))"

definition Install :: "string \<Rightarrow> int \<Rightarrow> (string \<times> int) list \<Rightarrow> cpp_exn + (string \<times> int) list" where
  "Install upname v namemap =
     (case transform_name upname of Inl e \<Rightarrow> Inl e | Inr ident \<Rightarrow> Inr (cmap_put ident v namemap))"

primrec install_all :: "(string \<times> int) list \<Rightarrow> (string \<times> int) list \<Rightarrow> cpp_exn + (string \<times> int) list" where
  "install_all [] namemap = Inr namemap"
| "install_all (e # es) namemap =
     (case Install (fst e) (snd e) namemap of Inl x \<Rightarrow> Inl x | Inr m \<Rightarrow> install_all es m)"

definition LogFANames :: "cpp_exn + (string \<times> int) list" where
  "LogFANames = install_all
     [(''GENERAL'', 0), (''SOCKMGMT'', 1), (''CONN'', 2), (''XTIMER'', 3), (''TSBPD'', 4), (''RSRC'', 5),
      (''CONGEST'', 7), (''PFILTER'', 8), (''API_CTRL'', 11), (''QUE_CTRL'', 13), (''EPOLL_UPD'', 16),
      (''API_RECV'', 21), (''BUF_RECV'', 22), (''QUE_RECV'', 23), (''CHN_RECV'', 24), (''GRP_RECV'', 25),
      (''API_SEND'', 31), (''BUF_SEND'', 32), (''QUE_SEND'', 33), (''CHN_SEND'', 34), (''GRP_SEND'', 35),
      (''INTERNAL'', 41), (''QUE_MGMT'', 43), (''CHN_MGMT'', 44), (''GRP_MGMT'', 45), (''EPOLL_API'', 46),
      (''HAICRYPT'', 6), (''APPLOG'', 10)] cmap_empty"

text \<open>
  The splitting loop. \<open>fa[pos]\<close> is the terminating null character at \<open>pos = size\<close> and undefined beyond,
  which is the result \<open>None\<close>.
\<close>

function fa_split :: "string \<Rightarrow> nat \<Rightarrow> nat \<Rightarrow> string list \<Rightarrow> string list option" where
  "fa_split fa pos ppos xfas =
     (if pos > length fa then None
      else
        let c = (if pos = length fa then char_of (0 :: nat) else fa ! pos) in
        if c \<noteq> CHR '','' \<and> pos + 1 < length fa then fa_split fa (pos + 1) ppos xfas
        else
          let pos1 = (if c \<noteq> CHR '','' then pos + 1 else pos);
              n = pos1 - ppos;
              xfas1 = (if n \<noteq> 0 then xfas @ [substr fa ppos n] else xfas)
          in if pos1 + 1 \<ge> length fa then Some xfas1 else fa_split fa (pos1 + 1) (pos1 + 1) xfas1)"
  by pat_completeness auto
termination
  by (relation "measure (\<lambda>(fa, pos, ppos, xfas). length fa - pos)") (auto split: if_splits)

declare fa_split.simps [simp del]

definition add_fa :: "(string \<times> int) list \<Rightarrow> string \<Rightarrow> int list \<Rightarrow> int list sprog" where
  "add_fa names fa fas =
     (case cmap_get names fa of
        None \<Rightarrow>
          bindP (os (Print_line (''ERROR: Invalid log functional area spec: '' @ [CHR 0x27] @ fa @ [CHR 0x27] @ '' - skipping''))) (\<lambda>_.
          Ret fas)
      | Some v \<Rightarrow> Ret (insort_insert v fas))"

text \<open>A \<^verbatim>\<open>std::set\<close> of areas is the list of its elements in ascending order. \<open>SrtParseLogFA\<close> is the call with the default
  argument, which the program makes; with a set for the unknown names (\<open>SrtParseLogFA_unknown\<close>) nothing is
  printed and they are added to the set.\<close>

definition SrtParseLogFA :: "(string \<times> int) list \<Rightarrow> string \<Rightarrow> int list sprog" where
  "SrtParseLogFA names fa =
     (if fa = '''' then Ret []
      else if fa = ''all'' then
        Ret (fold (\<lambda>entry fas. if fst entry = ''general'' then fas else insort_insert (snd entry) fas) names [])
      else
        (case fa_split (tolower fa) 0 0 [] of
           None \<Rightarrow> Exc (Undefined ''string index'')
         | Some xfas \<Rightarrow> foldP (add_fa names) xfas []))"

definition add_fa_unknown :: "(string \<times> int) list \<Rightarrow> string \<Rightarrow> int list \<times> string set \<Rightarrow> int list \<times> string set" where
  "add_fa_unknown names fa st =
     (case cmap_get names fa of
        None \<Rightarrow> (fst st, insert fa (snd st))
      | Some v \<Rightarrow> (insort_insert v (fst st), snd st))"

definition SrtParseLogFA_unknown ::
  "(string \<times> int) list \<Rightarrow> string \<Rightarrow> string set \<Rightarrow> (int list \<times> string set) option" where
  "SrtParseLogFA_unknown names fa punknown =
     (if fa = '''' then Some ([], punknown)
      else if fa = ''all'' then
        Some (fold (\<lambda>entry fas. if fst entry = ''general'' then fas else insort_insert (snd entry) fas) names [], punknown)
      else map_option (\<lambda>xfas. fold (add_fa_unknown names) xfas ([], punknown)) (fa_split (tolower fa) 0 0 []))"

text \<open>\<^verbatim>\<open>ParseLogFASpec\<close>: the areas to enable and to disable, as two comma-separated lists. \<open>s[0]\<close> of an empty string is
  the terminating null character.\<close>

definition spec_name :: "string \<Rightarrow> string \<times> bool" where
  "spec_name s =
     (case s of
        [] \<Rightarrow> ([], True)
      | c # cs \<Rightarrow> if c = CHR ''+'' then (cs, True) else if c = CHR ''~'' then (cs, False) else (s, True))"

definition ParseLogFASpec :: "string list \<Rightarrow> string \<times> string" where
  "ParseLogFASpec speclist =
     (let (sons, soffs) = foldl (\<lambda>(son, soff) s.
            let (name, on) = spec_name s in
            if on then (son @ '','' @ name, soff) else (son, soff @ '','' @ name)) ([], []) speclist
      in (if sons = [] then [] else drop 1 sons, if soffs = [] then [] else drop 1 soffs))"

subsection \<open>Splitting at the commas\<close>

text \<open>The reference: the fields of a comma-separated list, empty ones included.\<close>

fun fields :: "string \<Rightarrow> string list" where
  "fields [] = [[]]"
| "fields (c # cs) =
     (if c = CHR '','' then [] # fields cs else (c # hd (fields cs)) # tl (fields cs))"

lemma fields_word: "CHR '','' \<notin> set w \<Longrightarrow> fields (w @ s) = (w @ hd (fields s)) # tl (fields s)"
proof (induction w)
  case Nil
  show ?case by (cases s rule: fields.cases) simp_all
qed auto

lemma fields_comma: "CHR '','' \<notin> set w \<Longrightarrow> fields (w @ CHR '','' # s) = w # fields s"
  by (simp add: fields_word)

lemma fields_last: "CHR '','' \<notin> set w \<Longrightarrow> fields w = [w]"
  using fields_word[of w "[]"] by simp

lemma fa_split_fields:
  "pos < length fa \<Longrightarrow> ppos \<le> pos \<Longrightarrow> CHR '','' \<notin> set (substr fa ppos (pos - ppos)) \<Longrightarrow>
   fa_split fa pos ppos xs = Some (xs @ filter (\<lambda>w. w \<noteq> []) (fields (drop ppos fa)))"
proof (induction fa pos ppos xs rule: fa_split.induct)
  case (1 fa pos ppos xs)
  let ?w = "substr fa ppos (pos - ppos)"
  from 1 have split: "drop ppos fa = ?w @ fa ! pos # drop (pos + 1) fa"
    by (metis Cons_nth_drop_Suc Suc_eq_plus1 append_take_drop_id drop_drop le_add_diff_inverse2 substr_def)
  have next_word: "substr fa ppos (pos + 1 - ppos) = ?w @ [fa ! pos]"
    using 1(3,4) by (simp add: substr_def Suc_diff_le take_Suc_conv_app_nth)
  have w: "?w = [] \<longleftrightarrow> pos - ppos = 0"
    using 1(3,4) by (simp add: substr_def)
  consider "fa ! pos \<noteq> CHR '',''" "pos + 1 < length fa" | "fa ! pos \<noteq> CHR '',''" "pos + 1 = length fa"
    | "fa ! pos = CHR '',''" using 1(3) by linarith
  then show ?case
  proof cases
    case 1
    with "1.IH"(1)[OF _ refl] "1.prems" next_word show ?thesis
      by (subst fa_split.simps) simp
  next
    case 2
    then have "drop ppos fa = ?w @ [fa ! pos]" using split by simp
    moreover have "fields (?w @ [fa ! pos]) = [?w @ [fa ! pos]]"
      using 2 "1.prems" by (intro fields_last) simp
    ultimately show ?thesis
      using 2 "1.prems" next_word by (subst fa_split.simps) (simp add: Let_def)
  next
    case 3
    then have f: "fields (drop ppos fa) = ?w # fields (drop (pos + 1) fa)"
      using split "1.prems" by (simp add: fields_comma)
    show ?thesis
    proof (cases "pos + 1 < length fa")
      case True
      have "fa_split fa (pos + 1) (pos + 1) ys = Some (ys @ filter (\<lambda>w. w \<noteq> []) (fields (drop (pos + 1) fa)))"
        if "ys = (if pos - ppos \<noteq> 0 then xs @ [?w] else xs)" for ys
        using "1.IH"(2)[OF _ refl _ refl refl refl] "1.prems" 3 True that by (simp add: substr_def cong: if_cong split: if_splits)
      with True 3 "1.prems" f w show ?thesis
        by (subst fa_split.simps) (simp add: Let_def split: if_splits)
    next
      case False
      with 3 "1.prems" f w show ?thesis by (subst fa_split.simps) (simp add: Let_def)
    qed
  qed
qed

text \<open>The list of areas that \<^verbatim>\<open>ParseLogFASpec\<close> prints is the one that splitting it gives back.\<close>

lemma fields_joined:
  "ns \<noteq> [] \<Longrightarrow> list_all (\<lambda>n. CHR '','' \<notin> set n) ns \<Longrightarrow> fields (drop 1 (concat (map (\<lambda>n. '','' @ n) ns))) = ns"
proof (induction ns)
  case (Cons n ns)
  show ?case
  proof (cases ns)
    case Nil
    with Cons.prems show ?thesis by (simp add: fields_last)
  next
    case (Cons m ms)
    then have "concat (map (\<lambda>n. '','' @ n) ns) = CHR '','' # drop 1 (concat (map (\<lambda>n. '','' @ n) ns))" by simp
    with Cons.IH Cons.prems local.Cons show ?thesis by (simp add: fields_comma)
  qed
qed simp

lemma ParseLogFASpec_eq:
  defines "on \<equiv> \<lambda>b ss. map (fst \<circ> spec_name) (filter (\<lambda>s. snd (spec_name s) = b) ss)"
  shows "ParseLogFASpec ss =
     (drop 1 (concat (map (\<lambda>n. '','' @ n) (on True ss))), drop 1 (concat (map (\<lambda>n. '','' @ n) (on False ss))))"
proof -
  have "foldl (\<lambda>(son, soff) s.
            let (name, on) = spec_name s in
            if on then (son @ '','' @ name, soff) else (son, soff @ '','' @ name)) acc ss =
     (fst acc @ concat (map (\<lambda>n. '','' @ n) (on True ss)), snd acc @ concat (map (\<lambda>n. '','' @ n) (on False ss)))" for acc
    by (induction ss arbitrary: acc) (auto simp: on_def Let_def split: prod.splits)
  then show ?thesis by (simp add: ParseLogFASpec_def)
qed

lemma ParseLogFASpec_fields:
  assumes "list_all (\<lambda>s. CHR '','' \<notin> set s) ss" and "list_ex (\<lambda>s. snd (spec_name s)) ss"
  shows "fields (fst (ParseLogFASpec ss)) = map (fst \<circ> spec_name) (filter (\<lambda>s. snd (spec_name s)) ss)"
proof -
  have "set (fst (spec_name s)) \<subseteq> set s" for s
    by (auto simp: spec_name_def split: list.splits)
  with assms(1) have "list_all (\<lambda>n. CHR '','' \<notin> set n) (map (fst \<circ> spec_name) (filter (\<lambda>s. snd (spec_name s)) ss))"
    by (fastforce simp: list_all_iff)
  moreover have "map (fst \<circ> spec_name) (filter (\<lambda>s. snd (spec_name s)) ss) \<noteq> []"
    using assms(2) by (auto simp: filter_empty_conv list_ex_iff)
  ultimately show ?thesis
    using fields_joined[of "map (fst \<circ> spec_name) (filter (\<lambda>s. snd (spec_name s)) ss)"]
    by (simp add: ParseLogFASpec_eq del: map_map)
qed

subsection \<open>Properties\<close>

lemma insort_insert_set [simp]:
  "set (insort_insert x xs) = insert x (set xs)"
  by (simp add: set_insort_insert)

lemma foldP_add_fa:
  assumes "runs (foldP (add_fa names) ws fas) tr out" and "sorted fas" "distinct fas"
  shows "\<exists>fas'. out = Ok fas' \<and> sorted fas' \<and> distinct fas' \<and>
     set fas' = set fas \<union> {v. \<exists>w \<in> set ws. cmap_get names w = Some v} \<and>
     length tr = length (filter (\<lambda>w. cmap_get names w = None) ws)"
  using assms
proof (induction ws arbitrary: fas tr)
  case (Cons w ws)
  show ?case
  proof (cases "cmap_get names w")
    case None
    then obtain c where "add_fa names w fas = Call c (\<lambda>_. Ret fas)" by (simp add: add_fa_def)
    with Cons.prems obtain e t where "tr = e # t" "runs (foldP (add_fa names) ws fas) t out"
      by (cases tr) simp_all
    with None Cons.IH[of fas t] Cons.prems show ?thesis by auto
  next
    case (Some v)
    then have "add_fa names w fas = Ret (insort_insert v fas)" by (simp add: add_fa_def)
    with Cons.prems have "runs (foldP (add_fa names) ws (insort_insert v fas)) tr out" by simp
    with Some Cons.IH[of "insort_insert v fas" tr] Cons.prems show ?thesis
      by (fastforce simp: sorted_insort_insert distinct_insort_insert)
  qed
qed simp

text \<open>C30: the functional areas of \<^verbatim>\<open>--logfa\<close>. Of a list that is neither empty nor the word \<^verbatim>\<open>all\<close>, the parser
  never reads past the string and returns, in ascending order and once each, the areas whose lower-case name is one
  of the non-empty comma-separated fields; it reports one error for every field that names no area.\<close>

theorem SrtParseLogFA_fields:
  assumes "runs (SrtParseLogFA names fa) tr out" and "fa \<noteq> ''''" and "fa \<noteq> ''all''"
  defines "ws \<equiv> filter (\<lambda>w. w \<noteq> []) (fields (tolower fa))"
  shows "\<exists>fas. out = Ok fas \<and> sorted fas \<and> distinct fas \<and>
     set fas = {v. \<exists>w \<in> set ws. cmap_get names w = Some v} \<and>
     length tr = length (filter (\<lambda>w. cmap_get names w = None) ws)"
proof -
  have "fa_split (tolower fa) 0 0 [] = Some ws"
    using assms(2) fa_split_fields[of 0 "tolower fa" 0 "[]"] by (simp add: ws_def substr_def)
  with assms(1-3) have "runs (foldP (add_fa names) ws []) tr out"
    by (simp add: SrtParseLogFA_def)
  from foldP_add_fa[OF this] show ?thesis by simp
qed

text \<open>Both calls return the same areas; the second collects exactly the names the first complains about.\<close>

lemma fold_add_fa_unknown:
  "runs (foldP (add_fa names) ws fas) tr out \<Longrightarrow> out = Ok (fst (fold (add_fa_unknown names) ws (fas, u)))"
proof (induction ws arbitrary: fas u tr)
  case (Cons w ws)
  have "add_fa names w fas = Ret (fst (add_fa_unknown names w (fas, u))) \<or>
    (\<exists>c. add_fa names w fas = Call c (\<lambda>_. Ret (fst (add_fa_unknown names w (fas, u)))))"
    by (cases "cmap_get names w") (simp_all add: add_fa_def add_fa_unknown_def)
  with Cons.prems obtain t where "runs (foldP (add_fa names) ws (fst (add_fa_unknown names w (fas, u)))) t out"
    by (auto simp: runs_Call simp del: runs.simps(4))
  from Cons.IH[OF this, of "snd (add_fa_unknown names w (fas, u))"] show ?case by simp
qed simp

lemma fold_add_fa_collects:
  "snd (fold (add_fa_unknown names) ws st) = snd st \<union> {w \<in> set ws. cmap_get names w = None}"
  by (induction ws arbitrary: st) (auto simp: add_fa_unknown_def split: option.splits)

lemma SrtParseLogFA_both:
  assumes "runs (SrtParseLogFA names fa) tr out" and "SrtParseLogFA_unknown names fa u = Some (fas, u')"
  shows "out = Ok fas"
  using assms
  by (auto simp: SrtParseLogFA_def SrtParseLogFA_unknown_def dest!: fold_add_fa_unknown[where u = u] split: if_splits)

lemma LogFANames_ok: "\<exists>names. LogFANames = Inr names \<and> cmap_get names ''api-send'' = Some 31 \<and> cmap_get names ''conn'' = Some 2
    \<and> cmap_get names ''nope'' = None"
  by (rule exI, intro conjI) code_simp+

theorem SrtParseLogFA_fields_witness:
  "\<exists>names tr fas. LogFANames = Inr names \<and>
     runs (SrtParseLogFA names ''Api-Send,,nope,CONN,'') tr (Ok fas) \<and> set fas = {2, 31} \<and> length tr = 1"
proof -
  obtain names where n: "LogFANames = Inr names" "cmap_get names ''api-send'' = Some 31"
    "cmap_get names ''conn'' = Some 2" "cmap_get names ''nope'' = None"
    using LogFANames_ok by blast
  let ?p = "SrtParseLogFA names ''Api-Send,,nope,CONN,''"
  let ?tr = "fst (exec ?p (\<lambda>_ _. rint 0) [])" and ?out = "snd (exec ?p (\<lambda>_ _. rint 0) [])"
  have ws: "filter (\<lambda>w. w \<noteq> []) (fields (tolower ''Api-Send,,nope,CONN,'')) = [''api-send'', ''nope'', ''conn'']"
    by code_simp
  have r: "runs ?p ?tr ?out" by (rule runs_exec)
  from SrtParseLogFA_fields[OF r] obtain fas where
    "?out = Ok fas" "set fas = {v. \<exists>w \<in> set [''api-send'', ''nope'', ''conn'']. cmap_get names w = Some v}"
    "length ?tr = length (filter (\<lambda>w. cmap_get names w = None) [''api-send'', ''nope'', ''conn''])"
    unfolding ws by auto
  moreover have "set fas = {2, 31}" using calculation(2) n by auto
  ultimately show ?thesis using r n by (intro exI[of _ names] exI[of _ ?tr] exI[of _ fas]) simp
qed

lemma srt_level_names_eq:
  "srt_level_names =
     [(''alert'', 1), (''crit'', 2), (''debug'', 7), (''emerg'', 0), (''err'', 3), (''error'', 3),
      (''fatal'', 2), (''info'', 6), (''note'', 5), (''notice'', 5), (''panic'', 0), (''warn'', 4), (''warning'', 4)]"
  by code_simp

text \<open>The level that \<^verbatim>\<open>--loglevel\<close> sets. Whatever the argument, a run of the parser returns one of the eight syslog
  levels; a level above the documented range (\<^verbatim>\<open>emerg\<close>, \<^verbatim>\<open>panic\<close>, \<^verbatim>\<open>alert\<close>) comes from its name only, and
  an argument that is reported as invalid gives \<^verbatim>\<open>fatal\<close>.\<close>

theorem SrtParseLogLevel_range:
  assumes "runs (SrtParseLogLevel level) tr out"
  shows "\<exists>lev. out = Ok lev \<and> 0 \<le> lev \<and> lev \<le> SRT_LOG_LEVEL_MAX \<and>
     (lev < SRT_LOG_LEVEL_MIN \<longleftrightarrow> tolower level \<in> {''emerg'', ''panic'', ''alert''}) \<and>
     (tr \<noteq> [] \<longrightarrow> lev = level_fatal \<and> length tr = 1)"
proof -
  consider "level = []" | "level \<noteq> []" "isdigit (hd level)" | "level \<noteq> []" "\<not> isdigit (hd level)" by blast
  then show ?thesis
  proof cases
    case 1
    with assms show ?thesis by (simp add: SrtParseLogLevel_def level_consts tolower_def)
  next
    case 2
    then have "tolower level \<notin> {''emerg'', ''panic'', ''alert''}"
      by (cases level) (auto simp: tolower_def isdigit_def tolower_char_def)
    with 2 assms show ?thesis
      by (auto simp: SrtParseLogLevel_def level_consts Let_def runs_Call simp del: runs.simps(4) split: if_splits)
  next
    case 3
    show ?thesis
    proof (cases "cmap_get srt_level_names (tolower level)")
      case None
      with 3 assms have "out = Ok level_fatal \<and> length tr = 1"
        by (auto simp: SrtParseLogLevel_def Let_def runs_Call simp del: runs.simps(4))
      moreover have "tolower level \<notin> {''emerg'', ''panic'', ''alert''}"
        using None by (auto simp: srt_level_names_eq cmap_get_def)
      ultimately show ?thesis by (simp add: level_consts)
    next
      case (Some v)
      with 3 assms have o: "out = Ok v" "tr = []" by (simp_all add: SrtParseLogLevel_def Let_def)
      from Some have "0 \<le> v \<and> v \<le> 7 \<and> (v < 2 \<longleftrightarrow> tolower level \<in> {''emerg'', ''panic'', ''alert''})"
        by (auto simp: srt_level_names_eq cmap_get_def split: if_splits)
      with o show ?thesis by (simp add: level_consts)
    qed
  qed
qed

theorem SrtParseLogLevel_range_witness:
  "\<exists>lev. SrtParseLogLevel ''PANIC'' = Ret lev \<and> lev < SRT_LOG_LEVEL_MIN"
proof -
  have l: "tolower ''PANIC'' = ''panic''" "cmap_get srt_level_names ''panic'' = Some 0" "\<not> isdigit (CHR ''P'')"
    by code_simp+
  have r: "SrtParseLogLevel ''PANIC'' = Ret 0"
    by (simp add: SrtParseLogLevel_def l)
  from SrtParseLogLevel_range[of "''PANIC''" "[]" "Ok 0"] r
  have "(0 < SRT_LOG_LEVEL_MIN) \<longleftrightarrow> tolower ''PANIC'' \<in> {''emerg'', ''panic'', ''alert''}" by simp
  then show ?thesis using r l(1) by auto
qed

end
