(* ===== verification/App.thy ===== *)
theory App
  imports LogSupport Route Generate Receive FileSend Forward
begin

text \<open>
  The program itself (\<^verbatim>\<open>srtdatacontroller-app.cpp\<close>): the signal handler, the initialisation of the network, the
  callbacks of the global options and \<^verbatim>\<open>main\<close>, which runs the command that was given. What
  the command line is parsed to (the callbacks that ran, the subcommand recognised, the filled
  configurations, or the exit code of a rejected command line) is an argument of \<open>app_main\<close>; the theory
  \<open>CommandLine\<close> computes it.
\<close>

subsection \<open>The signal handler and the network\<close>

definition OnINT_ForceExit :: "unit sprog" where
  "OnINT_ForceExit =
     bindP (os (Print_line ([CHR 0x0A] @ ''-------- REQUESTED INTERRUPT!''))) (\<lambda>_.
     bindP (os (Store_flag ''force_break'' True)) (\<lambda>_.
     bindP (srt Srt_cleanup) (\<lambda>_. Ret ())))"

definition NetworkInit :: "unit sprog" where
  "NetworkInit =
     bindP (os Sys_initialize_network) (\<lambda>r.
     if r_int r = 0 then Exc (Runtime_error (''Can'' @ [CHR 0x27] @ ''t initialize network!''))
     else bindP (srt Srt_startup) (\<lambda>_. Ret ()))"

definition NetworkInit_dtor :: "unit sprog" where
  "NetworkInit_dtor = bindP (os Sys_cleanup_network) (\<lambda>_. bindP (srt Srt_cleanup) (\<lambda>_. Ret ()))"

subsection \<open>The options of the program\<close>

definition create_srt_logfa_description :: "(string \<times> int) list \<Rightarrow> string" where
  "create_srt_logfa_description names =
     (let revmap = fold (\<lambda>entry m. cmap_put (snd entry) (fst entry) m) names cmap_empty;
          (ss, en10) = fold (\<lambda>entry (ss, en10).
              let ss = ss @ '' '' @ snd entry in
              if cdiv (fst entry) 10 \<noteq> en10 then (ss @ [CHR 0x0A], cdiv (fst entry) 10) else (ss, en10))
            revmap (''SRT log functional areas: ['', 0)
      in ss @ '' ]'')"

definition srt_clock_type_str :: "string sprog" where
  "srt_clock_type_str =
     bindP (srt Srt_clock_type) (\<lambda>r.
     let clock_type = r_int r in
     if clock_type = 0 then Ret ''CXX11_STEADY''
     else if clock_type = 1 then Ret ''GETTIME_MONOTONIC''
     else if clock_type = 2 then Ret ''WIN_QPC''
     else if clock_type = 3 then Ret ''MACH_ABSTIME''
     else if clock_type = 4 then Ret ''POSIX_GETTIMEOFDAY''
     else Ret ''UNKNOWN VALUE'')"

datatype cli_event = Flag_verbose | Flag_handle_sigint | Opt_loglevel string | Opt_logfa string

definition on_verbose :: "unit sprog" where
  "on_verbose =
     bindP (os (Store_flag ''Verbose::on'' True)) (\<lambda>_. bindP (os (Log_set_level ''trace'')) (\<lambda>_. Ret ()))"

text \<open>SIGINT is 2, SIGTERM is 15.\<close>

definition on_handle_sigint :: "unit sprog" where
  "on_handle_sigint = bindP (os (Sys_signal 2)) (\<lambda>_. bindP (os (Sys_signal 15)) (\<lambda>_. Ret ()))"

definition spdlog_level :: "int \<Rightarrow> string option" where
  "spdlog_level lev =
     (if lev = level_fatal then Some ''critical''
      else if lev = level_error then Some ''err''
      else if lev = level_warning then Some ''warn''
      else if lev = level_note then Some ''info''
      else if lev = level_debug then Some ''trace''
      else None)"

definition on_loglevel :: "string \<Rightarrow> unit sprog" where
  "on_loglevel val =
     bindP (SrtParseLogLevel val) (\<lambda>lev.
     bindP (srt (Srt_setloglevel lev)) (\<lambda>_.
     bindP (case spdlog_level lev of Some l \<Rightarrow> bindP (os (Log_set_level l)) (\<lambda>_. Ret ()) | None \<Rightarrow> Ret ()) (\<lambda>_.
     bindP (os (Log_line (''Log level set to '' @ val))) (\<lambda>_. Ret ()))))"

definition on_logfa :: "(string \<times> int) list \<Rightarrow> string \<Rightarrow> unit sprog" where
  "on_logfa names val =
     bindP (SrtParseLogFA names val) (\<lambda>fas.
     bindP (srt Srt_resetlogfa) (\<lambda>_.
     bindP (forP (\<lambda>i. bindP (srt (Srt_addlogfa i)) (\<lambda>_. Ret ())) fas) (\<lambda>_.
     bindP (os (Log_line (''SRT log FAs enabled: '' @ val))) (\<lambda>_. Ret ()))))"

definition on_event :: "(string \<times> int) list \<Rightarrow> cli_event \<Rightarrow> unit sprog" where
  "on_event names ev =
     (case ev of
        Flag_verbose \<Rightarrow> on_verbose
      | Flag_handle_sigint \<Rightarrow> on_handle_sigint
      | Opt_loglevel val \<Rightarrow> on_loglevel val
      | Opt_logfa val \<Rightarrow> on_logfa names val)"

subsection \<open>\<^verbatim>\<open>main\<close>\<close>

text \<open>What the command-line parser leaves: the callbacks it ran in their order, the exit code when it
  rejected the command line, the \<^verbatim>\<open>parsed\<close> flags of the subcommands and the variables it filled.\<close>

record cli =
  cl_events :: "cli_event list"
  cl_exit :: "int option"
  sc_generate :: bool
  sc_receive :: bool
  sc_route :: bool
  sc_file_send :: bool
  sc_file_recv :: bool
  sc_forward :: bool
  cl_src_urls :: "string list"
  cl_dst_urls :: "string list"
  cl_src :: string
  cl_dst :: string
  cfg_generate :: generate_config
  cfg_receive :: receive_config
  cfg_route :: route_config
  cfg_file_send :: file_send_config
  cfg_file_recv :: file_recv_config
  cfg_forward :: forward_config

definition cli0 :: cli where
  "cli0 = \<lparr>cl_events = [], cl_exit = None, sc_generate = False, sc_receive = False, sc_route = False,
     sc_file_send = False, sc_file_recv = False, sc_forward = False, cl_src_urls = [], cl_dst_urls = [],
     cl_src = '''', cl_dst = '''', cfg_generate = generate_config0, cfg_receive = receive_config0,
     cfg_route = route_config0, cfg_file_send = file_send_config0, cfg_file_recv = file_recv_config0,
     cfg_forward = forward_config0\<rparr>"

definition run_subcommand :: "nat \<Rightarrow> build_flags \<Rightarrow> bool \<Rightarrow> cli \<Rightarrow> unit sprog" where
  "run_subcommand fuel fl ENABLE_FILE_TRANSFER c =
     (if sc_generate c then generate_run fuel fl (cl_dst_urls c) (cfg_generate c)
      else if sc_receive c then receive_run fuel fl (cl_src_urls c) (cfg_receive c)
      else if sc_route c then route_run fuel fl (cl_src_urls c) (cl_dst_urls c) (cfg_route c)
      else if ENABLE_FILE_TRANSFER \<and> sc_file_send c then file_send_run fuel fl (cl_dst c) (cfg_file_send c)
      else if ENABLE_FILE_TRANSFER \<and> sc_file_recv c then file_receive_run fuel fl (cl_src c) (cfg_file_recv c)
      else if ENABLE_FILE_TRANSFER \<and> sc_forward c then forward_run fuel fl (cl_src c) (cl_dst c) (cfg_forward c)
      else bindP (os (Print_line ''Failed to recognize subcommand'')) (\<lambda>_. Ret ()))"

text \<open>An exception that leaves a command finds no handler and ends in \<^verbatim>\<open>std::terminate\<close>; whether the stack is unwound
  before, so that the destructor of \<^verbatim>\<open>nwobject\<close> runs, is up to the implementation: \<open>unwinds\<close>.\<close>

definition app_main :: "nat \<Rightarrow> build_flags \<Rightarrow> bool \<Rightarrow> bool \<Rightarrow> (string \<times> int) list \<Rightarrow> cli \<Rightarrow> int sprog" where
  "app_main fuel fl ENABLE_FILE_TRANSFER unwinds names c =
     bindP srt_clock_type_str (\<lambda>_.
     bindP (forP (on_event names) (cl_events c)) (\<lambda>_.
     case cl_exit c of
       Some code \<Rightarrow> Ret code
     | None \<Rightarrow>
         bindP NetworkInit (\<lambda>_.
         bindP (tryP (run_subcommand fuel fl ENABLE_FILE_TRANSFER c)) (\<lambda>x.
         case x of
           Inr _ \<Rightarrow> bindP NetworkInit_dtor (\<lambda>_. Ret 0)
         | Inl e \<Rightarrow> if unwinds then bindP NetworkInit_dtor (\<lambda>_. Exc e) else Exc e))))"

subsection \<open>The commands end\<close>

lemma runs_out_route_run: "runs_out_after fuel (route_run fuel fl srcs dsts cfg)"
proof -
  have d: "runs_out_after fuel (isock_dtor s)" "runs_out_after fuel (reset_ptr p)" for s p
    by (simp_all add: loop_free_runs_out loop_free_isock_dtor)
  have c: "runs_out_after fuel (route_connect fl cfg urls)" for urls
    by (auto simp: route_connect_def create_connection_temp_def simp del: bindP_callP bindP_if
        intro!: runs_out_intros loop_free_runs_out[OF loop_free_create_connection] d split: prod.splits)
  have b: "runs_out_after fuel (route_both fuel src dst cfg)" for src dst
    unfolding route_both_def
    by (auto simp del: bindP_callP bindP_if intro!: runs_out_intros runs_out_route split: sum.splits)
  have s: "runs_out_after fuel (route_sockets fuel fl cfg stats us vs)" for stats us vs
    unfolding route_sockets_def
    by (auto simp del: bindP_callP bindP_if intro!: runs_out_intros b c d split: sum.splits prod.splits)
  have t: "runs_out_after fuel (throw_socket m)" for m
    by (simp add: loop_free_runs_out)
  show ?thesis
    unfolding route_run_def Let_def
    by (auto simp del: bindP_callP bindP_if intro!: runs_out_intros s t)
qed

lemma loop_free_on_event: "loop_free (on_event names ev)"
proof -
  have l: "loop_free (SrtParseLogLevel v)" for v
    by (auto simp: SrtParseLogLevel_def Let_def intro!: confined_intros split: option.splits)
  have f: "loop_free (SrtParseLogFA names v)" for v
    by (auto simp: SrtParseLogFA_def add_fa_def intro!: confined_intros split: option.splits)
  show ?thesis
    by (cases ev) (auto simp: on_event_def on_verbose_def on_handle_sigint_def on_loglevel_def on_logfa_def
        intro!: confined_intros l f split: option.splits)
qed

lemma loop_free_app_parts: "loop_free srt_clock_type_str" "loop_free NetworkInit" "loop_free NetworkInit_dtor"
  by (auto simp: srt_clock_type_str_def NetworkInit_def NetworkInit_dtor_def Let_def intro!: confined_intros)

lemma returnsI: "loop_free p \<Longrightarrow> confined (\<lambda>_. True) (\<lambda>_. False) p \<Longrightarrow> returns p"
  unfolding returns_def by (metis confined_raised loop_free_runs outcome.exhaust)

lemma returns_clock_type: "returns srt_clock_type_str"
  by (intro returnsI loop_free_app_parts) (auto simp: srt_clock_type_str_def Let_def intro!: confined_intros)

lemma returns_events: "returns (forP (on_event names) evs)"
proof -
  have l: "confined (\<lambda>_. True) (\<lambda>_. False) (SrtParseLogLevel v)" for v
    by (auto simp: SrtParseLogLevel_def Let_def intro!: confined_intros split: option.splits)
  have split: "v = [] \<or> fa_split (tolower v) 0 0 [] \<noteq> None" for v
    using fa_split_fields[of 0 "tolower v" 0 "[]"] by (cases "v = []") (simp_all add: substr_def)
  have f: "confined (\<lambda>_. True) (\<lambda>_. False) (SrtParseLogFA names v)" for v
    using split[of v]
    by (auto simp: SrtParseLogFA_def add_fa_def intro!: confined_intros split: option.splits)
  have "confined (\<lambda>_. True) (\<lambda>_. False) (on_event names ev)" for ev
    by (cases ev) (auto simp: on_event_def on_verbose_def on_handle_sigint_def on_loglevel_def on_logfa_def
        intro!: confined_intros l f split: option.splits)
  then show ?thesis
    by (intro returnsI confined_intros loop_free_on_event)
qed

lemma runs_out_file_receive_run: "runs_out_after fuel (file_receive_run fuel fl url cfg)"
proof -
  have c: "runs_out_after fuel (srt_ctor fl u)" for u
    by (rule loop_free_runs_out[OF loop_free_srt_ctor])
  have d: "loop_free (srt_dtor s)" for s
    using loop_free_isock_dtor(1)[of "Sock_srt s"] by simp
  then have rel: "runs_out_after fuel (release_connection s con)" for s con
    by (simp add: release_connection_def loop_free_runs_out)
  have l: "runs_out_after fuel (srt_listen fl s)" for s
    by (rule loop_free_runs_out) (auto simp: srt_listen_def intro!: confined_intros loop_free_post)
  have start: "runs_out_after fuel (startFileReceiver fuel con cfg (release_connection s))" if "loop_free con" for con s
    unfolding startFileReceiver_def
    by (auto simp del: bindP_callP bindP_if intro!: runs_out_intros loop_free_runs_out[OF that] runs_out_receiveFiles rel
        split: sum.splits)
  define session where "session = (\<lambda>s. bindP (if ss_mode s = LISTENER then srt_async_accept fl s else srt_async_connect fl s)
      (\<lambda>con. startFileReceiver fuel con cfg (release_connection s)))"
  have "runs_out_after fuel (session s)" for s
    by (auto simp: session_def srt_async_accept_def srt_async_connect_def bindP_assoc
        intro!: runs_out_intros l start loop_free_srt_accept loop_free_srt_connect)
  moreover have "bindP (if ss_mode s = LISTENER then srt_async_accept fl s else srt_async_connect fl s)
      (\<lambda>con. startFileReceiver fuel con cfg (release_connection s)) = session s" for s
    by (simp only: session_def)
  then have "file_receive_run fuel fl url cfg = bindP (srt_ctor fl (file_receive_uri url cfg)) (\<lambda>socket.
     bindP (tryP (session socket)) (\<lambda>x. bindP (srt_dtor socket) (\<lambda>_.
     case x of Inl e \<Rightarrow> if is_socket_exn e then Ret () else Exc e | Inr _ \<Rightarrow> Ret ())))"
    by (simp only: file_receive_run_def Let_def)
  ultimately show ?thesis
    unfolding \<open>file_receive_run fuel fl url cfg = _\<close>
    by (auto simp del: bindP_callP bindP_if intro!: runs_out_intros c loop_free_runs_out[OF d] split: sum.splits)
qed

text \<open>The commands that watch the flag in all their loops; \<open>ft\<close> is the build switch of the file commands.\<close>

definition flag_command :: "bool \<Rightarrow> cli \<Rightarrow> bool" where
  "flag_command ft c \<longleftrightarrow> sc_generate c \<or> sc_receive c \<or> sc_route c \<or> (ft \<and> sc_file_recv c \<and> \<not> sc_file_send c)"

lemma runs_out_run_subcommand:
  "flag_command ft c \<Longrightarrow> runs_out_after fuel (run_subcommand fuel fl ft c)"
  unfolding run_subcommand_def flag_command_def generate_run_def receive_run_def
  by (auto intro!: runs_out_common_run runs_out_run_pipe runs_out_runPipe runs_out_route_run runs_out_file_receive_run)

subsection \<open>Properties\<close>

text \<open>C9: an interrupted program ends. For the commands \<^verbatim>\<open>generate\<close>, \<^verbatim>\<open>receive\<close>, \<^verbatim>\<open>route\<close> and \<^verbatim>\<open>file receive\<close>, with any configuration,
  any connections, with and without reconnection: the program ends as soon as the flag that the signal
  handler sets is seen; more turns than the flag was read as not set are never needed.\<close>

theorem app_main_ends:
  assumes "runs (app_main fuel fl ft unwinds names c) tr out" and "flag_command ft c" and "false_reads tr < fuel"
  shows "out \<noteq> Fuel_out"
proof (rule runs_out_ends[OF _ assms(1,3)])
  have "runs_out_after fuel (forP (on_event names) evs)" for evs
    by (intro loop_free_runs_out confined_intros loop_free_on_event)
  then show "runs_out_after fuel (app_main fuel fl ft unwinds names c)"
    unfolding app_main_def
    by (cases "cl_exit c")
      (auto simp del: bindP_callP bindP_if
        intro!: runs_out_intros runs_out_run_subcommand assms(2) loop_free_app_parts[THEN loop_free_runs_out]
        split: sum.splits)
qed

definition generate_cli :: cli where
  "generate_cli = cli0\<lparr>sc_generate := True, cl_dst_urls := [''x''], cfg_generate := generate_config0\<lparr>gn_reconnect := True\<rparr>\<rparr>"

theorem app_main_ends_witness:
  "snd (exec (app_main 1 fl0 True False [] generate_cli) (\<lambda>_ _. rint 1) []) \<noteq> Fuel_out"
proof -
  let ?p = "app_main 1 fl0 True False [] generate_cli"
  have u: "m_uriType (Parse ''x'' EXPECT_FILE) = FILE" "parameters (Parse ''x'' EXPECT_FILE) = []"
    "m_proto (Parse ''x'' EXPECT_FILE) = ''file''"
    by (code_simp, code_simp, code_simp)
  have c: "flag_command True generate_cli" by (simp add: flag_command_def generate_cli_def)
  have "false_reads (fst (exec ?p (\<lambda>_ _. rint 1) [])) < 1"
    by (simp add: app_main_def generate_cli_def cli0_def srt_clock_type_str_def NetworkInit_def NetworkInit_dtor_def
        run_subcommand_def generate_run_def generate_config0_def stats_config.truncate_def
        common_run_def run_loop_def run_iteration_def run_attempt_def create_connection_def u cmap_count_def
        is_socket_exn_def load_force_break_def reset_ptr_def Let_def) (simp add: false_reads_def)
  with app_main_ends[OF runs_exec c] show ?thesis by blast
qed

lemma runs_NetworkInit_dtor:
  "runs (bindP NetworkInit_dtor (\<lambda>_. p)) tr out \<longleftrightarrow>
     (\<exists>r2 r3 t. tr = (Os Sys_cleanup_network, r2) # (Srt Srt_cleanup, r3) # t \<and> runs p t out)"
  by (auto simp: NetworkInit_dtor_def runs_Call simp del: runs.simps(4))


definition unknown_command_trace :: strace where
  "unknown_command_trace =
     [(Srt Srt_clock_type, rint 1), (Os Sys_initialize_network, rint 1), (Srt Srt_startup, rint 1),
      (Os (Print_line ''Failed to recognize subcommand''), rint 1), (Os Sys_cleanup_network, rint 1),
      (Srt Srt_cleanup, rint 1)]"


end
