(* ===== verification/Acceptor.thy ===== *)
theory Acceptor
  imports Connection
begin

text \<open>
  The accepting thread of \<^verbatim>\<open>acceptor.hpp\<close>: \<^verbatim>\<open>async_accept\<close> starts a thread that calls
  \<^verbatim>\<open>s->async_accept()\<close> until a call raises, and keeps the future of the thread in the global vector
  \<^verbatim>\<open>accepting_threads\<close>. The future of one connection is the local variable \<^verbatim>\<open>s_accepted\<close>; at the end of
  the turn its destructor waits for the accept and drops the result.
\<close>

subsection \<open>The thread\<close>

text \<open>One turn: \<^verbatim>\<open>listen\<close> runs in the accepting thread and may raise; the accept runs in the future, which
  keeps its exception; a connection held by the future is destroyed with it.\<close>

definition acceptor_turn :: "build_flags \<Rightarrow> srt_sock \<Rightarrow> unit sprog" where
  "acceptor_turn fl s =
     bindP (srt_async_accept fl s) (\<lambda>s_accepted.
     bindP (tryP s_accepted) (\<lambda>r.
     case r of Inl e \<Rightarrow> Ret () | Inr connection \<Rightarrow> srt_dtor connection))"

definition accept_thread :: "nat \<Rightarrow> build_flags \<Rightarrow> srt_sock \<Rightarrow> unit sprog" where
  "accept_thread fuel fl s =
     catchP (loopP fuel (\<lambda>_. bindP (acceptor_turn fl s) (\<lambda>_. Ret (Inl ()))) ()) (\<lambda>e. Ret ())"

text \<open>The caller only stores the future: the threads started so far.\<close>

definition acceptor_async_accept ::
  "nat \<Rightarrow> build_flags \<Rightarrow> srt_sock \<Rightarrow> unit sprog list \<Rightarrow> unit sprog list" where
  "acceptor_async_accept fuel fl s accepting_threads = accepting_threads @ [accept_thread fuel fl s]"

subsection \<open>What becomes of the connections\<close>

definition accepted_sockets :: "strace \<Rightarrow> int list" where
  "accepted_sockets tr = [r_int r. (Srt (Srt_accept l), r) \<leftarrow> tr, r_int r \<noteq> SRT_INVALID_SOCK]"

text \<open>The library refused a call that prepares the socket \<open>k\<close>.\<close>

definition setup_refused :: "int \<Rightarrow> call \<times> reply \<Rightarrow> bool" where
  "setup_refused k e =
     (case e of
        (Srt (Srt_setsockopt s p v), r) \<Rightarrow> s = k \<and> r_int r = SRT_ERROR
      | (Srt (Srt_epoll_add_usock ep s m), r) \<Rightarrow> s = k \<and> r_int r = SRT_ERROR
      | _ \<Rightarrow> False)"

text \<open>The connection the thread has accepted last and not yet closed, with whether a call that prepares it was refused
  since. Accepting the next one needs that there is none or that it was refused, and so does the end of the trace.\<close>

type_synonym pending = "(int \<times> bool) option"

definition settled :: "pending \<Rightarrow> bool" where
  "settled p = (case p of None \<Rightarrow> True | Some (k, refused) \<Rightarrow> refused)"

definition accepted_socket :: "call \<times> reply \<Rightarrow> int option" where
  "accepted_socket e =
     (case e of (Srt (Srt_accept l), r) \<Rightarrow> if r_int r = SRT_INVALID_SOCK then None else Some (r_int r) | _ \<Rightarrow> None)"

definition pending_after :: "pending \<Rightarrow> call \<times> reply \<Rightarrow> pending" where
  "pending_after p e =
     (case accepted_socket e of
        Some k \<Rightarrow> Some (k, False)
      | None \<Rightarrow>
          (case p of
             None \<Rightarrow> None
           | Some (k, refused) \<Rightarrow>
               if fst e = Srt (Srt_close k) then None else if setup_refused k e then Some (k, True) else p))"

primrec drops :: "pending \<Rightarrow> strace \<Rightarrow> bool" where
  "drops p [] = settled p"
| "drops p (e # tr) = ((accepted_socket e \<noteq> None \<longrightarrow> settled p) \<and> drops (pending_after p e) tr)"

text \<open>Each connection of the trace is closed before the next accept and before the end, or a call that prepares it was refused.\<close>

definition connections_dropped :: "strace \<Rightarrow> bool" where
  "connections_dropped tr \<longleftrightarrow> (\<forall>p. settled p \<longrightarrow> drops p tr)"

lemma settled_simps [simp]: "settled None" "settled (Some (k, r)) = r"
  by (simp_all add: settled_def)

lemma drops_append: "drops p t1 \<Longrightarrow> connections_dropped t2 \<Longrightarrow> drops p (t1 @ t2)"
  by (induction t1 arbitrary: p) (simp_all add: connections_dropped_def)

lemma accepted_sockets_simps [simp]:
  "accepted_sockets [] = []" "accepted_sockets (t1 @ t2) = accepted_sockets t1 @ accepted_sockets t2"
  by (simp_all add: accepted_sockets_def)

lemma connections_dropped_append:
  "connections_dropped t1 \<Longrightarrow> connections_dropped t2 \<Longrightarrow> connections_dropped (t1 @ t2)"
  by (simp add: connections_dropped_def[of t1] connections_dropped_def[of "t1 @ t2"] drops_append)

definition no_accept :: "call \<Rightarrow> bool" where
  "no_accept c = (case c of Srt (Srt_accept s) \<Rightarrow> False | _ \<Rightarrow> True)"

lemma no_accept_simps [simp]:
  "no_accept (Os oc)" "no_accept (Srt (Srt_listen s n))" "no_accept (Srt (Srt_close s))"
  "no_accept (Srt (Srt_setsockopt s p v))" "no_accept (Srt Srt_getlasterror)" "no_accept (Srt Srt_getlasterror_str)"
  "no_accept (Srt (Srt_epoll_wait e b1 b2 t))" "no_accept (Srt Srt_epoll_create)"
  "no_accept (Srt (Srt_epoll_add_usock e s m))" "no_accept (Srt (Srt_getsockflag s p))"
  "no_accept (Srt (Srt_epoll_release e))" "\<not> no_accept (Srt (Srt_accept s))"
  by (simp_all add: no_accept_def)

abbreviation no_accepts :: "strace \<Rightarrow> bool" where
  "no_accepts tr \<equiv> list_all (\<lambda>e. no_accept (fst e)) tr"

lemma no_accept_event: "no_accept (fst e) \<Longrightarrow> accepted_socket e = None"
  by (cases e) (auto simp: accepted_socket_def no_accept_def split: call.splits srt_call.splits)

text \<open>Without an accept nothing becomes pending, and a pending connection that is closed or refused is settled.\<close>

lemma no_accepts_dropped: "no_accepts tr \<Longrightarrow> connections_dropped tr"
proof -
  have "settled (pending_after p e)" if "settled p" "no_accept (fst e)" for p e
    using that by (auto simp: pending_after_def no_accept_event settled_def split: option.splits)
  then have "no_accepts tr \<Longrightarrow> settled p \<Longrightarrow> drops p tr" for p
    by (induction tr arbitrary: p) (simp_all add: no_accept_event)
  then show "no_accepts tr \<Longrightarrow> ?thesis" by (simp add: connections_dropped_def)
qed

definition closes :: "int \<Rightarrow> call \<times> reply \<Rightarrow> bool" where
  "closes k e \<longleftrightarrow> fst e = Srt (Srt_close k)"

lemma drops_pending:
  "no_accepts tr \<Longrightarrow> list_ex (\<lambda>e. closes k e \<or> setup_refused k e) tr \<Longrightarrow> drops (Some (k, b)) tr"
proof (induction tr arbitrary: b)
  case (Cons e tr)
  then have n: "accepted_socket e = None" "connections_dropped tr"
    by (simp_all add: no_accept_event no_accepts_dropped)
  show ?case
  proof (cases "closes k e \<or> setup_refused k e")
    case True
    with n have "settled (pending_after (Some (k, b)) e)" by (auto simp: pending_after_def closes_def)
    with n show ?thesis by (simp add: connections_dropped_def)
  next
    case False
    with n Cons show ?thesis by (auto simp: pending_after_def closes_def)
  qed
qed simp

text \<open>One accept with what comes before and after it.\<close>

lemma accept_dropped:
  assumes "no_accepts pre" and "no_accepts post"
    and "r_int r = SRT_INVALID_SOCK \<or> list_ex (\<lambda>e. closes (r_int r) e \<or> setup_refused (r_int r) e) post"
  shows "connections_dropped (pre @ (Srt (Srt_accept l), r) # post)"
proof -
  have "connections_dropped ((Srt (Srt_accept l), r) # post)"
  proof (cases "r_int r = SRT_INVALID_SOCK")
    case True
    have "settled (pending_after p (Srt (Srt_accept l), r))" if "settled p" for p
      using that True by (auto simp: pending_after_def accepted_socket_def setup_refused_def settled_def split: option.splits)
    with no_accepts_dropped[OF assms(2)] True show ?thesis
      by (simp add: connections_dropped_def accepted_socket_def)
  next
    case False
    with assms(3) drops_pending[OF assms(2)] show ?thesis
      by (simp add: connections_dropped_def accepted_socket_def pending_after_def)
  qed
  with no_accepts_dropped[OF assms(1)] show ?thesis by (rule connections_dropped_append)
qed

subsection \<open>One accept\<close>

lemma keeps_no_accept: "keeps_sockets c \<Longrightarrow> no_accept c"
  by (auto simp: keeps_sockets_def no_accept_def split: call.splits srt_call.splits)

lemma confined_no_accept: "confined keeps_sockets E p \<Longrightarrow> confined no_accept E p"
  by (erule confined_mono) (auto dest: keeps_no_accept)

lemma confined_no_accept_parts:
  "confined no_accept E (configure_post fl s self)" "confined no_accept E (print_negotiated_config fl s)"
  "confined no_accept (\<lambda>_. True) (srt_of_sock s b)" "confined no_accept (\<lambda>_. True) (srt_listen fl self)"
  "confined no_accept (\<lambda>_. True) (srt_dtor self)"
proof -
  show p: "confined no_accept E (configure_post fl s self)" for E fl s self
    by (rule confined_no_accept[OF confined_configure_post])
  show "confined no_accept E (print_negotiated_config fl s)"
    by (rule confined_mono[OF confined_getsockflag_config]) auto
  show "confined no_accept (\<lambda>_. True) (srt_of_sock s b)"
    by (auto simp: srt_of_sock_def Let_def intro!: confined_intros confined_throw_lasterror)
  show "confined no_accept (\<lambda>_. True) (srt_listen fl self)"
    by (auto simp: srt_listen_def intro!: confined_intros p confined_raise_exception)
  show "confined no_accept (\<lambda>_. True) (srt_dtor self)"
    by (auto simp: srt_dtor_def intro!: confined_intros)
qed

lemma configure_post_refused:
  "runs (configure_post fl k self) tr (Ok SRT_ERROR) \<Longrightarrow> list_ex (setup_refused k) tr"
  by (auto simp: configure_post_def Let_def runs_bindP runs_call_simps setup_refused_def SRT_ERROR_def
      simp del: runs.simps(4) split: if_splits)

lemma runs_srt_of_sock:
  "runs (srt_of_sock k b) tr (Ok c) \<Longrightarrow> ss_bind_socket c = k"
  "runs (srt_of_sock k b) tr (Raised e) \<Longrightarrow> list_ex (setup_refused k) tr"
  by (auto simp: srt_of_sock_def Let_def runs_call_simps throw_lasterror_def throw_socket_def setup_refused_def
      simp del: runs.simps(4) split: if_splits)

text \<open>The part of \<^verbatim>\<open>accept\<close> after \<^verbatim>\<open>srt_accept\<close> returned the socket \<open>k\<close>.\<close>

definition accept_rest :: "build_flags \<Rightarrow> srt_sock \<Rightarrow> int \<Rightarrow> srt_sock sprog" where
  "accept_rest fl self k =
     bindP (configure_post fl k self) (\<lambda>res.
       if res = SRT_ERROR then raise_exception ''accept::configure_post''
       else bindP (print_negotiated_config fl k) (\<lambda>_. srt_of_sock k (ss_blocking_mode self)))"

lemma runs_accept_rest:
  assumes "runs (accept_rest fl self k) tr out"
  shows "no_accepts tr" and "out = Ok c \<Longrightarrow> ss_bind_socket c = k"
    and "out = Raised e \<Longrightarrow> list_ex (setup_refused k) tr"
proof -
  from assms obtain res t1 t2 where tr: "tr = t1 @ t2" and p: "runs (configure_post fl k self) t1 (Ok res)"
    and r: "runs (if res = SRT_ERROR then raise_exception ''accept::configure_post''
       else bindP (print_negotiated_config fl k) (\<lambda>_. srt_of_sock k (ss_blocking_mode self))) t2 out"
    using runs_configure_post unfolding accept_rest_def runs_bindP by blast
  have "confined no_accept (\<lambda>_. True) (accept_rest fl self k)"
    by (auto simp: accept_rest_def intro!: confined_intros confined_no_accept_parts confined_raise_exception)
  from confined_runs[OF this assms] show "no_accepts tr" .
  have nc: "\<not> runs (print_negotiated_config fl k) t (Raised e)" for t e
    using confined_raised[OF confined_no_accept_parts(2)[where E = "\<lambda>_. False"]] by blast
  show "out = Ok c \<Longrightarrow> ss_bind_socket c = k"
    using r by (auto simp: runs_bindP dest: runs_srt_of_sock(1) split: if_splits)
  show "out = Raised e \<Longrightarrow> list_ex (setup_refused k) tr"
    using r p nc by (auto simp: tr runs_bindP dest: runs_srt_of_sock(2) configure_post_refused split: if_splits)
qed

lemma srt_accept_alt:
  "srt_accept fl self =
     bindP (if \<not> ss_blocking_mode self then
              bindP (srt (Srt_epoll_wait (ss_epoll_connect self) True False (-1))) (\<lambda>r.
                if r_int r = -1 then raise_exception ''accept::epoll_wait'' else Ret ())
            else Ret ()) (\<lambda>_.
     bindP (srt (Srt_accept (ss_bind_socket self))) (\<lambda>r.
     if r_int r = SRT_INVALID_SOCK then raise_exception ''accept'' else accept_rest fl self (r_int r)))"
  unfolding srt_accept_def accept_rest_def Let_def by (rule refl)

text \<open>The trace of an accept: no accept at all, or one with its outcome.\<close>

lemma runs_srt_accept:
  assumes "runs (srt_accept fl self) tr out"
  shows "no_accepts tr \<and> (\<exists>e. out = Raised e) \<or>
    (\<exists>pre r post. tr = pre @ (Srt (Srt_accept (ss_bind_socket self)), r) # post \<and> no_accepts pre \<and> no_accepts post \<and>
      ((\<exists>e. out = Raised e) \<and> (r_int r = SRT_INVALID_SOCK \<or> list_ex (setup_refused (r_int r)) post) \<or>
       (\<exists>c. out = Ok c \<and> ss_bind_socket c = r_int r)))"
proof -
  let ?w = "Srt (Srt_epoll_wait (ss_epoll_connect self) True False (-1))"
  have exc: "no_accepts t \<and> (\<exists>e. o' = Raised e)" if "runs (raise_exception m :: 'a sprog) t o'" for m t and o' :: "'a outcome"
    using that by (auto simp: raise_exception_def throw_socket_def runs_call_simps simp del: runs.simps(4))
  have after: "no_accepts t \<and> ((\<exists>e. o' = Raised e) \<and> (r_int r = SRT_INVALID_SOCK \<or> list_ex (setup_refused (r_int r)) t) \<or>
       (\<exists>c. o' = Ok c \<and> ss_bind_socket c = r_int r))"
    if "runs (if r_int r = SRT_INVALID_SOCK then raise_exception ''accept'' else accept_rest fl self (r_int r)) t o'" for r t o'
  proof (cases "r_int r = SRT_INVALID_SOCK")
    case True
    with that exc show ?thesis by auto
  next
    case False
    with that have run: "runs (accept_rest fl self (r_int r)) t o'" by simp
    have "loop_free (accept_rest fl self (r_int r))"
      by (auto simp: accept_rest_def srt_of_sock_def Let_def intro!: confined_intros loop_free_post)
    with runs_accept_rest[OF run] loop_free_runs[OF _ run] show ?thesis by (cases o') auto
  qed
  from assms consider
      r t where "tr = (Srt (Srt_accept (ss_bind_socket self)), r) # t"
        "runs (if r_int r = SRT_INVALID_SOCK then raise_exception ''accept'' else accept_rest fl self (r_int r)) t out"
    | w r t where "tr = (?w, w) # (Srt (Srt_accept (ss_bind_socket self)), r) # t"
        "runs (if r_int r = SRT_INVALID_SOCK then raise_exception ''accept'' else accept_rest fl self (r_int r)) t out"
    | w t where "tr = (?w, w) # t" "runs (raise_exception ''accept::epoll_wait'' :: unit sprog) t (case out of Ok x \<Rightarrow> Ok () | Raised e \<Rightarrow> Raised e | Fuel_out \<Rightarrow> Fuel_out)"
    unfolding srt_accept_alt
    by (auto simp: raise_exception_def throw_socket_def runs_call_simps simp del: runs.simps(4) split: if_splits)
  then show ?thesis
  proof cases
    case 1
    with after[OF 1(2)] show ?thesis by (intro disjI2 exI[of _ "[]"]) auto
  next
    case 2
    with after[OF 2(2)] show ?thesis by (intro disjI2 exI[of _ "[(?w, w)]"]) auto
  next
    case 3
    from exc[OF 3(2)] 3(1) show ?thesis by (cases out) simp_all
  qed
qed

subsection \<open>The turns of the thread\<close>

lemma acceptor_turn_alt:
  "acceptor_turn fl s = bindP (srt_listen fl s) (\<lambda>_. bindP (tryP (srt_accept fl s)) (\<lambda>r.
     case r of Inl e \<Rightarrow> Ret () | Inr connection \<Rightarrow> srt_dtor connection))"
  by (simp add: acceptor_turn_def srt_async_accept_def bindP_assoc)

lemma accepted_then_closed:
  assumes "runs (tryP (srt_accept fl s)) t1 (Ok x)"
    and "runs (case x of Inl e \<Rightarrow> Ret () | Inr connection \<Rightarrow> srt_dtor connection) t2 out"
  shows "connections_dropped (t1 @ t2) \<and> (\<exists>y. out = Ok y)"
proof (cases x)
  case (Inl e)
  with assms have run: "runs (srt_accept fl s) t1 (Raised e)" and t2: "t2 = []" "out = Ok ()" by simp_all
  from runs_srt_accept[OF run] have "connections_dropped t1"
  proof (elim disjE exE conjE)
    fix pre r post
    assume "t1 = pre @ (Srt (Srt_accept (ss_bind_socket s)), r) # post" "no_accepts pre" "no_accepts post"
      "list_ex (setup_refused (r_int r)) post"
    then show ?thesis by (auto intro!: accept_dropped simp: list_ex_iff)
  qed (auto intro: no_accepts_dropped accept_dropped)
  with t2 show ?thesis by simp
next
  case (Inr c)
  with assms have run: "runs (srt_accept fl s) t1 (Ok c)" and d: "runs (srt_dtor c) t2 out" by simp_all
  from runs_srt_accept[OF run] obtain pre r post where t1: "t1 = pre @ (Srt (Srt_accept (ss_bind_socket s)), r) # post"
    "no_accepts pre" "no_accepts post" "ss_bind_socket c = r_int r" by auto
  have n: "no_accepts t2" by (rule confined_runs[OF confined_no_accept_parts(5) d])
  from runs_srt_dtor[OF d] have "ss_bind_socket c \<in> set (closed_sockets t2)" and o: "\<exists>y. out = Ok y" by auto
  then have "list_ex (closes (r_int r)) t2"
    using t1(4) by (force simp: list_ex_iff closes_def closed_sockets_def split: prod.splits call.splits srt_call.splits)
  then have "connections_dropped (pre @ (Srt (Srt_accept (ss_bind_socket s)), r) # (post @ t2))"
    by (intro accept_dropped[OF t1(2)]) (use t1(3) n in \<open>auto simp: list_ex_iff\<close>)
  with o show ?thesis by (simp add: t1(1))
qed

lemma runs_accept_turn:
  assumes "runs (acceptor_turn fl s) tr out"
  shows "connections_dropped tr" and "out \<noteq> Fuel_out"
    and "out = Raised e \<Longrightarrow> runs (srt_listen fl s) tr (Raised e)"
proof -
  let ?k = "\<lambda>r. case r of Inl e \<Rightarrow> Ret () | Inr connection \<Rightarrow> srt_dtor connection"
  have lf: "loop_free (srt_listen fl s)"
    by (auto simp: srt_listen_def intro!: confined_intros loop_free_post)
  have nf: "\<not> runs (srt_listen fl s) tr Fuel_out"
    using loop_free_runs[OF lf] by blast
  from assms consider
      t1 t2 where "tr = t1 @ t2" "runs (srt_listen fl s) t1 (Ok ())" "runs (bindP (tryP (srt_accept fl s)) ?k) t2 out"
    | e where "out = Raised e" "runs (srt_listen fl s) tr (Raised e)"
    using nf unfolding acceptor_turn_alt runs_bindP[of "srt_listen fl s"] by auto
  then have "connections_dropped tr \<and> out \<noteq> Fuel_out \<and> (\<forall>e. out = Raised e \<longrightarrow> runs (srt_listen fl s) tr (Raised e))"
  proof cases
    case 1
    have "returns (tryP (srt_accept fl s))"
      using loop_free_runs[OF loop_free_srt_accept] by (auto simp: returns_def runs_tryP)
    with 1(3) obtain x t3 t4 where x: "t2 = t3 @ t4" "runs (tryP (srt_accept fl s)) t3 (Ok x)" "runs (?k x) t4 out"
      by (auto simp: runs_bindP_returns)
    have "connections_dropped t2 \<and> (\<exists>x. out = Ok x)"
      unfolding x(1) by (rule accepted_then_closed[OF x(2,3)])
    moreover have "connections_dropped t1"
      by (rule no_accepts_dropped[OF confined_runs[OF confined_no_accept_parts(4) 1(2)]])
    ultimately show ?thesis
      using 1(1) by (auto intro: connections_dropped_append)
  next
    case 2
    then show ?thesis
      using no_accepts_dropped[OF confined_runs[OF confined_no_accept_parts(4) 2(2)]] by simp
  qed
  then show "connections_dropped tr" "out \<noteq> Fuel_out" "out = Raised e \<Longrightarrow> runs (srt_listen fl s) tr (Raised e)"
    by blast+
qed

lemma runs_accept_loop:
  assumes "runs (loopP n (\<lambda>_. bindP (acceptor_turn fl s) (\<lambda>_. Ret (Inl ()))) ()) tr out"
  shows "connections_dropped tr \<and> (out = Fuel_out \<or>
     (\<exists>e t1 t2. out = Raised e \<and> tr = t1 @ t2 \<and> runs (srt_listen fl s) t2 (Raised e)))"
  using assms
proof (induction n arbitrary: tr)
  case 0
  then show ?case by (simp add: no_accepts_dropped)
next
  case (Suc n)
  from Suc.prems consider
      t1 t2 where "tr = t1 @ t2" "runs (acceptor_turn fl s) t1 (Ok ())"
        "runs (loopP n (\<lambda>_. bindP (acceptor_turn fl s) (\<lambda>_. Ret (Inl ()))) ()) t2 out"
    | e where "out = Raised e" "runs (acceptor_turn fl s) tr (Raised e)"
    by (auto simp: bindP_assoc runs_bindP dest: runs_accept_turn(2))
  then show ?case
  proof cases
    case 1
    with Suc.IH[OF 1(3)] runs_accept_turn(1)[OF 1(2)] show ?thesis
      by (auto intro: connections_dropped_append)
  next
    case 2
    with runs_accept_turn(1,3)[OF 2(2)] show ?thesis
      by (metis append_Nil)
  qed
qed

text \<open>C38: the accepting thread hands a connection to nobody. Between a successful accept and the next one, and
  before the thread ends, the accepted socket is closed again; the one exception is a socket of which
  a preparing call (an option or an epoll subscription) was refused, which may stay open. No exception leaves the thread,
  and it ends only after a \<^verbatim>\<open>listen\<close> that raised; a failing accept does not end it.\<close>

theorem acceptor_drops:
  assumes "runs (accept_thread fuel fl s) tr out"
  shows "drops None tr \<and> (out = Fuel_out \<or>
     out = Ok () \<and> (\<exists>e t1 t2. tr = t1 @ t2 \<and> runs (srt_listen fl s) t2 (Raised e)))"
proof -
  have "connections_dropped tr \<and> (out = Fuel_out \<or>
     out = Ok () \<and> (\<exists>e t1 t2. tr = t1 @ t2 \<and> runs (srt_listen fl s) t2 (Raised e)))"
    using assms runs_accept_loop unfolding accept_thread_def runs_catchP by fastforce
  then show ?thesis by (simp add: connections_dropped_def)
qed

definition acceptor0 :: srt_sock where
  "acceptor0 = srt_sock0\<lparr>ss_bind_socket := 7, ss_mode := LISTENER, ss_blocking_mode := True\<rparr>"

text \<open>The library accepts one connection, the socket 9, and refuses to listen once that is closed.\<close>

definition one_connection :: "strace \<Rightarrow> call \<Rightarrow> reply" where
  "one_connection h c =
     (case c of
        Srt (Srt_listen s n) \<Rightarrow> rint (if list_ex (\<lambda>e. fst e = Srt (Srt_close 9)) h then -1 else 0)
      | Srt (Srt_accept s) \<Rightarrow> rint 9
      | _ \<Rightarrow> rint 0)"

theorem acceptor_drops_witness:
  "let (tr, out) = exec (accept_thread 2 fl0 acceptor0) one_connection [] in
     accepted_sockets tr = [9] \<and> drops None tr \<and> out = Ok ()"
proof -
  let ?p = "exec (accept_thread 2 fl0 acceptor0) one_connection []"
  note defs = accept_thread_def acceptor_turn_def srt_async_accept_def srt_listen_def srt_accept_def configure_post_def
    SrtConfigurePost_def foldP_no_options print_negotiated_config_def get_sock_value_def latency_str_def
    srt_of_sock_def srt_dtor_def acceptor0_def srt_sock0_def srt_consts one_connection_def raise_exception_def throw_socket_def
  have "accepted_sockets (fst ?p) = [9] \<and> snd ?p = Ok ()"
    by (simp add: defs cmap_empty_def numeral_2_eq_2 Let_def accepted_sockets_def bindP_assoc cong: if_cong)
  with acceptor_drops[OF runs_exec, of 2 fl0 acceptor0 one_connection "[]"] show ?thesis
    by (simp add: case_prod_beta)
qed

end
