(* ===== verification/CliText.thy ===== *)
theory CliText
  imports CppMap
begin

text \<open>
  The text functions of the command-line library CLI11 that the program reaches
  (\<^verbatim>\<open>StringTools.hpp\<close>, \<^verbatim>\<open>Split.hpp\<close>, \<^verbatim>\<open>TypeTools.hpp\<close>, \<^verbatim>\<open>Validators.hpp\<close>): trimming, the names in an option
  declaration, the conversion of an argument to a number or a flag, and the transformer
  \<^verbatim>\<open>AsNumberWithUnit\<close> that reads \<^verbatim>\<open>10Mbps\<close> or \<^verbatim>\<open>5s\<close>. The locale is the classic one.
\<close>

datatype cli_error =
    Incorrect_construction | Bad_name_string string | Option_already_added string
  | Conversion_error string | Validation_error string | Required_error | Extras_error "string list"
  | Argument_mismatch string | Invalid_error | Horrible_error
  | Call_for_help | Call_for_all_help | Call_for_version
  | Config_file "string list"
  | Std_exception cpp_exn

subsection \<open>Trimming and splitting\<close>

definition ltrim :: "string \<Rightarrow> string" where
  "ltrim str = dropWhile is_space str"

definition rtrim :: "string \<Rightarrow> string" where
  "rtrim str = rev (dropWhile is_space (rev str))"

definition trim :: "string \<Rightarrow> string" where
  "trim str = ltrim (rtrim str)"

text \<open>\<^verbatim>\<open>getline\<close> with a delimiter: a delimiter at the end of the text opens no further item.\<close>

function split_items :: "char \<Rightarrow> string \<Rightarrow> string list" where
  "split_items delim s =
     (if s = [] then []
      else case find_char delim s 0 of
        None \<Rightarrow> [s]
      | Some i \<Rightarrow> take i s # split_items delim (drop (Suc i) s))"
  by pat_completeness auto

termination
  by (relation "measure (\<lambda>(delim, s). length s)") (auto simp: cstring split: option.splits)

declare split_items.simps [simp del]

definition split_by :: "string \<Rightarrow> char \<Rightarrow> string list" where
  "split_by s delim = (if s = [] then [[]] else split_items delim s)"

function split_names :: "string \<Rightarrow> string list" where
  "split_names current =
     (case find_char (CHR '','') current 0 of
        None \<Rightarrow> [trim current]
      | Some val \<Rightarrow> trim (take val current) # split_names (drop (Suc val) current))"
  by pat_completeness auto

termination
  by (relation "measure length") (auto simp: cstring split: option.splits)

declare split_names.simps [simp del]

subsection \<open>Names\<close>

definition valid_first_char :: "char \<Rightarrow> bool" where
  "valid_first_char c \<longleftrightarrow> c \<noteq> CHR ''-'' \<and> c \<noteq> CHR ''!'' \<and> c \<noteq> CHR '' '' \<and> c \<noteq> CHR 0x0A"

definition valid_later_char :: "char \<Rightarrow> bool" where
  "valid_later_char c \<longleftrightarrow> c \<noteq> CHR ''='' \<and> c \<noteq> CHR '':'' \<and> c \<noteq> CHR ''{'' \<and> c \<noteq> CHR '' '' \<and> c \<noteq> CHR 0x0A"

definition valid_name_string :: "string \<Rightarrow> bool" where
  "valid_name_string str \<longleftrightarrow>
     (case str of [] \<Rightarrow> False | c # cs \<Rightarrow> valid_first_char c \<and> list_all valid_later_char cs)"

text \<open>A short option and what follows its letter; a long option and the value after \<^verbatim>\<open>=\<close>.\<close>

definition split_short :: "string \<Rightarrow> (string \<times> string) option" where
  "split_short current =
     (if 1 < length current \<and> current ! 0 = CHR ''-'' \<and> valid_first_char (current ! 1)
      then Some (substr current 1 1, drop 2 current) else None)"

definition split_long :: "string \<Rightarrow> (string \<times> string) option" where
  "split_long current =
     (if 2 < length current \<and> take 2 current = ''--'' \<and> valid_first_char (current ! 2)
      then Some (case find_char (CHR ''='') current 0 of
                   Some loc \<Rightarrow> (substr current 2 (loc - 2), drop (loc + 1) current)
                 | None \<Rightarrow> (drop 2 current, ''''))
      else None)"

definition get_names_step ::
  "string list \<times> string list \<times> string \<Rightarrow> string \<Rightarrow> cli_error + (string list \<times> string list \<times> string)" where
  "get_names_step acc name =
     (let (short_names, long_names, pos_name) = acc in
      if length name = 0 then Inr acc
      else if 1 < length name \<and> name ! 0 = CHR ''-'' \<and> name ! 1 \<noteq> CHR ''-'' then
        (if length name = 2 \<and> valid_first_char (name ! 1)
         then Inr (short_names @ [[name ! 1]], long_names, pos_name) else Inl (Bad_name_string name))
      else if 2 < length name \<and> take 2 name = ''--'' then
        (let name = drop 2 name in
         if valid_name_string name then Inr (short_names, long_names @ [name], pos_name)
         else Inl (Bad_name_string name))
      else if name = ''-'' \<or> name = ''--'' then Inl (Bad_name_string name)
      else if pos_name \<noteq> [] then Inl (Bad_name_string name)
      else Inr (short_names, long_names, name))"

primrec get_names_from ::
  "string list \<times> string list \<times> string \<Rightarrow> string list \<Rightarrow> cli_error + (string list \<times> string list \<times> string)" where
  "get_names_from acc [] = Inr acc"
| "get_names_from acc (name # names) =
     (case get_names_step acc name of Inl e \<Rightarrow> Inl e | Inr acc \<Rightarrow> get_names_from acc names)"

definition get_names :: "string list \<Rightarrow> cli_error + (string list \<times> string list \<times> string)" where
  "get_names input = get_names_from ([], [], '''') input"

subsection \<open>Default values in the declaration of a flag\<close>

definition has_default_flag_values :: "string \<Rightarrow> bool" where
  "has_default_flag_values flags \<longleftrightarrow> find_first_of ''{!'' flags 0 \<noteq> None"

function remove_braces :: "string \<Rightarrow> nat \<Rightarrow> string" where
  "remove_braces flags from =
     (case find_first_of ''{'' flags from of
        None \<Rightarrow> flags
      | Some loc \<Rightarrow>
          remove_braces
            (case find_first_of ''},'' flags (loc + 1) of
               Some finish \<Rightarrow> if flags ! finish = CHR ''}'' then take loc flags @ drop (finish + 1) flags else flags
             | None \<Rightarrow> flags)
            (loc + 1))"
  by pat_completeness auto

termination
  by (relation "measure (\<lambda>(flags, from). length flags - from)") (auto simp: cstring split: option.splits)

declare remove_braces.simps [simp del]

definition remove_default_flag_values :: "string \<Rightarrow> string" where
  "remove_default_flag_values flags = filter (\<lambda>c. c \<noteq> CHR ''!'') (remove_braces flags 2)"

definition default_flag_value :: "string \<Rightarrow> string \<times> string" where
  "default_flag_value flag =
     (let (flag, defval) =
        (case find_char (CHR ''{'') flag 0 of
           Some def_start \<Rightarrow>
             if last flag = CHR ''}'' then (take def_start flag, butlast (drop (def_start + 1) flag)) else (flag, ''false'')
         | None \<Rightarrow> (flag, ''false''))
      in (dropWhile (\<lambda>c. c = CHR ''-'' \<or> c = CHR ''!'') flag, defval))"

definition get_default_flag_values :: "string \<Rightarrow> (string \<times> string) list" where
  "get_default_flag_values str =
     map default_flag_value
       (filter (\<lambda>name. name \<noteq> [] \<and> (find_char (CHR ''{'') name 0 \<noteq> None \<and> last name = CHR ''}'' \<or> name ! 0 = CHR ''!''))
          (split_names str))"

subsection \<open>Converting an argument\<close>

text \<open>A conversion that returns false is \<^term>\<open>None\<close>. The number has \<open>w\<close> bits; \<^verbatim>\<open>strtoll\<close> and \<^verbatim>\<open>strtoull\<close> detect
  the base, saturate, and \<^verbatim>\<open>strtoull\<close> negates modulo \<open>2 ^ 64\<close>.\<close>

definition integral_conversion :: "nat \<Rightarrow> string \<Rightarrow> int option" where
  "integral_conversion w input =
     (if input = [] then None
      else case strtol_parse 0 input of
        None \<Rightarrow> None
      | Some (v, rest) \<Rightarrow>
          let output_ll = clamp64 v; output = wrap_int w output_ll
          in if rest = [] \<and> output = output_ll then Some output else None)"

definition unsigned_conversion :: "nat \<Rightarrow> string \<Rightarrow> nat option" where
  "unsigned_conversion w input =
     (if input = [] then None
      else case strtol_parse 0 input of
        None \<Rightarrow> None
      | Some (v, rest) \<Rightarrow>
          let output_ll = (if \<bar>v\<bar> < 2 ^ 64 then v mod 2 ^ 64 else 2 ^ 64 - 1); output = output_ll mod 2 ^ w
          in if rest = [] \<and> output = output_ll then Some (nat output) else None)"

definition to_flag_value :: "string \<Rightarrow> cpp_exn + int" where
  "to_flag_value val =
     (if val = ''true'' then Inr 1
      else if val = ''false'' then Inr (-1)
      else
        let val = tolower val in
        if length val = 1 then
          (let c = val ! 0; n = of_char c :: nat in
           if 49 \<le> n \<and> n \<le> 57 then Inr (int n - 48)
           else if c \<in> {CHR ''0'', CHR ''f'', CHR ''n'', CHR ''-''} then Inr (-1)
           else if c \<in> {CHR ''t'', CHR ''y'', CHR ''+''} then Inr 1
           else Inl (Invalid_argument ''unrecognized character''))
        else if val \<in> {''true'', ''on'', ''yes'', ''enable''} then Inr 1
        else if val \<in> {''false'', ''off'', ''no'', ''disable''} then Inr (-1)
        else sto_int 64 10 val)"

definition lexical_cast_bool :: "string \<Rightarrow> bool option" where
  "lexical_cast_bool input =
     (case to_flag_value input of
        Inr out \<Rightarrow> Some (0 < out)
      | Inl (Std_out_of_range _) \<Rightarrow> Some (input ! 0 \<noteq> CHR ''-'')
      | Inl _ \<Rightarrow> None)"

text \<open>\<^verbatim>\<open>lexical_assign\<close>: for a number an empty text is the value 0.\<close>

definition lexical_assign :: "'v \<Rightarrow> (string \<Rightarrow> 'v option) \<Rightarrow> string \<Rightarrow> 'v option" where
  "lexical_assign zero cast input = (if input = [] then Some zero else cast input)"

primrec sum_flag_vector :: "string list \<Rightarrow> cpp_exn + int" where
  "sum_flag_vector [] = Inr 0"
| "sum_flag_vector (flag # flags) =
     (case to_flag_value flag of
        Inl e \<Rightarrow> Inl e
      | Inr v \<Rightarrow> (case sum_flag_vector flags of Inl e \<Rightarrow> Inl e | Inr vs \<Rightarrow> Inr (wrap_int 64 (v + vs))))"

subsection \<open>Numbers with a unit\<close>

definition isalpha :: "char \<Rightarrow> bool" where
  "isalpha c \<longleftrightarrow> (let n = of_char c :: nat in 65 \<le> n \<and> n \<le> 90 \<or> 97 \<le> n \<and> n \<le> 122)"

definition INT_MAX :: int where "INT_MAX = 2 ^ 31 - 1"
definition INT_MIN :: int where "INT_MIN = - (2 ^ 31)"

definition overflowCheck :: "int \<Rightarrow> int \<Rightarrow> bool" where
  "overflowCheck a b =
     (if (0 < a) = (0 < b) then cdiv INT_MAX \<bar>a\<bar> < \<bar>b\<bar> else cdiv INT_MIN \<bar>a\<bar> > - \<bar>b\<bar>)"

text \<open>\<^verbatim>\<open>a *= b\<close> in \<^verbatim>\<open>int\<close>, or \<^term>\<open>None\<close> for the result false.\<close>

definition checked_multiply :: "int \<Rightarrow> int \<Rightarrow> int option" where
  "checked_multiply a b =
     (if a = 0 \<or> b = 0 \<or> a = 1 \<or> b = 1 then Some (a * b)
      else if a = INT_MIN \<or> b = INT_MIN then None
      else if overflowCheck a b then None
      else Some (a * b))"

type_synonym unit_map = "(string \<times> int) list"

definition validate_mapping :: "unit_map \<Rightarrow> bool" where
  "validate_mapping mapping \<longleftrightarrow> list_all (\<lambda>kv. fst kv \<noteq> [] \<and> list_all isalpha (fst kv)) mapping"

text \<open>The transformer made with the option \<^verbatim>\<open>CASE_SENSITIVE\<close> (which leaves the unit optional): the new text of
  the argument, or the error.\<close>

definition AsNumberWithUnit :: "unit_map \<Rightarrow> string \<Rightarrow> cli_error + string" where
  "AsNumberWithUnit mapping input =
     (let input = rtrim input in
      if input = [] then Inl (Validation_error ''Input is empty'')
      else
        let unit = rev (takeWhile isalpha (rev input));
            input = trim (take (length input - length unit) input)
        in if unit = [] then
             (case integral_conversion 32 input of
                None \<Rightarrow> Inl (Validation_error (''Value '' @ input @ '' could not be converted to INT''))
              | Some num \<Rightarrow> Inr input)
           else case cmap_get mapping unit of
             None \<Rightarrow> Inl (Validation_error (unit @ '' unit not recognized.''))
           | Some factor \<Rightarrow>
               if input \<noteq> [] then
                 (case integral_conversion 32 input of
                    None \<Rightarrow> Inl (Validation_error (''Value '' @ input @ '' could not be converted to INT''))
                  | Some num \<Rightarrow>
                      (case checked_multiply num factor of
                         None \<Rightarrow> Inl (Validation_error (int_to_string num @ '' multiplied by '' @ unit @
                                   '' factor would cause number overflow. Use smaller value.''))
                       | Some num \<Rightarrow> Inr (int_to_string num)))
               else Inr (int_to_string factor))"

subsection \<open>The multiplication never wraps\<close>

lemma cdiv_min: "0 < a \<Longrightarrow> 0 < m \<Longrightarrow> cdiv (- m) a = - (m div a)"
  by (simp add: cdiv_def)

lemma div_less_mult: "0 < (a::int) \<Longrightarrow> m div a < b \<longleftrightarrow> m < a * b"
proof -
  assume a: "0 < a"
  have m: "m = a * (m div a) + m mod a" "0 \<le> m mod a" "m mod a < a" using a by simp_all
  show "m div a < b \<longleftrightarrow> m < a * b"
  proof
    assume "m div a < b"
    then have "a * (m div a + 1) \<le> a * b" using a by simp
    then have "a * (m div a) + a \<le> a * b" by (simp add: distrib_left)
    with m(3) show "m < a * b" using m(1) by linarith
  next
    assume "m < a * b"
    with m have "a * (m div a) < a * b" by linarith
    with a show "m div a < b" by simp
  qed
qed

lemma overflowCheck_iff:
  assumes "a \<noteq> 0" "b \<noteq> 0"
  shows "overflowCheck a b \<longleftrightarrow> \<not> in_int 32 (a * b)"
proof (cases "(0 < a) = (0 < b)")
  case True
  with assms have p: "\<bar>a\<bar> * \<bar>b\<bar> = a * b" "0 < a * b"
    by (auto simp: abs_if zero_less_mult_iff)
  from True have "overflowCheck a b \<longleftrightarrow> INT_MAX < a * b"
    using assms by (simp add: overflowCheck_def INT_MAX_def cdiv_nonneg div_less_mult p(1))
  with p(2) show ?thesis by (auto simp: INT_MAX_def in_int_def)
next
  case False
  with assms have p: "\<bar>a\<bar> * \<bar>b\<bar> = - (a * b)" "a * b < 0"
    by (auto simp: abs_if mult_less_0_iff)
  from False have "overflowCheck a b \<longleftrightarrow> 2 ^ 31 < - (a * b)"
    using assms by (simp add: overflowCheck_def INT_MIN_def cdiv_min div_less_mult p(1))
  with p(2) show ?thesis by (auto simp: in_int_def)
qed

text \<open>The checked multiplication is exact, and refuses exactly the products that do not fit.\<close>

lemma checked_multiply_exact:
  assumes "in_int 32 a" "in_int 32 b"
  shows "checked_multiply a b = (if in_int 32 (a * b) then Some (a * b) else None)"
proof -
  have min: "\<not> in_int 32 (INT_MIN * c)" if "c \<noteq> 0" "c \<noteq> 1" "in_int 32 c" for c
    using that by (cases "0 < c") (auto simp: INT_MIN_def in_int_def)
  show ?thesis
    using assms min[of a] min[of b] overflowCheck_iff[of a b]
    by (auto simp: checked_multiply_def mult.commute[of a INT_MIN])
qed

subsection \<open>Printing and reading a number\<close>

lemma nat_to_string_hd:
  "0 < n \<Longrightarrow> hd (nat_to_string n) \<noteq> CHR ''0''"
proof (induction n rule: nat_to_string.induct)
  case (1 n)
  show ?case
  proof (cases "n < 10")
    case True
    have "char_of (48 + n) \<noteq> CHR ''0''"
    proof
      assume "char_of (48 + n) = CHR ''0''"
      then have "(of_char (char_of (48 + n) :: char) :: nat) = of_char (CHR ''0'')" by (rule arg_cong)
      with True 1(2) show False by simp
    qed
    with True show ?thesis by (simp add: nat_to_string.simps[of n])
  next
    case False
    with 1 show ?thesis by (simp add: nat_to_string.simps[of n] nat_to_string_nonempty)
  qed
qed

lemma strtol0_nat_to_string:
  "strip_sign (dropWhile is_space s) = (neg, nat_to_string n) \<Longrightarrow>
   strtol_parse 0 s = Some (if neg then - int n else int n, [])"
proof (cases "n = 0")
  case True
  have z: "nat_to_string 0 = ''0''" by code_simp
  have d: "detect_base 0 ''0'' = (8, ''0'')" "is_digit_of 8 (CHR ''0'')" "digits_value 8 ''0'' = 0" by code_simp+
  assume "strip_sign (dropWhile is_space s) = (neg, nat_to_string n)"
  then show ?thesis by (simp add: True z strtol_parse_def d)
next
  case False
  let ?ds = "nat_to_string n"
  from nat_to_string_nonempty obtain c cs where s: "?ds = c # cs" by (cases ?ds) auto
  with nat_to_string_hd[of n] False have "c \<noteq> CHR ''0''" by simp
  with s have b: "detect_base 0 ?ds = (10, ?ds)" by (simp add: detect_base_def)
  have all: "\<forall>x \<in> set ?ds. is_digit_of 10 x" by (simp add: nat_to_string_digits)
  then have tw: "takeWhile (is_digit_of 10) ?ds = ?ds" "dropWhile (is_digit_of 10) ?ds = []"
    by (simp_all add: takeWhile_eq_all_conv dropWhile_eq_Nil_conv)
  assume "strip_sign (dropWhile is_space s) = (neg, ?ds)"
  then show ?thesis
    by (simp add: strtol_parse_def b tw nat_to_string_nonempty digits_value_nat_to_string)
qed

text \<open>The decimal text of a number, read with the base detected from the text, is the number.\<close>

lemma strtol0_int_to_string: "strtol_parse 0 (int_to_string i) = Some (i, [])"
proof (cases "i < 0")
  case True
  have "\<not> is_space (CHR ''-'')" by code_simp
  with True have "strip_sign (dropWhile is_space (int_to_string i)) = (True, nat_to_string (nat (- i)))"
    by (simp add: int_to_string_def strip_sign_def)
  from strtol0_nat_to_string[OF this] True show ?thesis by simp
next
  case False
  from nat_to_string_nonempty obtain c cs where s: "nat_to_string (nat i) = c # cs"
    by (cases "nat_to_string (nat i)") auto
  then have "is_digit_of 10 c" using nat_to_string_digits[of c "nat i"] by simp
  from digit_not_space_sign[OF this] False s
  have "strip_sign (dropWhile is_space (int_to_string i)) = (False, nat_to_string (nat i))"
    by (simp add: int_to_string_def strip_sign_def)
  from strtol0_nat_to_string[OF this] False show ?thesis by simp
qed

lemma int_to_string_nonempty: "int_to_string i \<noteq> []"
  by (simp add: int_to_string_def nat_to_string_nonempty)

lemma clamp64_id: "in_int 64 v \<Longrightarrow> clamp64 v = v"
  by (simp add: clamp64_def in_int_def)

lemma in_int_mono:
  assumes "w \<le> w'" "in_int w v"
  shows "in_int w' v"
proof -
  have "(2::int) ^ (w - 1) \<le> 2 ^ (w' - 1)" using assms(1) by (intro power_increasing) simp_all
  with assms(2) show ?thesis unfolding in_int_def by linarith
qed

lemma integral_conversion_int_to_string:
  "0 < w \<Longrightarrow> w \<le> 64 \<Longrightarrow> in_int w i \<Longrightarrow> integral_conversion w (int_to_string i) = Some i"
  using in_int_mono[of w 64 i]
  by (simp add: integral_conversion_def int_to_string_nonempty strtol0_int_to_string clamp64_id wrap_int_id)

lemma integral_conversion_in:
  "0 < w \<Longrightarrow> integral_conversion w s = Some v \<Longrightarrow> in_int w v"
  by (auto simp: integral_conversion_def Let_def split: if_splits option.splits prod.splits) (metis wrap_int_in)

subsection \<open>Numbers with a unit are exact\<close>

lemma not_alpha_digit: "is_digit_of 10 c \<Longrightarrow> \<not> isalpha c"
  by (auto simp: is_digit_of_def digit_val_def isalpha_def Let_def split: option.splits if_splits)

lemma alpha_not_space: "isalpha c \<Longrightarrow> \<not> is_space c"
  by (auto simp: isalpha_def is_space_def Let_def)

lemma space_not_alpha: "is_space c \<Longrightarrow> \<not> isalpha c"
  using alpha_not_space by blast

lemma rtrim_append: "x \<noteq> [] \<Longrightarrow> \<not> is_space (last x) \<Longrightarrow> list_all is_space t \<Longrightarrow> rtrim (x @ t) = x"
  by (cases x rule: rev_cases) (simp_all add: rtrim_def list_all_iff dropWhile_append dropWhile_eq_Nil_conv)

lemma ltrim_append: "x \<noteq> [] \<Longrightarrow> \<not> is_space (hd x) \<Longrightarrow> list_all is_space t \<Longrightarrow> ltrim (t @ x) = x"
  by (cases x) (simp_all add: ltrim_def list_all_iff dropWhile_append dropWhile_eq_Nil_conv)

lemma int_to_string_ends:
  "\<not> is_space (hd (int_to_string i))" "\<not> is_space (last (int_to_string i))" "\<not> isalpha (last (int_to_string i))"
proof -
  have l: "is_digit_of 10 (last (int_to_string i))"
    using nat_to_string_digits[OF last_in_set[OF nat_to_string_nonempty]]
    by (simp add: int_to_string_def nat_to_string_nonempty)
  from digit_not_space_sign[OF l] not_alpha_digit[OF l]
  show "\<not> is_space (last (int_to_string i))" "\<not> isalpha (last (int_to_string i))" by simp_all
  have "\<not> is_space (CHR ''-'')" by code_simp
  moreover have "\<not> is_space (hd (nat_to_string (nat i)))"
    using nat_to_string_digits[OF hd_in_set[OF nat_to_string_nonempty]] digit_not_space_sign by blast
  ultimately show "\<not> is_space (hd (int_to_string i))" by (simp add: int_to_string_def)
qed

lemma trim_int_to_string:
  "list_all is_space a \<Longrightarrow> list_all is_space b \<Longrightarrow> trim (a @ int_to_string i @ b) = int_to_string i"
  using rtrim_append[of "a @ int_to_string i" b] ltrim_append[of "int_to_string i" a]
  by (simp add: trim_def int_to_string_nonempty int_to_string_ends)

lemma unit_suffix:
  assumes "list_all isalpha u" and "x = [] \<or> \<not> isalpha (last x)"
  shows "rev (takeWhile isalpha (rev (x @ u))) = u"
proof -
  have "takeWhile isalpha (rev x) = []"
    using assms(2) by (cases x rule: rev_cases) auto
  with assms(1) show ?thesis by (simp add: takeWhile_append list_all_iff)
qed

text \<open>C17: a number followed by a unit of the table is replaced by the exact product, and rejected when the
  product does not fit \<^verbatim>\<open>int\<close>: the conversion never wraps. White space around the number is allowed.\<close>

theorem unit_exact:
  assumes "in_int 32 i" "in_int 32 factor" "cmap_get mapping u = Some factor" "u \<noteq> []" "list_all isalpha u"
    and "list_all is_space a" "list_all is_space b" "list_all is_space c"
  shows "AsNumberWithUnit mapping (a @ int_to_string i @ b @ u @ c) =
    (if in_int 32 (i * factor) then Inr (int_to_string (i * factor))
     else Inl (Validation_error (int_to_string i @ '' multiplied by '' @ u @
            '' factor would cause number overflow. Use smaller value.'')))"
proof -
  let ?x = "a @ int_to_string i @ b"
  have r: "rtrim (?x @ u @ c) = ?x @ u"
    using rtrim_append[of "?x @ u" c] alpha_not_space[of "last u"] assms(4,5,8) by (simp add: list_all_iff)
  have "\<not> isalpha (last ?x)"
    using int_to_string_ends(3)[of i] space_not_alpha[of "last b"] assms(7)
    by (cases "b = []") (auto simp: int_to_string_nonempty list_all_iff last_append)
  then have u: "rev (takeWhile isalpha (rev (?x @ u))) = u" by (intro unit_suffix[OF assms(5)]) simp
  have t: "trim ?x = int_to_string i" by (rule trim_int_to_string[OF assms(6,7)])
  show ?thesis
    using assms(3,4) checked_multiply_exact[OF assms(1,2)]
    by (simp add: AsNumberWithUnit_def r[simplified] u[simplified] t[simplified] Let_def int_to_string_nonempty
        integral_conversion_int_to_string assms(1))
qed

theorem unit_exact_witness:
  "AsNumberWithUnit [(''min'', 60), (''s'', 1)] '' 2 min'' = Inr ''120'' \<and>
   in_int 32 (2 * 60) \<and> cmap_get [(''min'', 60), (''s'', 1::int)] ''min'' = Some 60"
proof -
  have i: "int_to_string 2 = ''2''" "int_to_string 120 = ''120''" by code_simp+
  have h: "in_int 32 2" "in_int 32 60" "in_int 32 120" "list_all is_space '' ''" "list_all isalpha ''min''"
    "cmap_get [(''min'', 60), (''s'', 1::int)] ''min'' = Some 60"
    by (simp_all add: in_int_def is_space_def isalpha_def cmap_get_def)
  show ?thesis
    using unit_exact[of 2 60 "[(''min'', 60), (''s'', 1)]" "''min''" "'' ''" "'' ''" "[]"] h i by simp
qed

end
