(* ===== verification/CliParser.thy ===== *)
theory CliParser
  imports CliText
begin

text \<open>
  The argument parser of CLI11 (\<^verbatim>\<open>Option.hpp\<close>, \<^verbatim>\<open>App.hpp\<close>) as the program uses it: options, flags and positionals,
  nested subcommands with fallthrough, validators and callbacks. The objects of \<^verbatim>\<open>App\<close> form a table; a pointer
  to an \<^verbatim>\<open>App\<close> is its index, and \<^verbatim>\<open>this\<close> with its chain of parents is a path of indices, innermost first.
  The type \<open>'c\<close> stands for the variables that callbacks write.

  Members of the library that the program never sets keep their initial values and are left out: option
  groups, aliases, required options, delimiters, environment names, \<^verbatim>\<open>positionals_at_end\<close>, \<^verbatim>\<open>validate_positionals\<close>,
  \<^verbatim>\<open>prefix_command\<close>, \<^verbatim>\<open>allow_extras\<close>, Windows style options, ignored case and underscores. Reading a
  configuration file is not modelled: a command line that names one ends in \<open>Config_file\<close>.
\<close>

subsection \<open>Options\<close>

datatype policy = Throw | Take_last | Take_all

datatype 'c callback_result = Cb_true 'c | Cb_false | Cb_throws cli_error

type_synonym 'c callback = "string list \<Rightarrow> 'c \<Rightarrow> 'c callback_result"

record 'c cli_option =
  op_snames :: "string list"
  op_lnames :: "string list"
  op_pname :: string
  op_flags :: "(string \<times> string) list"
  op_expected_min :: int
  op_expected_max :: int
  op_allow_extra :: bool
  op_flag_like :: bool
  op_policy :: policy
  op_validators :: "(string \<Rightarrow> cli_error + string) list"
  op_callback :: "'c callback option"
  op_results :: "string list"

definition expected_max_vector_size :: int where "expected_max_vector_size = 2 ^ 29"

definition Option_ctor :: "string \<Rightarrow> 'c callback option \<Rightarrow> cli_error + 'c cli_option" where
  "Option_ctor option_name cb =
     (case get_names (split_names option_name) of
        Inl e \<Rightarrow> Inl e
      | Inr (snames, lnames, pname) \<Rightarrow>
          Inr \<lparr>op_snames = snames, op_lnames = lnames, op_pname = pname, op_flags = [], op_expected_min = 1,
               op_expected_max = 1, op_allow_extra = False, op_flag_like = False, op_policy = Throw,
               op_validators = [], op_callback = cb, op_results = []\<rparr>)"

text \<open>\<^verbatim>\<open>operator==\<close>: two options are equal when they share a short or a long name.\<close>

definition matching_name :: "'c cli_option \<Rightarrow> 'c cli_option \<Rightarrow> bool" where
  "matching_name v other \<longleftrightarrow>
     list_ex (\<lambda>s. s \<in> set (op_snames other)) (op_snames v) \<or> list_ex (\<lambda>l. l \<in> set (op_lnames other)) (op_lnames v)"

definition add_option :: "'c cli_option \<Rightarrow> 'c cli_option list \<Rightarrow> cli_error + 'c cli_option list" where
  "add_option myopt options =
     (if list_ex (\<lambda>v. matching_name v myopt) options then Inl (Option_already_added (op_pname myopt))
      else Inr (options @ [myopt]))"

definition expected :: "int \<Rightarrow> 'c cli_option \<Rightarrow> 'c cli_option" where
  "expected n opt =
     (if n = expected_max_vector_size
      then opt\<lparr>op_expected_min := 1, op_expected_max := expected_max_vector_size, op_allow_extra := True, op_flag_like := False\<rparr>
      else opt\<lparr>op_expected_min := n, op_expected_max := n, op_flag_like := (n = 0)\<rparr>)"

text \<open>\<^verbatim>\<open>add_option\<close> for a variable: a container expects any number of arguments, another variable one.\<close>

definition make_option :: "string \<Rightarrow> bool \<Rightarrow> unit_map option \<Rightarrow> 'c callback \<Rightarrow> cli_error + 'c cli_option" where
  "make_option option_name container units cb =
     (case Option_ctor option_name (Some cb) of
        Inl e \<Rightarrow> Inl e
      | Inr opt \<Rightarrow>
          let opt = expected (if container then expected_max_vector_size else 1) opt in
          (case units of
             None \<Rightarrow> Inr opt
           | Some mapping \<Rightarrow>
               if validate_mapping mapping then Inr (opt\<lparr>op_validators := AsNumberWithUnit mapping # op_validators opt\<rparr>)
               else Inl (Validation_error ''Unit'')))"

definition make_flag :: "string \<Rightarrow> 'c callback option \<Rightarrow> policy \<Rightarrow> cli_error + 'c cli_option" where
  "make_flag flag_name cb pol =
     (let has = has_default_flag_values flag_name;
          flag_defaults = (if has then get_default_flag_values flag_name else []);
          name = (if has then remove_default_flag_values flag_name else flag_name)
      in case Option_ctor name cb of
           Inl e \<Rightarrow> Inl e
         | Inr opt \<Rightarrow>
             if op_pname opt \<noteq> [] then Inl Incorrect_construction
             else Inr (expected 0 (opt\<lparr>op_flags := flag_defaults, op_policy := pol\<rparr>)))"

subsection \<open>Results of an option\<close>

text \<open>\<^verbatim>\<open>_add_result\<close>: the results that one argument adds.\<close>

lemma split_items_length: "x \<in> set (split_items d s) \<Longrightarrow> length x \<le> length s"
proof (induction d s rule: split_items.induct)
  case (1 d s)
  then show ?case
    by (auto simp: split_items.simps[of d s] split: if_splits option.splits)
qed

function add_result :: "bool \<Rightarrow> string \<Rightarrow> string list" where
  "add_result allow result =
     (if allow \<and> result \<noteq> [] \<and> hd result = CHR ''['' \<and> last result = CHR '']''
      then concat (map (add_result allow) (filter (\<lambda>var. var \<noteq> []) (split_by (tl (butlast result)) (CHR '',''))))
      else [result])"
  by pat_completeness auto

termination
proof (relation "measure (\<lambda>(allow, result). length result)", goal_cases)
  case (2 allow result var)
  then have "length var \<le> length result - 2"
    using split_items_length[of var "CHR '',''" "tl (butlast result)"] by (auto simp: split_by_def split: if_splits)
  with 2 show ?case by (cases result) auto
qed simp

declare add_result.simps [simp del]

definition get_flag_value :: "'c cli_option \<Rightarrow> string \<Rightarrow> string \<Rightarrow> cpp_exn + string" where
  "get_flag_value opt name input_value =
     (case map_of (op_flags opt) name of
        None \<Rightarrow>
          if input_value = [] \<or> input_value = ''{}'' then Inr (if op_flag_like opt then ''true'' else '''')
          else Inr input_value
      | Some default_value \<Rightarrow>
          if input_value = [] \<or> input_value = ''{}'' then Inr default_value
          else if default_value = ''false'' then
            (case to_flag_value input_value of
               Inr val \<Rightarrow> Inr (if val = 1 then ''false'' else if val = -1 then ''true'' else int_to_string (wrap_int 64 (- val)))
             | Inl (Invalid_argument _) \<Rightarrow> Inr input_value
             | Inl e \<Rightarrow> Inl e)
          else Inr input_value)"

text \<open>\<^verbatim>\<open>_validate\<close> runs the validators on one result, \<^verbatim>\<open>_validate_results\<close> on all.\<close>

primrec run_validators :: "(string \<Rightarrow> cli_error + string) list \<Rightarrow> string \<Rightarrow> cli_error + string" where
  "run_validators [] result = Inr result"
| "run_validators (vali # vs) result = (case vali result of Inl e \<Rightarrow> Inl e | Inr result \<Rightarrow> run_validators vs result)"

definition validate_result :: "'c cli_option \<Rightarrow> string \<Rightarrow> cli_error + string" where
  "validate_result opt result =
     (if result = [] \<and> op_expected_min opt = 0 then Inr result else run_validators (op_validators opt) result)"

primrec validate_results :: "'c cli_option \<Rightarrow> string list \<Rightarrow> cli_error + string list" where
  "validate_results opt [] = Inr []"
| "validate_results opt (result # rs) =
     (case validate_result opt result of
        Inl e \<Rightarrow> Inl e
      | Inr result \<Rightarrow> (case validate_results opt rs of Inl e \<Rightarrow> Inl e | Inr rs \<Rightarrow> Inr (result # rs)))"

definition reduce_results :: "'c cli_option \<Rightarrow> string list \<Rightarrow> cli_error + string list" where
  "reduce_results opt original =
     (case op_policy opt of
        Take_all \<Rightarrow> Inr original
      | Take_last \<Rightarrow>
          let trim_size = min (nat (max (op_expected_max opt) 1)) (length original)
          in Inr (drop (length original - trim_size) original)
      | Throw \<Rightarrow>
          let num_min = max (op_expected_min opt) 1; num_max = max (op_expected_max opt) 1
          in if int (length original) < num_min then Inl (Argument_mismatch ''at least'')
             else if num_max < int (length original) then Inl (Argument_mismatch ''at most'')
             else Inr original)"

definition run_callback :: "'c cli_option \<Rightarrow> 'c \<Rightarrow> cli_error + 'c" where
  "run_callback opt c =
     (case validate_results opt (op_results opt) of
        Inl e \<Rightarrow> Inl e
      | Inr results \<Rightarrow>
          (case reduce_results opt results of
             Inl e \<Rightarrow> Inl e
           | Inr proc_results \<Rightarrow>
               (case op_callback opt of
                  None \<Rightarrow> Inr c
                | Some callback \<Rightarrow>
                    (case callback proc_results c of
                       Cb_true c \<Rightarrow> Inr c
                     | Cb_false \<Rightarrow> Inl (Conversion_error (op_pname opt))
                     | Cb_throws e \<Rightarrow> Inl e))))"

subsection \<open>Apps\<close>

datatype classifier = NONE | POSITIONAL_MARK | SHORT | LONG | SUBCOMMAND | SUBCOMMAND_TERMINATOR

record 'c app_node =
  ap_name :: string
  ap_options :: "'c cli_option list"
  ap_help :: "nat option"
  ap_help_all :: "nat option"
  ap_config :: "nat option"
  ap_fallthrough :: bool
  ap_require_min :: nat
  ap_require_max :: nat
  ap_subs :: "nat list"
  ap_parsed :: nat
  ap_parsed_subs :: "nat list"
  ap_missing :: "(classifier \<times> string) list"

type_synonym 'c apps = "'c app_node list"
type_synonym path = "nat list"

definition upd_app :: "nat \<Rightarrow> ('c app_node \<Rightarrow> 'c app_node) \<Rightarrow> 'c apps \<Rightarrow> 'c apps" where
  "upd_app i f apps = apps[i := f (apps ! i)]"

definition upd_option :: "nat \<Rightarrow> nat \<Rightarrow> ('c cli_option \<Rightarrow> 'c cli_option) \<Rightarrow> 'c apps \<Rightarrow> 'c apps" where
  "upd_option i k f apps = upd_app i (\<lambda>a. a\<lparr>ap_options := (ap_options a)[k := f (ap_options a ! k)]\<rparr>) apps"

definition push_results :: "nat \<Rightarrow> nat \<Rightarrow> string list \<Rightarrow> 'c apps \<Rightarrow> 'c apps" where
  "push_results i k rs apps = upd_option i k (\<lambda>opt. opt\<lparr>op_results := op_results opt @ rs\<rparr>) apps"

definition move_to_missing :: "nat \<Rightarrow> classifier \<Rightarrow> string \<Rightarrow> 'c apps \<Rightarrow> 'c apps" where
  "move_to_missing i val_type val apps = upd_app i (\<lambda>a. a\<lparr>ap_missing := ap_missing a @ [(val_type, val)]\<rparr>) apps"

definition increment_parsed :: "nat \<Rightarrow> 'c apps \<Rightarrow> 'c apps" where
  "increment_parsed i apps = upd_app i (\<lambda>a. a\<lparr>ap_parsed := ap_parsed a + 1\<rparr>) apps"

definition find_index :: "('a \<Rightarrow> bool) \<Rightarrow> 'a list \<Rightarrow> nat option" where
  "find_index P xs = List.find (\<lambda>k. P (xs ! k)) [0..<length xs]"

definition find_subcommand :: "'c apps \<Rightarrow> nat \<Rightarrow> string \<Rightarrow> bool \<Rightarrow> nat option" where
  "find_subcommand apps i subc_name ignore_used =
     List.find (\<lambda>j. ap_name (apps ! j) = subc_name \<and> (ap_parsed (apps ! j) = 0 \<or> \<not> ignore_used)) (ap_subs (apps ! i))"

definition subcommands_full :: "'c app_node \<Rightarrow> bool" where
  "subcommands_full a \<longleftrightarrow> ap_require_max a \<noteq> 0 \<and> ap_require_max a \<le> length (ap_parsed_subs a)"

primrec valid_subcommand :: "'c apps \<Rightarrow> path \<Rightarrow> string \<Rightarrow> bool \<Rightarrow> bool" where
  "valid_subcommand apps [] current ignore_used = False"
| "valid_subcommand apps (i # up) current ignore_used =
     (if subcommands_full (apps ! i) then valid_subcommand apps up current ignore_used
      else if find_subcommand apps i current ignore_used \<noteq> None then True
      else valid_subcommand apps up current ignore_used)"

definition recognize :: "'c apps \<Rightarrow> path \<Rightarrow> string \<Rightarrow> bool \<Rightarrow> classifier" where
  "recognize apps path current ignore_used =
     (if current = ''--'' then POSITIONAL_MARK
      else if valid_subcommand apps path current ignore_used then SUBCOMMAND
      else if split_long current \<noteq> None then LONG
      else case split_short current of
        Some (name, rest) \<Rightarrow>
          if (let n = of_char (name ! 0) :: nat in 48 \<le> n \<and> n \<le> 57) \<and>
             \<not> list_ex (\<lambda>opt. name \<in> set (op_snames opt)) (ap_options (apps ! hd path))
          then NONE else SHORT
      | None \<Rightarrow> if current = ''++'' \<and> ap_name (apps ! hd path) \<noteq> [] \<and> tl path \<noteq> [] then SUBCOMMAND_TERMINATOR else NONE)"

subsection \<open>One argument\<close>

text \<open>The two loops of \<^verbatim>\<open>_parse_arg\<close>: the new results, the number collected and the remaining arguments.\<close>

primrec gather_min :: "bool \<Rightarrow> int \<Rightarrow> int \<Rightarrow> string list \<Rightarrow> string list \<times> int \<times> string list" where
  "gather_min allow min_num collected [] = ([], collected, [])"
| "gather_min allow min_num collected (a # args) =
     (if collected < min_num then
        let rs = add_result allow a;
            (more, collected, args) = gather_min allow min_num (collected + int (length rs)) args
        in (rs @ more, collected, args)
      else ([], collected, a # args))"

primrec gather_more :: "(string \<Rightarrow> bool) \<Rightarrow> bool \<Rightarrow> int \<Rightarrow> int \<Rightarrow> string list \<Rightarrow> string list \<times> int \<times> string list" where
  "gather_more is_value allow max_num collected [] = ([], collected, [])"
| "gather_more is_value allow max_num collected (a # args) =
     (if (collected < max_num \<or> allow) \<and> is_value a then
        let rs = add_result allow a;
            (more, collected, args) = gather_more is_value allow max_num (collected + int (length rs)) args
        in (rs @ more, collected, args)
      else ([], collected, a # args))"

definition option_min :: "'c cli_option \<Rightarrow> int" where
  "option_min opt = min 1 (op_expected_min opt)"

definition option_max :: "'c cli_option \<Rightarrow> int" where
  "option_max opt =
     (if expected_max_vector_size div 16 \<le> op_expected_max opt \<and> \<not> op_allow_extra opt
      then op_expected_min opt else op_expected_max opt)"

text \<open>The results of the argument itself (the value of a flag, \<^verbatim>\<open>--this=value\<close> or \<^verbatim>\<open>-Trest\<close>), how many of them count
  as collected, and what remains of \<^verbatim>\<open>rest\<close>.\<close>

definition first_results :: "'c cli_option \<Rightarrow> string \<Rightarrow> string \<Rightarrow> string \<Rightarrow> cpp_exn + (string list \<times> int \<times> string)" where
  "first_results opt arg_name value rest =
     (let add = add_result (op_allow_extra opt) in
      if option_max opt = 0 then
        (case get_flag_value opt arg_name value of Inl e \<Rightarrow> Inl e | Inr res \<Rightarrow> Inr (add res, 0, rest))
      else if value \<noteq> [] then Inr (add value, int (length (add value)), rest)
      else if rest \<noteq> [] then Inr (add rest, int (length (add rest)), '''')
      else Inr ([], 0, rest))"

text \<open>The optional arguments after the minimum, and a \<^verbatim>\<open>--\<close> that ends them.\<close>

definition optional_args ::
  "'c apps \<Rightarrow> path \<Rightarrow> 'c cli_option \<Rightarrow> int \<Rightarrow> string list \<Rightarrow> string list \<times> int \<times> string list" where
  "optional_args apps path opt collected args =
     (if collected < option_max opt \<or> op_allow_extra opt then
        let (rs, collected, args) =
              gather_more (\<lambda>a. recognize apps path a False = NONE) (op_allow_extra opt) (option_max opt) collected args
        in (rs, collected, if args \<noteq> [] \<and> recognize apps path (hd args) True = POSITIONAL_MARK then tl args else args)
      else ([], collected, args))"

text \<open>An optional flag that received nothing gets its default value.\<close>

definition default_results :: "'c cli_option \<Rightarrow> string \<Rightarrow> int \<Rightarrow> cpp_exn + string list" where
  "default_results opt arg_name collected =
     (if option_min opt = 0 \<and> 0 < option_max opt \<and> collected = 0 then
        (case get_flag_value opt arg_name '''' of Inl e \<Rightarrow> Inl e | Inr res \<Rightarrow> Inr (add_result (op_allow_extra opt) res))
      else Inr [])"

text \<open>The rest of \<^verbatim>\<open>_parse_arg\<close> once the option \<open>k\<close> of the app at the head of the path is found; \<open>args\<close> are the
  arguments after the current one.\<close>

definition parse_found ::
  "'c apps \<Rightarrow> path \<Rightarrow> nat \<Rightarrow> string \<Rightarrow> string \<Rightarrow> string \<Rightarrow> string list \<Rightarrow> cli_error + ('c apps \<times> string list)" where
  "parse_found apps path k arg_name value rest args =
     (let opt = ap_options (apps ! hd path) ! k in
      case first_results opt arg_name value rest of
        Inl e \<Rightarrow> Inl (Std_exception e)
      | Inr (r0, collected, rest) \<Rightarrow>
          (case gather_min (op_allow_extra opt) (option_min opt) collected args of
             (r1, collected, args) \<Rightarrow>
               if collected < option_min opt then Inl (Argument_mismatch ''at least'')
               else
                 (case optional_args apps path opt collected args of
                    (r2, collected, args) \<Rightarrow>
                      (case default_results opt arg_name collected of
                         Inl e \<Rightarrow> Inl (Std_exception e)
                       | Inr r3 \<Rightarrow>
                           Inr (push_results (hd path) k (r0 @ r1 @ r2 @ r3) apps,
                                if rest \<noteq> [] then (CHR ''-'' # rest) # args else args)))))"

text \<open>The split of the argument: name, value after \<^verbatim>\<open>=\<close>, and the letters after a short option.\<close>

definition split_arg :: "classifier \<Rightarrow> string \<Rightarrow> (string \<times> string \<times> string) option" where
  "split_arg current_type current =
     (case current_type of
        LONG \<Rightarrow> map_option (\<lambda>(name, value). (name, value, '''')) (split_long current)
      | SHORT \<Rightarrow> map_option (\<lambda>(name, rest). (name, '''', rest)) (split_short current)
      | _ \<Rightarrow> None)"

definition has_name :: "classifier \<Rightarrow> string \<Rightarrow> 'c cli_option \<Rightarrow> bool" where
  "has_name current_type arg_name opt \<longleftrightarrow>
     arg_name \<in> set (if current_type = LONG then op_lnames opt else op_snames opt)"

primrec parse_arg ::
  "'c apps \<Rightarrow> path \<Rightarrow> classifier \<Rightarrow> string \<Rightarrow> string list \<Rightarrow> cli_error + ('c apps \<times> string list)" where
  "parse_arg apps [] current_type current args = Inl Horrible_error"
| "parse_arg apps (i # up) current_type current args =
     (case split_arg current_type current of
        None \<Rightarrow> Inl Horrible_error
      | Some (arg_name, value, rest) \<Rightarrow>
          (case find_index (has_name current_type arg_name) (ap_options (apps ! i)) of
             Some k \<Rightarrow> parse_found apps (i # up) k arg_name value rest args
           | None \<Rightarrow>
               if up \<noteq> [] \<and> ap_fallthrough (apps ! i) then parse_arg apps up current_type current args
               else Inr (move_to_missing i current_type current apps, args)))"

text \<open>The result of handling one argument: the apps, the remaining arguments, whether the loop of this app
  goes on, and the app (with its path) whose \<^verbatim>\<open>_parse\<close> runs next, if any.\<close>

type_synonym 'c step_result = "'c apps \<times> string list \<times> bool \<times> path option"

definition accepts_positional :: "'c cli_option \<Rightarrow> bool" where
  "accepts_positional opt \<longleftrightarrow>
     op_pname opt \<noteq> [] \<and> (int (length (op_results opt)) < op_expected_min opt \<or> op_allow_extra opt)"

primrec parse_positional :: "'c apps \<Rightarrow> path \<Rightarrow> string \<Rightarrow> string list \<Rightarrow> 'c step_result" where
  "parse_positional apps [] positional args = (apps, positional # args, False, None)"
| "parse_positional apps (i # up) positional args =
     (case find_index accepts_positional (ap_options (apps ! i)) of
        Some k \<Rightarrow> (push_results i k (add_result (op_allow_extra (ap_options (apps ! i) ! k)) positional) apps, args, True, None)
      | None \<Rightarrow>
          if up \<noteq> [] \<and> ap_fallthrough (apps ! i) then parse_positional apps up positional args
          else
            case (if subcommands_full (apps ! i) then None else find_subcommand apps i positional False) of
              Some j \<Rightarrow> (increment_parsed j apps, args, True, Some (j # i # up))
            | None \<Rightarrow>
                let parent_app = (if up \<noteq> [] then hd up else i) in
                if find_subcommand apps parent_app positional False \<noteq> None \<and> \<not> subcommands_full (apps ! parent_app)
                then (apps, positional # args, False, None)
                else (move_to_missing i NONE positional apps, args, True, None))"

definition has_remaining_positionals :: "'c app_node \<Rightarrow> bool" where
  "has_remaining_positionals a \<longleftrightarrow>
     list_ex (\<lambda>opt. op_pname opt \<noteq> [] \<and> int (length (op_results opt)) < op_expected_min opt) (ap_options a)"

definition parse_subcommand :: "'c apps \<Rightarrow> path \<Rightarrow> string \<Rightarrow> string list \<Rightarrow> cli_error + 'c step_result" where
  "parse_subcommand apps path current args =
     (let i = hd path in
      case find_subcommand apps i current True of
        Some j \<Rightarrow>
          Inr (increment_parsed j (upd_app i (\<lambda>a. a\<lparr>ap_parsed_subs := ap_parsed_subs a @ [j]\<rparr>) apps), args, True, Some (j # path))
      | None \<Rightarrow> if tl path = [] then Inl Horrible_error else Inr (apps, current # args, False, None))"

text \<open>\<^verbatim>\<open>_parse_single\<close>; the second component of the result is the new value of \<^verbatim>\<open>positional_only\<close>.\<close>

definition parse_single ::
  "'c apps \<Rightarrow> path \<Rightarrow> bool \<Rightarrow> string \<Rightarrow> string list \<Rightarrow> cli_error + ('c step_result \<times> bool)" where
  "parse_single apps path positional_only current args =
     (let i = hd path; classifier = (if positional_only then NONE else recognize apps path current True) in
      case classifier of
        POSITIONAL_MARK \<Rightarrow>
          if \<not> has_remaining_positionals (apps ! i) \<and> tl path \<noteq> [] then Inr ((apps, args, False, None), True)
          else Inr ((move_to_missing i classifier ''--'' apps, args, True, None), True)
      | SUBCOMMAND_TERMINATOR \<Rightarrow> Inr ((apps, args, False, None), positional_only)
      | SUBCOMMAND \<Rightarrow> map_sum id (\<lambda>r. (r, positional_only)) (parse_subcommand apps path current args)
      | NONE \<Rightarrow> Inr (parse_positional apps path current args, positional_only)
      | _ \<Rightarrow> map_sum id (\<lambda>(apps, args). ((apps, args, True, None), positional_only))
               (parse_arg apps path classifier current args))"

text \<open>The running \<^verbatim>\<open>_parse\<close> calls, innermost first, each with its \<^verbatim>\<open>this\<close> and its \<^verbatim>\<open>positional_only\<close>. The loop of the
  outermost app ignores the result of \<^verbatim>\<open>_parse_single\<close>. \<^term>\<open>None\<close> means that the fuel is used up.\<close>

type_synonym frames = "(path \<times> bool) list"

primrec parse_loop :: "nat \<Rightarrow> 'c apps \<Rightarrow> frames \<Rightarrow> string list \<Rightarrow> (cli_error + 'c apps) option" where
  "parse_loop 0 apps frames args = None"
| "parse_loop (Suc n) apps frames args =
     (case frames of
        [] \<Rightarrow> Some (Inr apps)
      | (path, positional_only) # frames' \<Rightarrow>
          (case args of
             [] \<Rightarrow> parse_loop n apps frames' []
           | current # rest \<Rightarrow>
               (case parse_single apps path positional_only current rest of
                  Inl e \<Rightarrow> Some (Inl e)
                | Inr ((apps, args, go_on, next), positional_only) \<Rightarrow>
                    let frames = (if go_on \<or> frames' = [] then (path, positional_only) # frames' else frames')
                    in parse_loop n apps (case next of None \<Rightarrow> frames | Some p \<Rightarrow> (p, False) # frames) args)))"

subsection \<open>After the arguments\<close>

text \<open>The apps in the order of the recursion over \<^verbatim>\<open>subcommands_\<close>, all of them or only the parsed ones.\<close>

primrec preorder :: "nat \<Rightarrow> ('c app_node \<Rightarrow> bool) \<Rightarrow> 'c apps \<Rightarrow> nat \<Rightarrow> nat list" where
  "preorder 0 P apps i = []"
| "preorder (Suc n) P apps i = i # concat (map (preorder n P apps) (filter (\<lambda>j. P (apps ! j)) (ap_subs (apps ! i))))"

primrec run_callbacks :: "'c cli_option list \<Rightarrow> 'c \<Rightarrow> 'c \<times> cli_error option" where
  "run_callbacks [] c = (c, None)"
| "run_callbacks (opt # opts) c =
     (if op_results opt = [] then run_callbacks opts c
      else case run_callback opt c of Inl e \<Rightarrow> (c, Some e) | Inr c \<Rightarrow> run_callbacks opts c)"

definition process_callbacks :: "'c apps \<Rightarrow> 'c \<Rightarrow> 'c \<times> cli_error option" where
  "process_callbacks apps c =
     run_callbacks (concat (map (\<lambda>i. ap_options (apps ! i)) (preorder (length apps) (\<lambda>_. True) apps 0))) c"

definition flag_given :: "'c app_node \<Rightarrow> nat option \<Rightarrow> bool" where
  "flag_given a ptr = (case ptr of None \<Rightarrow> False | Some k \<Rightarrow> op_results (ap_options a ! k) \<noteq> [])"

primrec first_error :: "cli_error option list \<Rightarrow> cli_error option" where
  "first_error [] = None"
| "first_error (e # es) = (case e of None \<Rightarrow> first_error es | Some x \<Rightarrow> Some x)"

primrec process_help_flags :: "nat \<Rightarrow> 'c apps \<Rightarrow> nat \<Rightarrow> bool \<Rightarrow> bool \<Rightarrow> cli_error option" where
  "process_help_flags 0 apps i trigger_help trigger_all_help = None"
| "process_help_flags (Suc n) apps i trigger_help trigger_all_help =
     (let a = apps ! i;
          trigger_help = (trigger_help \<or> flag_given a (ap_help a));
          trigger_all_help = (trigger_all_help \<or> flag_given a (ap_help_all a))
      in if ap_parsed_subs a \<noteq> [] then
           first_error (map (\<lambda>j. process_help_flags n apps j trigger_help trigger_all_help) (ap_parsed_subs a))
         else if trigger_all_help then Some Call_for_all_help
         else if trigger_help then Some Call_for_help
         else None)"

definition process_requirements :: "'c apps \<Rightarrow> cli_error option" where
  "process_requirements apps =
     first_error (map (\<lambda>i. if length (ap_parsed_subs (apps ! i)) < ap_require_min (apps ! i) then Some Required_error else None)
       (preorder (length apps) (\<lambda>a. 0 < ap_parsed a) apps 0))"

definition process_extras :: "'c apps \<Rightarrow> cli_error option" where
  "process_extras apps =
     first_error (map (\<lambda>i. if list_ex (\<lambda>m. fst m \<noteq> POSITIONAL_MARK) (ap_missing (apps ! i))
                          then Some (Extras_error (map snd (ap_missing (apps ! i)))) else None)
       (preorder (length apps) (\<lambda>a. 0 < ap_parsed a) apps 0))"

text \<open>The files that \<^verbatim>\<open>--config\<close> names: more than one are an error, an empty name is ignored.\<close>

definition config_files :: "'c apps \<Rightarrow> string list" where
  "config_files apps = (case ap_config (apps ! 0) of None \<Rightarrow> [] | Some k \<Rightarrow> op_results (ap_options (apps ! 0) ! k))"

definition process_apps :: "'c apps \<Rightarrow> 'c \<Rightarrow> 'c \<times> cli_error option" where
  "process_apps apps c =
     (if 1 < length (config_files apps) then (c, Some (Argument_mismatch ''at most''))
      else if config_files apps \<noteq> [] \<and> config_files apps \<noteq> [''''] then (c, Some (Config_file (config_files apps)))
      else
        case process_callbacks apps c of
          (c, Some e) \<Rightarrow> (c, Some e)
        | (c, None) \<Rightarrow>
            (c, first_error [process_help_flags (length apps) apps 0 False False, process_requirements apps, process_extras apps]))"

definition arg_size :: "string list \<Rightarrow> nat" where
  "arg_size args = sum_list (map (\<lambda>s. Suc (length s)) args)"

text \<open>\<^verbatim>\<open>App::parse\<close> on the arguments of \<^verbatim>\<open>main\<close>: the variables written, and the error or the apps.\<close>

definition cli_parse :: "'c apps \<Rightarrow> 'c \<Rightarrow> string list \<Rightarrow> 'c \<times> (cli_error + 'c apps)" where
  "cli_parse apps c args =
     (case parse_loop (2 * arg_size args + 2) (increment_parsed 0 apps) [([0], False)] args of
        None \<Rightarrow> (c, Inl Horrible_error)
      | Some (Inl e) \<Rightarrow> (c, Inl e)
      | Some (Inr apps) \<Rightarrow>
          (case process_apps apps c of (c, Some e) \<Rightarrow> (c, Inl e) | (c, None) \<Rightarrow> (c, Inr apps)))"

subsection \<open>The parser ends\<close>

lemma arg_size_simps [simp]:
  "arg_size [] = 0" "arg_size (a # args) = Suc (length a) + arg_size args"
  by (simp_all add: arg_size_def)

lemma gather_min_size: "gather_min allow m n args = (rs, n', args') \<Longrightarrow> arg_size args' \<le> arg_size args"
  by (induction args arbitrary: n rs) (auto simp: Let_def split: if_splits prod.splits intro: le_SucI trans_le_add2)

lemma gather_more_size: "gather_more v allow m n args = (rs, n', args') \<Longrightarrow> arg_size args' \<le> arg_size args"
  by (induction args arbitrary: n rs) (auto simp: Let_def split: if_splits prod.splits intro: le_SucI trans_le_add2)

lemma arg_size_tl: "arg_size (tl args) \<le> arg_size args"
  by (cases args) simp_all

lemma optional_args_size: "optional_args apps path opt n args = (rs, n', args') \<Longrightarrow> arg_size args' \<le> arg_size args"
  by (auto simp: optional_args_def split: if_splits prod.splits dest!: gather_more_size intro: le_trans[OF arg_size_tl])

lemma first_results_rest: "first_results opt name value rest = Inr (rs, n, rest') \<Longrightarrow> rest' = rest \<or> rest' = []"
  by (auto simp: first_results_def Let_def split: if_splits sum.splits)

lemma parse_found_size:
  assumes "parse_found apps path k name value rest args = Inr (apps', args')"
  shows "arg_size args' \<le> arg_size args + (if rest = [] then 0 else 2 + length rest)"
  using assms
  by (auto simp: parse_found_def Let_def split: sum.splits prod.splits if_splits
      dest!: gather_min_size optional_args_size first_results_rest)

lemma split_arg_rest:
  "split_arg t current = Some (name, value, rest) \<Longrightarrow> rest \<noteq> [] \<Longrightarrow> length current = 2 + length rest"
  by (auto simp: split_arg_def split_short_def split: classifier.splits if_splits)

lemma parse_arg_size:
  "parse_arg apps path t current args = Inr (apps', args') \<Longrightarrow> arg_size args' < arg_size (current # args)"
proof (induction path)
  case (Cons i up)
  from Cons.prems obtain name val rest where s: "split_arg t current = Some (name, val, rest)"
    by (auto split: option.splits)
  show ?case
  proof (cases "find_index (has_name t name) (ap_options (apps ! i))")
    case None
    with Cons s show ?thesis by (auto split: if_splits)
  next
    case (Some k)
    with Cons.prems s have "parse_found apps (i # up) k name val rest args = Inr (apps', args')" by simp
    from parse_found_size[OF this] split_arg_rest[OF s] show ?thesis by (auto split: if_splits)
  qed
qed simp

lemma parse_positional_size:
  assumes "parse_positional apps path positional args = (apps', args', go_on, next)" and "path \<noteq> []"
  shows "args' = args \<or> args' = positional # args \<and> \<not> go_on \<and> next = None \<and> tl path \<noteq> []"
  using assms
proof (induction path)
  case (Cons i up)
  show ?case
  proof (cases "up \<noteq> [] \<and> ap_fallthrough (apps ! i) \<and> find_index accepts_positional (ap_options (apps ! i)) = None")
    case True
    with Cons show ?thesis by auto
  next
    case False
    with Cons.prems show ?thesis by (auto simp: Let_def split: option.splits if_splits)
  qed
qed simp

lemma parse_subcommand_size:
  "parse_subcommand apps path current args = Inr (apps', args', go_on, next) \<Longrightarrow>
   args' = args \<or> args' = current # args \<and> \<not> go_on \<and> next = None \<and> tl path \<noteq> []"
  by (auto simp: parse_subcommand_def Let_def split: option.splits if_splits)

lemma parse_single_size:
  assumes "parse_single apps path po current args = Inr ((apps', args', go_on, next), po')" and "path \<noteq> []"
  shows "arg_size args' < arg_size (current # args) \<or> args' = current # args \<and> \<not> go_on \<and> next = None \<and> tl path \<noteq> []"
proof (cases "if po then NONE else recognize apps path current True")
  case NONE
  with assms(1) have "parse_positional apps path current args = (apps', args', go_on, next)"
    by (simp add: parse_single_def)
  from parse_positional_size[OF this assms(2)] show ?thesis by auto
next
  case SUBCOMMAND
  with assms(1) have "parse_subcommand apps path current args = Inr (apps', args', go_on, next)"
    by (simp add: parse_single_def Let_def) (cases "parse_subcommand apps path current args"; auto)
  from parse_subcommand_size[OF this] show ?thesis by auto
next
  case LONG
  with assms(1) have "parse_arg apps path LONG current args = Inr (apps', args')"
    by (simp add: parse_single_def Let_def) (cases "parse_arg apps path LONG current args"; auto)
  from parse_arg_size[OF this] show ?thesis by simp
next
  case SHORT
  with assms(1) have "parse_arg apps path SHORT current args = Inr (apps', args')"
    by (simp add: parse_single_def Let_def) (cases "parse_arg apps path SHORT current args"; auto)
  from parse_arg_size[OF this] show ?thesis by simp
qed (use assms(1) in \<open>auto simp: parse_single_def Let_def split: if_splits\<close>)

text \<open>The bottom frame is the outermost app.\<close>

definition frames_ok :: "frames \<Rightarrow> bool" where
  "frames_ok frames \<longleftrightarrow> list_all (\<lambda>f. fst f \<noteq> []) frames \<and> (frames \<noteq> [] \<longrightarrow> fst (last frames) = [0])"

lemma parse_single_next:
  "parse_single apps path po current args = Inr ((apps', args', go_on, Some p), po') \<Longrightarrow> p \<noteq> []"
proof -
  have "parse_positional apps path current args = (a, b, c, Some p) \<Longrightarrow> p \<noteq> []" for a b c
    by (induction path) (auto simp: Let_def split: option.splits if_splits)
  then show "parse_single apps path po current args = Inr ((apps', args', go_on, Some p), po') \<Longrightarrow> p \<noteq> []"
    by (auto simp: parse_single_def parse_subcommand_def Let_def map_sum_def split: classifier.splits if_splits sum.splits option.splits prod.splits)
qed

lemma parse_loop_ends:
  "2 * arg_size args + length frames < n \<Longrightarrow> frames_ok frames \<Longrightarrow> parse_loop n apps frames args \<noteq> None"
proof (induction n arbitrary: apps frames args)
  case (Suc n)
  show ?case
  proof (cases "frames = [] \<or> args = []")
    case True
    then show ?thesis
      using Suc.prems Suc.IH[of "[]" "tl frames" apps] by (cases frames) (auto simp: frames_ok_def split: if_splits)
  next
    case False
    then obtain path po fs current rest where fr: "frames = (path, po) # fs" "args = current # rest"
      by (cases frames; cases args) auto
    show ?thesis
    proof (cases "parse_single apps path po current rest")
      case (Inr r)
      obtain apps' args' go_on nxt po' where r: "r = ((apps', args', go_on, nxt), po')" by (metis prod.exhaust)
      let ?fs = "if go_on \<or> fs = [] then (path, po') # fs else fs"
      let ?gs = "case nxt of None \<Rightarrow> ?fs | Some p \<Rightarrow> (p, False) # ?fs"
      have p: "path \<noteq> []" "fs = [] \<Longrightarrow> path = [0]" using Suc.prems(2) fr by (auto simp: frames_ok_def)
      have "2 * arg_size args' + length ?gs < n"
        using parse_single_size[of apps path po current rest apps' args' go_on nxt po'] Inr r p Suc.prems(1) fr
        by (auto split: option.splits)
      moreover have "frames_ok ?gs"
        using Suc.prems(2) fr p parse_single_next[of apps path po current rest apps' args' go_on _ po'] Inr r
        by (auto simp: frames_ok_def split: option.splits)
      ultimately show ?thesis
        using Suc.IH[of args' ?gs apps'] Inr r by (simp add: fr Let_def)
    qed (simp add: fr)
  qed
qed simp

text \<open>C16: the command-line parser ends on every list of arguments: the loop never needs more turns than twice the
  size of the arguments.\<close>

theorem cli_parse_ends: "parse_loop (2 * arg_size args + 2) (increment_parsed 0 apps) [([0], False)] args \<noteq> None"
  by (rule parse_loop_ends) (simp_all add: frames_ok_def)

subsection \<open>Results seen from outside\<close>

text \<open>The apps in which the options of app \<open>i\<close> have collected the results \<open>res\<close>: all that the arguments of one
  subcommand change. What an argument means does not depend on the results.\<close>

definition with_results :: "nat \<Rightarrow> (nat \<Rightarrow> string list) \<Rightarrow> 'c apps \<Rightarrow> 'c apps" where
  "with_results i res apps =
     upd_app i (\<lambda>a. a\<lparr>ap_options := map (\<lambda>k. (ap_options a ! k)\<lparr>op_results := res k\<rparr>) [0..<length (ap_options a)]\<rparr>) apps"

lemma with_results_node:
  assumes "i < length apps"
  shows "with_results i res apps ! j =
    (if j = i then (apps ! i)\<lparr>ap_options := map (\<lambda>k. (ap_options (apps ! i) ! k)\<lparr>op_results := res k\<rparr>)
                                [0..<length (ap_options (apps ! i))]\<rparr>
     else apps ! j)"
  using assms by (simp add: with_results_def upd_app_def)

lemma with_results_fields:
  assumes "i < length apps"
  shows "length (with_results i res apps) = length apps"
    "ap_name (with_results i res apps ! j) = ap_name (apps ! j)" "ap_subs (with_results i res apps ! j) = ap_subs (apps ! j)"
    "ap_parsed (with_results i res apps ! j) = ap_parsed (apps ! j)"
    "ap_parsed_subs (with_results i res apps ! j) = ap_parsed_subs (apps ! j)"
    "ap_require_max (with_results i res apps ! j) = ap_require_max (apps ! j)"
    "ap_require_min (with_results i res apps ! j) = ap_require_min (apps ! j)"
    "ap_fallthrough (with_results i res apps ! j) = ap_fallthrough (apps ! j)"
    "ap_missing (with_results i res apps ! j) = ap_missing (apps ! j)"
    "ap_help (with_results i res apps ! j) = ap_help (apps ! j)" "ap_help_all (with_results i res apps ! j) = ap_help_all (apps ! j)"
    "ap_config (with_results i res apps ! j) = ap_config (apps ! j)"
    "length (ap_options (with_results i res apps ! j)) = length (ap_options (apps ! j))"
  using assms by (simp_all add: with_results_node) (simp add: with_results_def upd_app_def)

lemma with_results_option:
  "i < length apps \<Longrightarrow> k < length (ap_options (apps ! i)) \<Longrightarrow>
   ap_options (with_results i res apps ! i) ! k = (ap_options (apps ! i) ! k)\<lparr>op_results := res k\<rparr>"
  by (simp add: with_results_node)

lemma push_with_results:
  assumes "i < length apps" and "k < length (ap_options (apps ! i))"
  shows "push_results i k rs (with_results i res apps) = with_results i (res(k := res k @ rs)) apps"
proof -
  let ?os = "ap_options (apps ! i)"
  have "(map (\<lambda>k. (?os ! k)\<lparr>op_results := res k\<rparr>) [0..<length ?os])[k := (?os ! k)\<lparr>op_results := res k @ rs\<rparr>] =
    map (\<lambda>j. (?os ! j)\<lparr>op_results := (res(k := res k @ rs)) j\<rparr>) [0..<length ?os]"
    using assms(2) by (intro nth_equalityI) (simp_all add: nth_list_update)
  with assms show ?thesis
    by (simp add: push_results_def upd_option_def with_results_def upd_app_def)
qed

lemma find_index_cong:
  "length xs = length ys \<Longrightarrow> (\<And>k. k < length xs \<Longrightarrow> P (xs ! k) = P (ys ! k)) \<Longrightarrow> find_index P xs = find_index P ys"
  unfolding find_index_def by (intro find_cong) auto

lemma with_results_lookup:
  assumes "i < length apps"
  shows "find_subcommand (with_results i res apps) = find_subcommand apps"
    "subcommands_full (with_results i res apps ! j) = subcommands_full (apps ! j)"
    "valid_subcommand (with_results i res apps) path current used = valid_subcommand apps path current used"
    "find_index (has_name t name) (ap_options (with_results i res apps ! j)) = find_index (has_name t name) (ap_options (apps ! j))"
    "recognize (with_results i res apps) path current used = recognize apps path current used"
proof -
  show f: "find_subcommand (with_results i res apps) = find_subcommand apps"
    using assms by (intro ext) (simp add: find_subcommand_def with_results_fields)
  show s: "subcommands_full (with_results i res apps ! j) = subcommands_full (apps ! j)" for j
    using assms by (simp add: subcommands_full_def with_results_fields)
  show v: "valid_subcommand (with_results i res apps) path current used = valid_subcommand apps path current used" for path
    by (induction path) (simp_all add: f s)
  show "find_index (has_name t name) (ap_options (with_results i res apps ! j)) = find_index (has_name t name) (ap_options (apps ! j))"
    using assms by (intro find_index_cong) (auto simp: with_results_node has_name_def)
  have "list_ex (\<lambda>p. name \<in> set (op_snames p)) (ap_options (with_results i res apps ! j)) =
    list_ex (\<lambda>p. name \<in> set (op_snames p)) (ap_options (apps ! j))" for j name
    using assms by (auto simp: with_results_node list_ex_length)
  then show "recognize (with_results i res apps) path current used = recognize apps path current used"
    using assms by (cases "split_short current") (auto simp: recognize_def v with_results_fields)
qed

subsection \<open>Arguments of a subcommand\<close>

text \<open>A long name as it is typed.\<close>

definition long_name :: "string \<Rightarrow> bool" where
  "long_name n \<longleftrightarrow> n \<noteq> [] \<and> valid_first_char (hd n) \<and> CHR ''='' \<notin> set n"

lemma split_long_name: "long_name n \<Longrightarrow> split_long (''--'' @ n) = Some (n, '''')"
  using find_char_notin[of "CHR ''=''" "''--'' @ n" 0] by (cases n) (simp_all add: long_name_def split_long_def)

lemma recognize_long:
  "long_name n \<Longrightarrow> \<not> valid_subcommand apps path (''--'' @ n) used \<Longrightarrow> recognize apps path (''--'' @ n) used = LONG"
  using split_long_name[of n] by (auto simp: recognize_def long_name_def)

definition scalar_option :: "'c cli_option \<Rightarrow> bool" where
  "scalar_option p \<longleftrightarrow> op_expected_min p = 1 \<and> op_expected_max p = 1 \<and> \<not> op_allow_extra p"

definition flag_option :: "'c cli_option \<Rightarrow> bool" where
  "flag_option p \<longleftrightarrow> op_expected_min p = 0 \<and> op_expected_max p = 0 \<and> \<not> op_allow_extra p \<and> op_flag_like p"

lemma add_result_plain: "\<not> allow \<Longrightarrow> add_result allow s = [s]"
  by (simp add: add_result.simps)

lemma parse_found_scalar:
  assumes "scalar_option (ap_options (apps ! i) ! k)"
  shows "parse_found apps (i # up) k name '''' '''' (v # args) = Inr (push_results i k [v] apps, args)"
  using assms
  by (cases args) (simp_all add: parse_found_def scalar_option_def first_results_def option_min_def option_max_def
      expected_max_vector_size_def add_result_plain optional_args_def default_results_def)

lemma parse_found_flag:
  assumes "flag_option (ap_options (apps ! i) ! k)" and "get_flag_value (ap_options (apps ! i) ! k) name '''' = Inr fv"
  shows "parse_found apps (i # up) k name '''' '''' args = Inr (push_results i k [fv] apps, args)"
  using assms
  by (cases args) (simp_all add: parse_found_def flag_option_def first_results_def option_min_def option_max_def
      expected_max_vector_size_def add_result_plain optional_args_def default_results_def)

lemma get_flag_value_results: "get_flag_value (p\<lparr>op_results := r\<rparr>) n v = get_flag_value p n v"
  by (simp add: get_flag_value_def)

text \<open>One turn of the loop for \<^verbatim>\<open>--name value\<close>, for a flag and for a positional argument, in the app \<open>i\<close>.\<close>

lemma parse_loop_value:
  assumes i: "i < length apps" and n: "long_name n" and k: "find_index (has_name LONG n) (ap_options (apps ! i)) = Some k"
    and kl: "k < length (ap_options (apps ! i))" and s: "scalar_option (ap_options (apps ! i) ! k)"
    and v: "\<not> valid_subcommand apps (i # up) (''--'' @ n) True"
  shows "parse_loop (Suc m) (with_results i res apps) ((i # up, False) # fs) ((''--'' @ n) # x # args) =
    parse_loop m (with_results i (res(k := res k @ [x])) apps) ((i # up, False) # fs) args"
proof -
  have s': "scalar_option (ap_options (with_results i res apps ! i) ! k)"
    using s i kl by (simp add: scalar_option_def with_results_option)
  have "parse_arg (with_results i res apps) (i # up) LONG (''--'' @ n) (x # args) =
    Inr (with_results i (res(k := res k @ [x])) apps, args)"
    using split_long_name[OF n] parse_found_scalar[OF s'] push_with_results[OF i kl] with_results_lookup(4)[OF i] k
    by (simp add: split_arg_def)
  then show ?thesis
    using recognize_long[OF n v] with_results_lookup(5)[OF i] by (simp add: parse_single_def)
qed

lemma parse_loop_flag:
  assumes i: "i < length apps" and n: "long_name n" and k: "find_index (has_name LONG n) (ap_options (apps ! i)) = Some k"
    and kl: "k < length (ap_options (apps ! i))" and s: "flag_option (ap_options (apps ! i) ! k)"
    and fv: "get_flag_value (ap_options (apps ! i) ! k) n '''' = Inr fv"
    and v: "\<not> valid_subcommand apps (i # up) (''--'' @ n) True"
  shows "parse_loop (Suc m) (with_results i res apps) ((i # up, False) # fs) ((''--'' @ n) # args) =
    parse_loop m (with_results i (res(k := res k @ [fv])) apps) ((i # up, False) # fs) args"
proof -
  have s': "flag_option (ap_options (with_results i res apps ! i) ! k)"
    "get_flag_value (ap_options (with_results i res apps ! i) ! k) n '''' = Inr fv"
    using s fv i kl by (simp_all add: flag_option_def with_results_option get_flag_value_results)
  have "parse_arg (with_results i res apps) (i # up) LONG (''--'' @ n) args =
    Inr (with_results i (res(k := res k @ [fv])) apps, args)"
    using split_long_name[OF n] parse_found_flag[OF s'] push_with_results[OF i kl] with_results_lookup(4)[OF i] k
    by (simp add: split_arg_def)
  then show ?thesis
    using recognize_long[OF n v] with_results_lookup(5)[OF i] by (simp add: parse_single_def)
qed

text \<open>An argument that is read as a positional, and is one result of a container.\<close>

definition plain_arg :: "string \<Rightarrow> bool" where
  "plain_arg s \<longleftrightarrow> s \<noteq> [] \<and> hd s \<noteq> CHR ''-'' \<and> s \<noteq> ''++'' \<and> \<not> (hd s = CHR ''['' \<and> last s = CHR '']'')"

lemma recognize_plain:
  "plain_arg s \<Longrightarrow> \<not> valid_subcommand apps path s used \<Longrightarrow> recognize apps path s used = NONE"
  by (cases s) (auto simp: recognize_def plain_arg_def split_long_def split_short_def take_Cons split: nat.splits)

lemma add_result_plain_arg: "plain_arg s \<Longrightarrow> add_result allow s = [s]"
  unfolding add_result.simps[of allow s] plain_arg_def by auto

text \<open>The first positional of app \<open>i\<close> takes any number of arguments.\<close>

definition open_positional :: "'c app_node \<Rightarrow> nat \<Rightarrow> bool" where
  "open_positional a k \<longleftrightarrow> k < length (ap_options a) \<and> op_pname (ap_options a ! k) \<noteq> [] \<and> op_allow_extra (ap_options a ! k) \<and>
     list_all (\<lambda>p. op_pname p = []) (take k (ap_options a))"

lemma find_open_positional:
  assumes "i < length apps" and "open_positional (apps ! i) k"
  shows "find_index accepts_positional (ap_options (with_results i res apps ! i)) = Some k"
  unfolding find_index_def find_upt_Some
  using assms by (auto simp: open_positional_def with_results_node accepts_positional_def list_all_length)

lemma parse_loop_positional:
  assumes i: "i < length apps" and p: "open_positional (apps ! i) k" and x: "plain_arg x"
    and v: "\<not> valid_subcommand apps (i # up) x True"
  shows "parse_loop (Suc m) (with_results i res apps) ((i # up, False) # fs) (x # args) =
    parse_loop m (with_results i (res(k := res k @ [x])) apps) ((i # up, False) # fs) args"
proof -
  have k: "k < length (ap_options (apps ! i))" using p by (simp add: open_positional_def)
  have "parse_positional (with_results i res apps) (i # up) x args =
    (with_results i (res(k := res k @ [x])) apps, args, True, None)"
    using find_open_positional[OF i p] push_with_results[OF i k] add_result_plain_arg[OF x] by simp
  then show ?thesis
    using recognize_plain[OF x v] with_results_lookup(5)[OF i] by (simp add: parse_single_def)
qed

lemma parse_loop_positionals:
  assumes "i < length apps" "open_positional (apps ! i) k"
    and "list_all plain_arg xs" "\<And>x. x \<in> set xs \<Longrightarrow> \<not> valid_subcommand apps (i # up) x True"
  shows "parse_loop (length xs + m) (with_results i res apps) ((i # up, False) # fs) (xs @ args) =
    parse_loop m (with_results i (res(k := res k @ xs)) apps) ((i # up, False) # fs) args"
  using assms(3,4)
proof (induction xs arbitrary: res)
  case (Cons x xs)
  let ?res = "res(k := res k @ [x])"
  have e: "?res(k := ?res k @ xs) = res(k := res k @ x # xs)" by simp
  have "parse_loop (length (x # xs) + m) (with_results i res apps) ((i # up, False) # fs) ((x # xs) @ args) =
    parse_loop (length xs + m) (with_results i ?res apps) ((i # up, False) # fs) (xs @ args)"
    using parse_loop_positional[OF assms(1,2), of x up "length xs + m" res fs "xs @ args"] Cons.prems
    by (simp del: parse_loop.simps valid_subcommand.simps)
  also have "\<dots> = parse_loop m (with_results i (?res(k := ?res k @ xs)) apps) ((i # up, False) # fs) args"
    by (rule Cons.IH) (use Cons.prems in \<open>auto simp del: valid_subcommand.simps\<close>)
  finally show ?case unfolding e .
qed simp

lemma parse_loop_mono: "parse_loop n apps fs args = Some r \<Longrightarrow> n \<le> m \<Longrightarrow> parse_loop m apps fs args = Some r"
proof (induction n arbitrary: m apps fs args)
  case (Suc n)
  then obtain m' where m: "m = Suc m'" "n \<le> m'" by (cases m) auto
  show ?case
  proof (cases fs)
    case (Cons f fs')
    obtain p po where f: "f = (p, po)" by (cases f)
    show ?thesis
    proof (cases args)
      case Nil
      with Suc.prems(1) Suc.IH[OF _ m(2)] show ?thesis by (simp add: m Cons f)
    next
      fix a as assume args: "args = a # as"
      show ?thesis
      proof (cases "parse_single apps p po a as")
        case (Inr r1)
        obtain apps1 args1 go nx po1 where "r1 = ((apps1, args1, go, nx), po1)" by (metis prod.exhaust)
        with Inr Suc.prems(1) Suc.IH[OF _ m(2)] show ?thesis by (simp add: m Cons f args Let_def)
      qed (use Suc.prems(1) in \<open>simp add: m Cons f args\<close>)
    qed
  qed (use Suc.prems(1) in \<open>simp add: m\<close>)
qed simp

lemma cli_parse_loop:
  assumes "parse_loop n (increment_parsed 0 apps) [([0], False)] args = Some r"
  shows "parse_loop (2 * arg_size args + 2) (increment_parsed 0 apps) [([0], False)] args = Some r"
proof -
  obtain r' where r': "parse_loop (2 * arg_size args + 2) (increment_parsed 0 apps) [([0], False)] args = Some r'"
    using parse_loop_ends[of args "[([0], False)]" "2 * arg_size args + 2"] by (auto simp: frames_ok_def)
  from parse_loop_mono[OF assms, of "max n (2 * arg_size args + 2)"] parse_loop_mono[OF r', of "max n (2 * arg_size args + 2)"] r'
  show ?thesis by simp
qed

end
