(* ===== verification/CommandLine.thy ===== *)
theory CommandLine
  imports CliParser App
begin

text \<open>
  The command line of the program: the options that \<^verbatim>\<open>main\<close> and the six \<^verbatim>\<open>add_subcommand\<close> functions declare, the
  variables they write (the record \<open>cli\<close>), and \<^verbatim>\<open>main\<close> from its arguments on. \<^verbatim>\<open>strtold\<close> of the C library, which
  reads the loss rate, is a parameter: the number read, as a fraction, and the rest of the text.
\<close>

type_synonym strtold_fn = "string \<Rightarrow> (rat \<times> string) option"

subsection \<open>Callbacks of the variables\<close>

definition assign :: "('v \<Rightarrow> 'c \<Rightarrow> 'c) \<Rightarrow> 'v option \<Rightarrow> 'c \<Rightarrow> 'c callback_result" where
  "assign set_var v c = (case v of None \<Rightarrow> Cb_false | Some x \<Rightarrow> Cb_true (set_var x c))"

definition int_var :: "(int \<Rightarrow> 'c \<Rightarrow> 'c) \<Rightarrow> 'c callback" where
  "int_var set_var res c = assign set_var (lexical_assign 0 (integral_conversion 32) (res ! 0)) c"

text \<open>\<^verbatim>\<open>unsigned\<close> has 32 bits, \<^verbatim>\<open>size_t\<close> 64.\<close>

definition unsigned_var :: "nat \<Rightarrow> (nat \<Rightarrow> 'c \<Rightarrow> 'c) \<Rightarrow> 'c callback" where
  "unsigned_var w set_var res c = assign set_var (lexical_assign 0 (unsigned_conversion w) (res ! 0)) c"

definition string_var :: "(string \<Rightarrow> 'c \<Rightarrow> 'c) \<Rightarrow> 'c callback" where
  "string_var set_var res c = Cb_true (set_var (res ! 0) c)"

definition strings_var :: "(string list \<Rightarrow> 'c \<Rightarrow> 'c) \<Rightarrow> 'c callback" where
  "strings_var set_var res c = (if res = [] then Cb_false else Cb_true (set_var res c))"

definition lexical_cast_double :: "strtold_fn \<Rightarrow> string \<Rightarrow> rat option" where
  "lexical_cast_double strtold input =
     (case strtold input of None \<Rightarrow> None | Some (v, rest) \<Rightarrow> if rest = [] then Some v else None)"

definition double_var :: "strtold_fn \<Rightarrow> (rat \<Rightarrow> 'c \<Rightarrow> 'c) \<Rightarrow> 'c callback" where
  "double_var strtold set_var res c = assign set_var (lexical_assign 0 (lexical_cast_double strtold) (res ! 0)) c"

definition bool_flag :: "(bool \<Rightarrow> 'c \<Rightarrow> 'c) \<Rightarrow> 'c callback" where
  "bool_flag set_var res c = assign set_var (lexical_cast_bool (res ! 0)) c"

text \<open>\<^verbatim>\<open>add_flag_function\<close> and \<^verbatim>\<open>add_flag_callback\<close>. The exceptions of \<^verbatim>\<open>sum_flag_vector\<close> are not caught.\<close>

definition function_flag :: "('c \<Rightarrow> 'c) \<Rightarrow> 'c callback" where
  "function_flag f res c = (case sum_flag_vector res of Inl e \<Rightarrow> Cb_throws (Std_exception e) | Inr _ \<Rightarrow> Cb_true (f c))"

definition version_flag :: "'c callback" where
  "version_flag res c =
     (case lexical_cast_bool (res ! 0) of
        None \<Rightarrow> Cb_false
      | Some trigger \<Rightarrow> if trigger then Cb_throws Call_for_version else Cb_true c)"

subsection \<open>Declaring options and subcommands\<close>

datatype 'c decl =
    Opt string "'c callback option"
  | Var string bool "unit_map option" "'c callback"
  | Flag string "'c callback option" policy

primrec make_decl :: "'c decl \<Rightarrow> cli_error + 'c cli_option" where
  "make_decl (Opt name cb) = Option_ctor name cb"
| "make_decl (Var name container units cb) = make_option name container units cb"
| "make_decl (Flag name cb pol) = make_flag name cb pol"

primrec add_decls :: "'c decl list \<Rightarrow> 'c cli_option list \<Rightarrow> cli_error + 'c cli_option list" where
  "add_decls [] options = Inr options"
| "add_decls (d # ds) options =
     (case make_decl d of
        Inl e \<Rightarrow> Inl e
      | Inr new \<Rightarrow> (case add_option new options of Inl e \<Rightarrow> Inl e | Inr options \<Rightarrow> add_decls ds options))"

text \<open>The constructor of a subcommand repeats the two help flags of its parent and inherits \<^verbatim>\<open>fallthrough\<close>.\<close>

definition help_decls :: "'c decl list" where
  "help_decls = [Flag ''-h,--help'' None Take_last, Flag ''--help-all'' None Take_last]"

definition add_subcommand :: "nat \<Rightarrow> string \<Rightarrow> bool \<Rightarrow> 'c decl list \<Rightarrow> 'c apps \<Rightarrow> cli_error + 'c apps" where
  "add_subcommand parent name fallthrough decls apps =
     (if \<not> valid_name_string name then Inl Incorrect_construction
      else if list_ex (\<lambda>j. ap_name (apps ! j) = name) (ap_subs (apps ! parent)) then Inl (Option_already_added name)
      else case add_decls (help_decls @ decls) [] of
        Inl e \<Rightarrow> Inl e
      | Inr options \<Rightarrow>
          Inr (upd_app parent (\<lambda>a. a\<lparr>ap_subs := ap_subs a @ [length apps]\<rparr>) apps @
               [\<lparr>ap_name = name, ap_options = options, ap_help = Some 0, ap_help_all = Some 1, ap_config = None,
                 ap_fallthrough = (fallthrough \<or> ap_fallthrough (apps ! parent)), ap_require_min = 0, ap_require_max = 0,
                 ap_subs = [], ap_parsed = 0, ap_parsed_subs = [], ap_missing = []\<rparr>]))"

definition to_bps :: unit_map where "to_bps = [(''Gbps'', 1000000000), (''Mbps'', 1000000), (''kbps'', 1000)]"
definition to_ms :: unit_map where "to_ms = [(''ms'', 1), (''s'', 1000)]"
definition to_sec :: unit_map where "to_sec = [(''min'', 60), (''mins'', 60), (''s'', 1)]"

subsection \<open>The six commands\<close>

definition set_gen :: "(generate_config \<Rightarrow> generate_config) \<Rightarrow> cli \<Rightarrow> cli" where
  "set_gen f c = c\<lparr>cfg_generate := f (cfg_generate c)\<rparr>"

definition generate_decls :: "strtold_fn \<Rightarrow> cli decl list" where
  "generate_decls strtold =
     [Var ''-o,--output,dst'' True None (strings_var (\<lambda>v c. c\<lparr>cl_dst_urls := v\<rparr>)),
      Var ''--msgsize'' False None (int_var (\<lambda>v. set_gen (\<lambda>g. g\<lparr>gn_message_size := v\<rparr>))),
      Var ''--sendrate'' False (Some to_bps) (int_var (\<lambda>v. set_gen (\<lambda>g. g\<lparr>gn_sendrate := v\<rparr>))),
      Var ''--num'' False None (int_var (\<lambda>v. set_gen (\<lambda>g. g\<lparr>gn_num_messages := v\<rparr>))),
      Var ''--duration'' False (Some to_sec) (int_var (\<lambda>v. set_gen (\<lambda>g. g\<lparr>gn_duration := v\<rparr>))),
      Flag ''--twoway'' (Some (bool_flag (\<lambda>v. set_gen (\<lambda>g. g\<lparr>gn_two_way := v\<rparr>)))) Take_last,
      Flag ''--reconnect,!--no-reconnect'' (Some (bool_flag (\<lambda>v. set_gen (\<lambda>g. g\<lparr>gn_reconnect := v\<rparr>)))) Take_last,
      Flag ''--close-listener,!--no-close-listener'' (Some (bool_flag (\<lambda>v. set_gen (\<lambda>g. g\<lparr>gn_close_listener := v\<rparr>)))) Take_last,
      Var ''--lossrate'' False None (double_var strtold (\<lambda>v. set_gen (\<lambda>g. g\<lparr>gn_lossRate := v\<rparr>)))]"

definition set_rcv :: "(receive_config \<Rightarrow> receive_config) \<Rightarrow> cli \<Rightarrow> cli" where
  "set_rcv f c = c\<lparr>cfg_receive := f (cfg_receive c)\<rparr>"

definition receive_decls :: "cli decl list" where
  "receive_decls =
     [Var ''-i,--input,src'' True None (strings_var (\<lambda>v c. c\<lparr>cl_src_urls := v\<rparr>)),
      Var ''--msgsize'' False None (int_var (\<lambda>v. set_rcv (\<lambda>r. r\<lparr>rc_message_size := v\<rparr>))),
      Var ''--statsfile'' False None (string_var (\<lambda>v. set_rcv (\<lambda>r. r\<lparr>stats_file := v\<rparr>))),
      Var ''--statsformat'' False None (string_var (\<lambda>v. set_rcv (\<lambda>r. r\<lparr>stats_format := v\<rparr>))),
      Var ''--statsfreq'' False (Some to_ms) (int_var (\<lambda>v. set_rcv (\<lambda>r. r\<lparr>stats_freq_ms := v\<rparr>))),
      Flag ''--printmsg'' (Some (bool_flag (\<lambda>v. set_rcv (\<lambda>r. r\<lparr>rc_print_notifications := v\<rparr>)))) Take_last,
      Flag ''--reconnect,!--no-reconnect'' (Some (bool_flag (\<lambda>v. set_rcv (\<lambda>r. r\<lparr>rc_reconnect := v\<rparr>)))) Take_last,
      Flag ''--close-listener,!--no-close-listener'' (Some (bool_flag (\<lambda>v. set_rcv (\<lambda>r. r\<lparr>rc_close_listener := v\<rparr>)))) Take_last,
      Flag ''--enable-metrics'' (Some (bool_flag (\<lambda>v. set_rcv (\<lambda>r. r\<lparr>rc_enable_metrics := v\<rparr>)))) Take_last,
      Var ''--metricsfile'' False None (string_var (\<lambda>v. set_rcv (\<lambda>r. r\<lparr>rc_metrics_file := v\<rparr>))),
      Var ''--metricsfreq'' False (Some to_ms) (unsigned_var 32 (\<lambda>v. set_rcv (\<lambda>r. r\<lparr>rc_metrics_freq_ms := v\<rparr>))),
      Flag ''--twoway'' (Some (bool_flag (\<lambda>v. set_rcv (\<lambda>r. r\<lparr>rc_send_reply := v\<rparr>)))) Take_last]"

definition set_rt :: "(route_config \<Rightarrow> route_config) \<Rightarrow> cli \<Rightarrow> cli" where
  "set_rt f c = c\<lparr>cfg_route := f (cfg_route c)\<rparr>"

definition route_decls :: "cli decl list" where
  "route_decls =
     [Var ''-i,--input'' True None (strings_var (\<lambda>v c. c\<lparr>cl_src_urls := v\<rparr>)),
      Var ''-o,--output'' True None (strings_var (\<lambda>v c. c\<lparr>cl_dst_urls := v\<rparr>)),
      Var ''--msgsize'' False None (int_var (\<lambda>v. set_rt (\<lambda>r. r\<lparr>rt_message_size := v\<rparr>))),
      Flag ''--bidir'' (Some (bool_flag (\<lambda>v. set_rt (\<lambda>r. r\<lparr>rt_bidir := v\<rparr>)))) Take_last,
      Flag ''--close-listener,!--no-close-listener'' (Some (bool_flag (\<lambda>v. set_rt (\<lambda>r. r\<lparr>rt_close_listener := v\<rparr>)))) Take_last,
      Var ''--statsfile'' False None (string_var (\<lambda>v. set_rt (\<lambda>r. r\<lparr>rt_stats_file := v\<rparr>))),
      Var ''--statsformat'' False None (string_var (\<lambda>v. set_rt (\<lambda>r. r\<lparr>rt_stats_format := v\<rparr>))),
      Var ''--statsfreq'' False (Some to_ms) (int_var (\<lambda>v. set_rt (\<lambda>r. r\<lparr>rt_stats_freq_ms := v\<rparr>)))]"

definition set_fs :: "(file_send_config \<Rightarrow> file_send_config) \<Rightarrow> cli \<Rightarrow> cli" where
  "set_fs f c = c\<lparr>cfg_file_send := f (cfg_file_send c)\<rparr>"

definition file_send_decls :: "cli decl list" where
  "file_send_decls =
     [Var ''src'' False None (string_var (\<lambda>v. set_fs (\<lambda>r. r\<lparr>fs_src_path := v\<rparr>))),
      Var ''dst'' False None (string_var (\<lambda>v c. c\<lparr>cl_dst := v\<rparr>)),
      Flag ''--printout'' (Some (bool_flag (\<lambda>v. set_fs (\<lambda>r. r\<lparr>fs_only_print := v\<rparr>)))) Take_last,
      Var ''--segment'' False None (unsigned_var 64 (\<lambda>v. set_fs (\<lambda>r. r\<lparr>fs_segment_size := v\<rparr>))),
      Var ''--statsfile'' False None (string_var (\<lambda>v. set_fs (\<lambda>r. r\<lparr>fs_stats_file := v\<rparr>))),
      Var ''--statsformat'' False None (string_var (\<lambda>v. set_fs (\<lambda>r. r\<lparr>fs_stats_format := v\<rparr>))),
      Var ''--statsfreq'' False (Some to_ms) (int_var (\<lambda>v. set_fs (\<lambda>r. r\<lparr>fs_stats_freq_ms := v\<rparr>)))]"

definition set_fr :: "(file_recv_config \<Rightarrow> file_recv_config) \<Rightarrow> cli \<Rightarrow> cli" where
  "set_fr f c = c\<lparr>cfg_file_recv := f (cfg_file_recv c)\<rparr>"

definition file_receive_decls :: "cli decl list" where
  "file_receive_decls =
     [Var ''src'' False None (string_var (\<lambda>v c. c\<lparr>cl_src := v\<rparr>)),
      Var ''dst'' False None (string_var (\<lambda>v. set_fr (\<lambda>r. r\<lparr>fr_dst_path := v\<rparr>))),
      Var ''--segment'' False None (unsigned_var 64 (\<lambda>v. set_fr (\<lambda>r. r\<lparr>fr_segment_size := v\<rparr>))),
      Var ''--statsfile'' False None (string_var (\<lambda>v. set_fr (\<lambda>r. r\<lparr>fr_stats_file := v\<rparr>))),
      Var ''--statsformat'' False None (string_var (\<lambda>v. set_fr (\<lambda>r. r\<lparr>fr_stats_format := v\<rparr>))),
      Var ''--statsfreq'' False (Some to_ms) (int_var (\<lambda>v. set_fr (\<lambda>r. r\<lparr>fr_stats_freq_ms := v\<rparr>)))]"

definition set_fw :: "(forward_config \<Rightarrow> forward_config) \<Rightarrow> cli \<Rightarrow> cli" where
  "set_fw f c = c\<lparr>cfg_forward := f (cfg_forward c)\<rparr>"

definition forward_decls :: "cli decl list" where
  "forward_decls =
     [Var ''src'' False None (string_var (\<lambda>v c. c\<lparr>cl_src := v\<rparr>)),
      Var ''dst'' False None (string_var (\<lambda>v c. c\<lparr>cl_dst := v\<rparr>)),
      Flag ''--oneway'' (Some (bool_flag (\<lambda>v. set_fw (\<lambda>r. r\<lparr>fw_one_way := v\<rparr>)))) Take_last,
      Flag ''--planck'' (Some (bool_flag (\<lambda>v. set_fw (\<lambda>r. r\<lparr>fw_planck := v\<rparr>)))) Take_last]"

subsection \<open>The apps of \<^verbatim>\<open>main\<close>\<close>

definition add_event :: "cli_event \<Rightarrow> cli \<Rightarrow> cli" where
  "add_event ev c = c\<lparr>cl_events := cl_events c @ [ev]\<rparr>"

definition root_decls :: "cli decl list" where
  "root_decls =
     [Flag ''-h,--help'' None Take_last, Opt ''--config'' None, Flag ''--help-all'' None Take_last,
      Flag ''--version'' (Some version_flag) Take_last,
      Flag ''--verbose,-v'' (Some (function_flag (add_event Flag_verbose))) Take_all,
      Flag ''--handle-sigint'' (Some (function_flag (add_event Flag_handle_sigint))) Take_all,
      Opt ''--loglevel'' (Some (\<lambda>val c. Cb_true (add_event (Opt_loglevel (val ! 0)) c))),
      Opt ''--logfa'' (Some (\<lambda>val c. Cb_true (add_event (Opt_logfa (val ! 0)) c)))]"

definition root_app :: "cli_error + cli apps" where
  "root_app =
     (case add_decls root_decls [] of
        Inl e \<Rightarrow> Inl e
      | Inr options \<Rightarrow>
          Inr [\<lparr>ap_name = '''', ap_options = options, ap_help = Some 0, ap_help_all = Some 2, ap_config = Some 1,
                ap_fallthrough = False, ap_require_min = 0, ap_require_max = 0, ap_subs = [], ap_parsed = 0,
                ap_parsed_subs = [], ap_missing = []\<rparr>])"

definition and_then :: "cli_error + 'a \<Rightarrow> ('a \<Rightarrow> cli_error + 'b) \<Rightarrow> cli_error + 'b" where
  "and_then r f = (case r of Inl e \<Rightarrow> Inl e | Inr x \<Rightarrow> f x)"

text \<open>The commands in the order of \<^verbatim>\<open>main\<close>; the indices of the apps are 1 generate, 2 receive, 3 route, 4 file,
  5 file send, 6 file receive, 7 file forward.\<close>

definition main_apps :: "bool \<Rightarrow> strtold_fn \<Rightarrow> cli_error + cli apps" where
  "main_apps ENABLE_FILE_TRANSFER strtold =
     and_then root_app (\<lambda>apps.
     and_then (add_subcommand 0 ''generate'' True (generate_decls strtold) apps) (\<lambda>apps.
     and_then (add_subcommand 0 ''receive'' True receive_decls apps) (\<lambda>apps.
     and_then (add_subcommand 0 ''route'' True route_decls apps) (\<lambda>apps.
     and_then (if ENABLE_FILE_TRANSFER then
                 and_then (add_subcommand 0 ''file'' True [] apps) (\<lambda>apps.
                 and_then (add_subcommand 4 ''send'' True file_send_decls apps) (\<lambda>apps.
                 and_then (add_subcommand 4 ''receive'' True file_receive_decls apps) (\<lambda>apps.
                   add_subcommand 4 ''forward'' False forward_decls apps)))
               else Inr apps) (\<lambda>apps.
     Inr (upd_app 0 (\<lambda>a. a\<lparr>ap_require_min := 1, ap_require_max := 1\<rparr>) apps))))))"

subsection \<open>From the arguments to \<^verbatim>\<open>main\<close>\<close>

definition exit_code :: "cli_error \<Rightarrow> int" where
  "exit_code e =
     (case e of
        Call_for_help \<Rightarrow> 0 | Call_for_all_help \<Rightarrow> 0 | Call_for_version \<Rightarrow> 0
      | Conversion_error _ \<Rightarrow> 104 | Validation_error _ \<Rightarrow> 105 | Required_error \<Rightarrow> 106 | Extras_error _ \<Rightarrow> 109
      | Invalid_error \<Rightarrow> 111 | Horrible_error \<Rightarrow> 112 | Argument_mismatch _ \<Rightarrow> 114
      | Incorrect_construction \<Rightarrow> 100 | Bad_name_string _ \<Rightarrow> 101 | Option_already_added _ \<Rightarrow> 102
      | Config_file _ \<Rightarrow> 103 | Std_exception _ \<Rightarrow> 127)"

definition is_parsed :: "cli apps \<Rightarrow> nat \<Rightarrow> bool" where
  "is_parsed apps i \<longleftrightarrow> i < length apps \<and> 0 < ap_parsed (apps ! i)"

definition set_parsed :: "cli apps \<Rightarrow> cli \<Rightarrow> cli" where
  "set_parsed apps c =
     c\<lparr>sc_generate := is_parsed apps 1, sc_receive := is_parsed apps 2, sc_route := is_parsed apps 3,
       sc_file_send := is_parsed apps 5, sc_file_recv := is_parsed apps 6, sc_forward := is_parsed apps 7\<rparr>"

text \<open>\<^verbatim>\<open>CLI11_PARSE\<close> turns every \<^verbatim>\<open>ParseError\<close> into an exit code; other exceptions leave \<^verbatim>\<open>main\<close>.\<close>

definition command_line :: "bool \<Rightarrow> strtold_fn \<Rightarrow> string list \<Rightarrow> cli \<times> cpp_exn option" where
  "command_line ENABLE_FILE_TRANSFER strtold args =
     (case main_apps ENABLE_FILE_TRANSFER strtold of
        Inl e \<Rightarrow> (cli0, Some (Runtime_error ''ConstructionError''))
      | Inr apps \<Rightarrow>
          (case cli_parse apps cli0 args of
             (c, Inl (Std_exception e)) \<Rightarrow> (c, Some e)
           | (c, Inl e) \<Rightarrow> (c\<lparr>cl_exit := Some (exit_code e)\<rparr>, None)
           | (c, Inr apps) \<Rightarrow> (set_parsed apps c, None)))"

definition program_main ::
  "nat \<Rightarrow> build_flags \<Rightarrow> bool \<Rightarrow> bool \<Rightarrow> (string \<times> int) list \<Rightarrow> strtold_fn \<Rightarrow> string list \<Rightarrow> int sprog" where
  "program_main fuel fl ENABLE_FILE_TRANSFER unwinds names strtold args =
     (case command_line ENABLE_FILE_TRANSFER strtold args of
        (c, None) \<Rightarrow> app_main fuel fl ENABLE_FILE_TRANSFER unwinds names c
      | (c, Some e) \<Rightarrow>
          bindP srt_clock_type_str (\<lambda>_. bindP (forP (on_event names) (cl_events c)) (\<lambda>_. Exc e)))"

subsection \<open>The declared names\<close>

lemma option_names:
  "get_names (split_names ''-h,--help'') = Inr ([''h''], [''help''], '''')"
  "get_names (split_names ''--help-all'') = Inr ([], [''help-all''], '''')"
  "get_names (split_names ''--config'') = Inr ([], [''config''], '''')"
  "get_names (split_names ''--version'') = Inr ([], [''version''], '''')"
  "get_names (split_names ''--verbose,-v'') = Inr ([''v''], [''verbose''], '''')"
  "get_names (split_names ''--handle-sigint'') = Inr ([], [''handle-sigint''], '''')"
  "get_names (split_names ''--loglevel'') = Inr ([], [''loglevel''], '''')"
  "get_names (split_names ''--logfa'') = Inr ([], [''logfa''], '''')"
  "get_names (split_names ''-o,--output,dst'') = Inr ([''o''], [''output''], ''dst'')"
  "get_names (split_names ''--msgsize'') = Inr ([], [''msgsize''], '''')"
  "get_names (split_names ''--sendrate'') = Inr ([], [''sendrate''], '''')"
  "get_names (split_names ''--num'') = Inr ([], [''num''], '''')"
  "get_names (split_names ''--duration'') = Inr ([], [''duration''], '''')"
  "get_names (split_names ''--twoway'') = Inr ([], [''twoway''], '''')"
  "get_names (split_names ''--lossrate'') = Inr ([], [''lossrate''], '''')"
  "get_names (split_names ''-i,--input,src'') = Inr ([''i''], [''input''], ''src'')"
  "get_names (split_names ''--statsfile'') = Inr ([], [''statsfile''], '''')"
  "get_names (split_names ''--statsformat'') = Inr ([], [''statsformat''], '''')"
  "get_names (split_names ''--statsfreq'') = Inr ([], [''statsfreq''], '''')"
  "get_names (split_names ''--printmsg'') = Inr ([], [''printmsg''], '''')"
  "get_names (split_names ''--enable-metrics'') = Inr ([], [''enable-metrics''], '''')"
  "get_names (split_names ''--metricsfile'') = Inr ([], [''metricsfile''], '''')"
  "get_names (split_names ''--metricsfreq'') = Inr ([], [''metricsfreq''], '''')"
  "get_names (split_names ''-i,--input'') = Inr ([''i''], [''input''], '''')"
  "get_names (split_names ''-o,--output'') = Inr ([''o''], [''output''], '''')"
  "get_names (split_names ''--bidir'') = Inr ([], [''bidir''], '''')"
  "get_names (split_names ''src'') = Inr ([], [], ''src'')"
  "get_names (split_names ''dst'') = Inr ([], [], ''dst'')"
  "get_names (split_names ''--printout'') = Inr ([], [''printout''], '''')"
  "get_names (split_names ''--segment'') = Inr ([], [''segment''], '''')"
  "get_names (split_names ''--oneway'') = Inr ([], [''oneway''], '''')"
  "get_names (split_names ''--planck'') = Inr ([], [''planck''], '''')"
  "get_names (split_names ''--reconnect,--no-reconnect'') = Inr ([], [''reconnect'', ''no-reconnect''], '''')"
  "get_names (split_names ''--close-listener,--no-close-listener'') = Inr ([], [''close-listener'', ''no-close-listener''], '''')"
  by code_simp+

lemma plain_flags:
  "has_default_flag_values ''-h,--help'' = False"
  "has_default_flag_values ''--help-all'' = False"
  "has_default_flag_values ''--version'' = False"
  "has_default_flag_values ''--verbose,-v'' = False"
  "has_default_flag_values ''--handle-sigint'' = False"
  "has_default_flag_values ''--twoway'' = False"
  "has_default_flag_values ''--printmsg'' = False"
  "has_default_flag_values ''--enable-metrics'' = False"
  "has_default_flag_values ''--bidir'' = False"
  "has_default_flag_values ''--printout'' = False"
  "has_default_flag_values ''--oneway'' = False"
  "has_default_flag_values ''--planck'' = False"
  by code_simp+

lemma negated_flags:
  "has_default_flag_values ''--reconnect,!--no-reconnect'' = True"
  "get_default_flag_values ''--reconnect,!--no-reconnect'' = [(''no-reconnect'', ''false'')]"
  "remove_default_flag_values ''--reconnect,!--no-reconnect'' = ''--reconnect,--no-reconnect''"
  "has_default_flag_values ''--close-listener,!--no-close-listener'' = True"
  "get_default_flag_values ''--close-listener,!--no-close-listener'' = [(''no-close-listener'', ''false'')]"
  "remove_default_flag_values ''--close-listener,!--no-close-listener'' = ''--close-listener,--no-close-listener''"
  by code_simp+

lemma unit_tables: "validate_mapping to_bps" "validate_mapping to_ms" "validate_mapping to_sec"
  by code_simp+

text \<open>What a declaration becomes: a variable of one argument, a container, a flag.\<close>

definition scalar_opt :: "string list \<Rightarrow> string \<Rightarrow> (string \<Rightarrow> cli_error + string) list \<Rightarrow> 'c callback option \<Rightarrow> 'c cli_option" where
  "scalar_opt lnames pname vs cb =
     \<lparr>op_snames = [], op_lnames = lnames, op_pname = pname, op_flags = [], op_expected_min = 1, op_expected_max = 1,
      op_allow_extra = False, op_flag_like = False, op_policy = Throw, op_validators = vs, op_callback = cb, op_results = []\<rparr>"

definition container_opt :: "string list \<Rightarrow> string list \<Rightarrow> string \<Rightarrow> 'c callback \<Rightarrow> 'c cli_option" where
  "container_opt snames lnames pname cb =
     \<lparr>op_snames = snames, op_lnames = lnames, op_pname = pname, op_flags = [], op_expected_min = 1,
      op_expected_max = expected_max_vector_size, op_allow_extra = True, op_flag_like = False, op_policy = Throw,
      op_validators = [], op_callback = Some cb, op_results = []\<rparr>"

definition flag_opt :: "string list \<Rightarrow> string list \<Rightarrow> (string \<times> string) list \<Rightarrow> 'c callback option \<Rightarrow> policy \<Rightarrow> 'c cli_option" where
  "flag_opt snames lnames flags cb pol =
     \<lparr>op_snames = snames, op_lnames = lnames, op_pname = '''', op_flags = flags, op_expected_min = 0,
      op_expected_max = 0, op_allow_extra = False, op_flag_like = True, op_policy = pol,
      op_validators = [], op_callback = cb, op_results = []\<rparr>"

lemmas opt_defs = scalar_opt_def container_opt_def flag_opt_def

lemma opt_fields [simp]:
  "op_snames (scalar_opt ls p vs cb) = []" "op_lnames (scalar_opt ls p vs cb) = ls" "op_pname (scalar_opt ls p vs cb) = p"
  "op_snames (container_opt ss ls p cb') = ss" "op_lnames (container_opt ss ls p cb') = ls" "op_pname (container_opt ss ls p cb') = p"
  "op_snames (flag_opt ss ls fs cb pol) = ss" "op_lnames (flag_opt ss ls fs cb pol) = ls" "op_pname (flag_opt ss ls fs cb pol) = ''''"
  "op_allow_extra (scalar_opt ls p vs cb) = False" "op_allow_extra (container_opt ss ls p cb') = True"
  "op_flags (flag_opt ss ls fs cb pol) = fs" "op_flag_like (flag_opt ss ls fs cb pol) = True"
  "op_results (scalar_opt ls p vs cb) = []" "op_results (container_opt ss ls p cb') = []" "op_results (flag_opt ss ls fs cb pol) = []"
  "scalar_option (scalar_opt ls p vs cb)" "flag_option (flag_opt ss ls fs cb pol)"
  by (simp_all add: opt_defs scalar_option_def flag_option_def)

lemma declared_opts:
  "get_names (split_names s) = Inr ([], ls, p) \<Longrightarrow> Option_ctor s cb = Inr (scalar_opt ls p [] cb)"
  "get_names (split_names s) = Inr ([], ls, p) \<Longrightarrow> make_option s False None cb' = Inr (scalar_opt ls p [] (Some cb'))"
  "get_names (split_names s) = Inr ([], ls, p) \<Longrightarrow> validate_mapping m \<Longrightarrow>
     make_option s False (Some m) cb' = Inr (scalar_opt ls p [AsNumberWithUnit m] (Some cb'))"
  "get_names (split_names s) = Inr (ss, ls, p) \<Longrightarrow> make_option s True None cb' = Inr (container_opt ss ls p cb')"
  "has_default_flag_values s = False \<Longrightarrow> get_names (split_names s) = Inr (ss, ls, '''') \<Longrightarrow>
     make_flag s cb pol = Inr (flag_opt ss ls [] cb pol)"
  "has_default_flag_values s = True \<Longrightarrow> get_names (split_names (remove_default_flag_values s)) = Inr (ss, ls, '''') \<Longrightarrow>
     make_flag s cb pol = Inr (flag_opt ss ls (get_default_flag_values s) cb pol)"
  by (simp_all add: Option_ctor_def make_option_def make_flag_def expected_def expected_max_vector_size_def opt_defs Let_def)

lemmas decl_simps = declared_opts option_names plain_flags negated_flags unit_tables add_option_def matching_name_def help_decls_def

definition generate_options :: "strtold_fn \<Rightarrow> cli cli_option list" where
  "generate_options strtold =
     [flag_opt [''h''] [''help''] [] None Take_last, flag_opt [] [''help-all''] [] None Take_last,
      container_opt [''o''] [''output''] ''dst'' (strings_var (\<lambda>v c. c\<lparr>cl_dst_urls := v\<rparr>)),
      scalar_opt [''msgsize''] '''' [] (Some (int_var (\<lambda>v. set_gen (\<lambda>g. g\<lparr>gn_message_size := v\<rparr>)))),
      scalar_opt [''sendrate''] '''' [AsNumberWithUnit to_bps] (Some (int_var (\<lambda>v. set_gen (\<lambda>g. g\<lparr>gn_sendrate := v\<rparr>)))),
      scalar_opt [''num''] '''' [] (Some (int_var (\<lambda>v. set_gen (\<lambda>g. g\<lparr>gn_num_messages := v\<rparr>)))),
      scalar_opt [''duration''] '''' [AsNumberWithUnit to_sec] (Some (int_var (\<lambda>v. set_gen (\<lambda>g. g\<lparr>gn_duration := v\<rparr>)))),
      flag_opt [] [''twoway''] [] (Some (bool_flag (\<lambda>v. set_gen (\<lambda>g. g\<lparr>gn_two_way := v\<rparr>)))) Take_last,
      flag_opt [] [''reconnect'', ''no-reconnect''] [(''no-reconnect'', ''false'')]
        (Some (bool_flag (\<lambda>v. set_gen (\<lambda>g. g\<lparr>gn_reconnect := v\<rparr>)))) Take_last,
      flag_opt [] [''close-listener'', ''no-close-listener''] [(''no-close-listener'', ''false'')]
        (Some (bool_flag (\<lambda>v. set_gen (\<lambda>g. g\<lparr>gn_close_listener := v\<rparr>)))) Take_last,
      scalar_opt [''lossrate''] '''' [] (Some (double_var strtold (\<lambda>v. set_gen (\<lambda>g. g\<lparr>gn_lossRate := v\<rparr>))))]"

lemma add_generate_decls: "add_decls (help_decls @ generate_decls strtold) [] = Inr (generate_options strtold)"
  by (simp add: generate_decls_def generate_options_def decl_simps)

text \<open>The options of the other commands.\<close>

definition options_of :: "'c decl list \<Rightarrow> 'c cli_option list" where
  "options_of decls = (case add_decls decls [] of Inl e \<Rightarrow> [] | Inr options \<Rightarrow> options)"

lemma add_other_decls:
  "add_decls root_decls [] = Inr (options_of root_decls)"
  "add_decls (help_decls @ receive_decls) [] = Inr (options_of (help_decls @ receive_decls))"
  "add_decls (help_decls @ route_decls) [] = Inr (options_of (help_decls @ route_decls))"
  "add_decls (help_decls :: cli decl list) [] = Inr (options_of help_decls)"
  "add_decls (help_decls @ file_send_decls) [] = Inr (options_of (help_decls @ file_send_decls))"
  "add_decls (help_decls @ file_receive_decls) [] = Inr (options_of (help_decls @ file_receive_decls))"
  "add_decls (help_decls @ forward_decls) [] = Inr (options_of (help_decls @ forward_decls))"
  by (simp_all add: options_of_def root_decls_def receive_decls_def route_decls_def file_send_decls_def file_receive_decls_def
      forward_decls_def decl_simps)

subsection \<open>The table of the apps\<close>

definition sub_node :: "string \<Rightarrow> cli cli_option list \<Rightarrow> nat list \<Rightarrow> cli app_node" where
  "sub_node name options subs =
     \<lparr>ap_name = name, ap_options = options, ap_help = Some 0, ap_help_all = Some 1, ap_config = None,
      ap_fallthrough = True, ap_require_min = 0, ap_require_max = 0, ap_subs = subs, ap_parsed = 0,
      ap_parsed_subs = [], ap_missing = []\<rparr>"

definition root_node :: "nat list \<Rightarrow> cli app_node" where
  "root_node subs =
     \<lparr>ap_name = '''', ap_options = options_of root_decls, ap_help = Some 0, ap_help_all = Some 2, ap_config = Some 1,
      ap_fallthrough = False, ap_require_min = 1, ap_require_max = 1, ap_subs = subs, ap_parsed = 0,
      ap_parsed_subs = [], ap_missing = []\<rparr>"

definition main_table :: "bool \<Rightarrow> strtold_fn \<Rightarrow> cli apps" where
  "main_table ENABLE_FILE_TRANSFER strtold =
     [root_node (if ENABLE_FILE_TRANSFER then [1, 2, 3, 4] else [1, 2, 3]),
      sub_node ''generate'' (generate_options strtold) [],
      sub_node ''receive'' (options_of (help_decls @ receive_decls)) [],
      sub_node ''route'' (options_of (help_decls @ route_decls)) []] @
     (if ENABLE_FILE_TRANSFER then
        [sub_node ''file'' (options_of help_decls) [5, 6, 7],
         sub_node ''send'' (options_of (help_decls @ file_send_decls)) [],
         sub_node ''receive'' (options_of (help_decls @ file_receive_decls)) [],
         sub_node ''forward'' (options_of (help_decls @ forward_decls)) []]
      else [])"

lemma command_names:
  "valid_name_string ''generate''" "valid_name_string ''receive''" "valid_name_string ''route''" "valid_name_string ''file''"
  "valid_name_string ''send''" "valid_name_string ''forward''"
  by code_simp+

lemma main_apps_table: "main_apps ENABLE_FILE_TRANSFER strtold = Inr (main_table ENABLE_FILE_TRANSFER strtold)"
  by (cases ENABLE_FILE_TRANSFER)
     (simp_all add: main_apps_def and_then_def root_app_def add_subcommand_def command_names add_other_decls add_generate_decls
       main_table_def root_node_def sub_node_def upd_app_def nth_append)

definition unambiguous :: "'c app_node \<Rightarrow> bool" where
  "unambiguous a \<longleftrightarrow> distinct (concat (map op_lnames (ap_options a))) \<and> distinct (concat (map op_snames (ap_options a)))"

text \<open>The declarations of the program are consistent: no declared name is malformed, no two commands of one
  level share a name and every unit table is accepted, so that building the command line raises nothing, with
  and without the file commands; and a long or short name of a command selects one option of it.\<close>

lemma main_apps_ok:
  "main_apps ENABLE_FILE_TRANSFER strtold = Inr (main_table ENABLE_FILE_TRANSFER strtold) \<and>
   list_all unambiguous (main_table ENABLE_FILE_TRANSFER strtold)"
proof -
  have "distinct (concat (map op_lnames (options_of ds))) \<and> distinct (concat (map op_snames (options_of ds)))"
    if "ds \<in> {root_decls, help_decls @ receive_decls, help_decls @ route_decls, help_decls, help_decls @ file_send_decls,
      help_decls @ file_receive_decls, help_decls @ forward_decls}" for ds
    using that by (auto simp: options_of_def root_decls_def receive_decls_def route_decls_def file_send_decls_def
        file_receive_decls_def forward_decls_def decl_simps)
  then show ?thesis
    by (simp add: main_apps_table main_table_def unambiguous_def root_node_def sub_node_def generate_options_def)
qed

subsection \<open>The command line of a generate command\<close>

text \<open>The arguments that ask for a configuration; \<open>loss\<close> is a text for the loss rate, which \<^verbatim>\<open>strtold\<close> reads.\<close>

definition generate_args :: "generate_config \<Rightarrow> string \<Rightarrow> string list \<Rightarrow> string list" where
  "generate_args cfg loss urls =
     ''generate'' # urls @
     [''--msgsize'', int_to_string (gn_message_size cfg), ''--sendrate'', int_to_string (gn_sendrate cfg),
      ''--num'', int_to_string (gn_num_messages cfg), ''--duration'', int_to_string (gn_duration cfg)] @
     (if gn_two_way cfg then [''--twoway''] else []) @
     [if gn_reconnect cfg then ''--reconnect'' else ''--no-reconnect'',
      if gn_close_listener cfg then ''--close-listener'' else ''--no-close-listener'', ''--lossrate'', loss]"

definition generate_results :: "generate_config \<Rightarrow> string \<Rightarrow> string list \<Rightarrow> nat \<Rightarrow> string list" where
  "generate_results cfg loss urls =
     (\<lambda>_. [])(2 := urls, 3 := [int_to_string (gn_message_size cfg)], 4 := [int_to_string (gn_sendrate cfg)],
        5 := [int_to_string (gn_num_messages cfg)], 6 := [int_to_string (gn_duration cfg)],
        7 := (if gn_two_way cfg then [''true''] else []), 8 := [if gn_reconnect cfg then ''true'' else ''false''],
        9 := [if gn_close_listener cfg then ''true'' else ''false''], 10 := [loss])"

text \<open>The apps once the subcommand was entered.\<close>

definition generate_entered :: "bool \<Rightarrow> strtold_fn \<Rightarrow> cli apps" where
  "generate_entered ft strtold =
     (main_table ft strtold)
       [0 := (root_node (if ft then [1, 2, 3, 4] else [1, 2, 3]))\<lparr>ap_parsed := 1, ap_parsed_subs := [1]\<rparr>,
        1 := (sub_node ''generate'' (generate_options strtold) [])\<lparr>ap_parsed := 1\<rparr>]"

lemma with_no_results:
  assumes "i < length apps" and "list_all (\<lambda>p. op_results p = []) (ap_options (apps ! i))"
  shows "with_results i (\<lambda>_. []) apps = apps"
proof -
  have "map (\<lambda>k. (ap_options (apps ! i) ! k)\<lparr>op_results := []\<rparr>) [0..<length (ap_options (apps ! i))] = ap_options (apps ! i)"
  proof (rule nth_equalityI)
    fix k assume "k < length (map (\<lambda>k. (ap_options (apps ! i) ! k)\<lparr>op_results := []\<rparr>) [0..<length (ap_options (apps ! i))])"
    then have k: "k < length (ap_options (apps ! i))" by simp
    with assms(2) have "op_results (ap_options (apps ! i) ! k) = []" by (simp add: list_all_length)
    then have "(ap_options (apps ! i) ! k)\<lparr>op_results := []\<rparr> = ap_options (apps ! i) ! k" by (simp add: cli_option.equality)
    with k show "map (\<lambda>k. (ap_options (apps ! i) ! k)\<lparr>op_results := []\<rparr>) [0..<length (ap_options (apps ! i))] ! k = ap_options (apps ! i) ! k"
      by simp
  qed simp
  then show ?thesis using assms(1) by (simp add: with_results_def upd_app_def app_node.equality)
qed

lemma generate_entered_facts:
  "1 < length (generate_entered ft strtold)"
  "generate_entered ft strtold ! 1 = (sub_node ''generate'' (generate_options strtold) [])\<lparr>ap_parsed := 1\<rparr>"
  "\<not> valid_subcommand (generate_entered ft strtold) [1, 0] x True"
  "open_positional (generate_entered ft strtold ! 1) 2"
  by (auto simp: generate_entered_def main_table_def sub_node_def root_node_def subcommands_full_def find_subcommand_def
      open_positional_def generate_options_def)

lemma enter_generate:
  "parse_loop (Suc m) (increment_parsed 0 (main_table ft strtold)) [([0], False)] (''generate'' # args) =
   parse_loop m (with_results 1 (\<lambda>_. []) (generate_entered ft strtold)) [([1, 0], False), ([0], False)] args"
proof -
  have w: "with_results 1 (\<lambda>_. []) (generate_entered ft strtold) = generate_entered ft strtold"
    by (rule with_no_results) (simp_all add: generate_entered_facts(1,2)[simplified] sub_node_def generate_options_def)
  show ?thesis
    unfolding w
    by (auto simp: parse_single_def recognize_def increment_parsed_def upd_app_def main_table_def root_node_def sub_node_def
        subcommands_full_def find_subcommand_def parse_subcommand_def generate_entered_def)
qed

lemma generate_names:
  "find_index (has_name LONG ''msgsize'') (generate_options strtold) = Some 3"
  "find_index (has_name LONG ''sendrate'') (generate_options strtold) = Some 4"
  "find_index (has_name LONG ''num'') (generate_options strtold) = Some 5"
  "find_index (has_name LONG ''duration'') (generate_options strtold) = Some 6"
  "find_index (has_name LONG ''twoway'') (generate_options strtold) = Some 7"
  "find_index (has_name LONG ''reconnect'') (generate_options strtold) = Some 8"
  "find_index (has_name LONG ''no-reconnect'') (generate_options strtold) = Some 8"
  "find_index (has_name LONG ''close-listener'') (generate_options strtold) = Some 9"
  "find_index (has_name LONG ''no-close-listener'') (generate_options strtold) = Some 9"
  "find_index (has_name LONG ''lossrate'') (generate_options strtold) = Some 10"
  by (simp_all add: find_index_def generate_options_def has_name_def upt_rec)

lemma generate_long_names:
  "long_name ''msgsize''" "long_name ''sendrate''" "long_name ''num''" "long_name ''duration''" "long_name ''twoway''"
  "long_name ''reconnect''" "long_name ''no-reconnect''" "long_name ''close-listener''" "long_name ''no-close-listener''"
  "long_name ''lossrate''"
  by code_simp+

lemma generate_option_kinds:
  "length (generate_options strtold) = 11"
  "scalar_option (generate_options strtold ! 3)" "scalar_option (generate_options strtold ! 4)"
  "scalar_option (generate_options strtold ! 5)" "scalar_option (generate_options strtold ! 6)"
  "scalar_option (generate_options strtold ! 10)"
  "flag_option (generate_options strtold ! 7)" "flag_option (generate_options strtold ! 8)" "flag_option (generate_options strtold ! 9)"
  "get_flag_value (generate_options strtold ! 7) ''twoway'' '''' = Inr ''true''"
  "get_flag_value (generate_options strtold ! 8) ''reconnect'' '''' = Inr ''true''"
  "get_flag_value (generate_options strtold ! 8) ''no-reconnect'' '''' = Inr ''false''"
  "get_flag_value (generate_options strtold ! 9) ''close-listener'' '''' = Inr ''true''"
  "get_flag_value (generate_options strtold ! 9) ''no-close-listener'' '''' = Inr ''false''"
  by (simp_all add: generate_options_def get_flag_value_def)

lemma generate_entered_options: "ap_options (generate_entered ft strtold ! 1) = generate_options strtold"
  by (simp add: generate_entered_facts(2)[simplified] sub_node_def)

lemma generate_value_steps:
  assumes "(n, k) \<in> {(''msgsize'', 3), (''sendrate'', 4), (''num'', 5), (''duration'', 6), (''lossrate'', 10)}"
  shows "parse_loop (Suc m) (with_results 1 res (generate_entered ft strtold)) [([1, 0], False), ([0], False)] ((''--'' @ n) # x # args) =
    parse_loop m (with_results 1 (res(k := res k @ [x])) (generate_entered ft strtold)) [([1, 0], False), ([0], False)] args"
proof (rule parse_loop_value)
  show "find_index (has_name LONG n) (ap_options (generate_entered ft strtold ! 1)) = Some k" "long_name n"
    "k < length (ap_options (generate_entered ft strtold ! 1))" "scalar_option (ap_options (generate_entered ft strtold ! 1) ! k)"
    unfolding generate_entered_options using assms by (auto simp: generate_names generate_long_names generate_option_kinds)
qed (rule generate_entered_facts)+

lemma generate_flag_steps:
  assumes "(n, k, fv) \<in> {(''twoway'', 7, ''true''), (''reconnect'', 8, ''true''), (''no-reconnect'', 8, ''false''),
    (''close-listener'', 9, ''true''), (''no-close-listener'', 9, ''false'')}"
  shows "parse_loop (Suc m) (with_results 1 res (generate_entered ft strtold)) [([1, 0], False), ([0], False)] ((''--'' @ n) # args) =
    parse_loop m (with_results 1 (res(k := res k @ [fv])) (generate_entered ft strtold)) [([1, 0], False), ([0], False)] args"
proof (rule parse_loop_flag)
  show "find_index (has_name LONG n) (ap_options (generate_entered ft strtold ! 1)) = Some k" "long_name n"
    "k < length (ap_options (generate_entered ft strtold ! 1))" "flag_option (ap_options (generate_entered ft strtold ! 1) ! k)"
    "get_flag_value (ap_options (generate_entered ft strtold ! 1) ! k) n '''' = Inr fv"
    unfolding generate_entered_options using assms by (auto simp: generate_names generate_long_names generate_option_kinds)
qed (rule generate_entered_facts)+

lemma parse_generate_args:
  assumes "list_all plain_arg urls"
  shows "\<exists>n. parse_loop n (increment_parsed 0 (main_table ft strtold)) [([0], False)] (generate_args cfg loss urls) =
    Some (Inr (with_results 1 (generate_results cfg loss urls) (generate_entered ft strtold)))"
proof -
  define W where "W = (\<lambda>res. with_results 1 res (generate_entered ft strtold))"
  define F :: frames where "F = [([1, 0], False), ([0], False)]"
  have v: "parse_loop (Suc m) (W res) F (''--msgsize'' # x # args) = parse_loop m (W (res(3 := res 3 @ [x]))) F args"
    "parse_loop (Suc m) (W res) F (''--sendrate'' # x # args) = parse_loop m (W (res(4 := res 4 @ [x]))) F args"
    "parse_loop (Suc m) (W res) F (''--num'' # x # args) = parse_loop m (W (res(5 := res 5 @ [x]))) F args"
    "parse_loop (Suc m) (W res) F (''--duration'' # x # args) = parse_loop m (W (res(6 := res 6 @ [x]))) F args"
    "parse_loop (Suc m) (W res) F (''--lossrate'' # x # args) = parse_loop m (W (res(10 := res 10 @ [x]))) F args" for m res x args
    unfolding W_def F_def
    by (rule generate_value_steps[of "''msgsize''" 3, unfolded append_Cons append_Nil]
             generate_value_steps[of "''sendrate''" 4, unfolded append_Cons append_Nil]
             generate_value_steps[of "''num''" 5, unfolded append_Cons append_Nil]
             generate_value_steps[of "''duration''" 6, unfolded append_Cons append_Nil]
             generate_value_steps[of "''lossrate''" 10, unfolded append_Cons append_Nil]; simp)+
  have f: "parse_loop (Suc m) (W res) F (''--twoway'' # args) = parse_loop m (W (res(7 := res 7 @ [''true'']))) F args"
    "parse_loop (Suc m) (W res) F (''--reconnect'' # args) = parse_loop m (W (res(8 := res 8 @ [''true'']))) F args"
    "parse_loop (Suc m) (W res) F (''--no-reconnect'' # args) = parse_loop m (W (res(8 := res 8 @ [''false'']))) F args"
    "parse_loop (Suc m) (W res) F (''--close-listener'' # args) = parse_loop m (W (res(9 := res 9 @ [''true'']))) F args"
    "parse_loop (Suc m) (W res) F (''--no-close-listener'' # args) = parse_loop m (W (res(9 := res 9 @ [''false'']))) F args" for m res args
    unfolding W_def F_def
    by (rule generate_flag_steps[of "''twoway''" 7 "''true''", unfolded append_Cons append_Nil]
             generate_flag_steps[of "''reconnect''" 8 "''true''", unfolded append_Cons append_Nil]
             generate_flag_steps[of "''no-reconnect''" 8 "''false''", unfolded append_Cons append_Nil]
             generate_flag_steps[of "''close-listener''" 9 "''true''", unfolded append_Cons append_Nil]
             generate_flag_steps[of "''no-close-listener''" 9 "''false''", unfolded append_Cons append_Nil]; simp)+
  have e: "parse_loop (Suc (Suc (Suc m))) apps F [] = Some (Inr apps)" for m and apps :: "cli apps"
    by (simp add: F_def)
  have u: "parse_loop (length urls + m) (W res) F (urls @ args) = parse_loop m (W (res(2 := res 2 @ urls))) F args" for m res args
    unfolding W_def F_def
    by (rule parse_loop_positionals) (use assms generate_entered_facts in auto)
  have en: "parse_loop (Suc m) (increment_parsed 0 (main_table ft strtold)) [([0], False)] (''generate'' # args) =
    parse_loop m (W (\<lambda>_. [])) F args" for m args
    unfolding W_def F_def by (rule enter_generate)
  let ?n = "Suc (length urls + Suc (Suc (Suc (Suc (if gn_two_way cfg then Suc (Suc (Suc (Suc (Suc (Suc (Suc 0)))))) else Suc (Suc (Suc (Suc (Suc (Suc 0))))))))))"
  have "parse_loop ?n (increment_parsed 0 (main_table ft strtold)) [([0], False)] (generate_args cfg loss urls) =
    Some (Inr (W (generate_results cfg loss urls)))"
    unfolding generate_args_def en u
    by (cases "gn_two_way cfg"; cases "gn_reconnect cfg"; cases "gn_close_listener cfg")
       (simp_all add: v f e generate_results_def fun_upd_idem del: parse_loop.simps)
  then show ?thesis unfolding W_def by blast
qed

subsection \<open>Running the callbacks\<close>

lemma run_callbacks_append:
  "run_callbacks (xs @ ys) c = (case run_callbacks xs c of (c, Some e) \<Rightarrow> (c, Some e) | (c, None) \<Rightarrow> run_callbacks ys c)"
  by (induction xs arbitrary: c) (simp_all split: sum.splits)

lemma run_callbacks_empty: "list_all (\<lambda>p. op_results p = []) ps \<Longrightarrow> run_callbacks ps c = (c, None)"
  by (induction ps) simp_all

lemma make_decl_results: "make_decl d = Inr p \<Longrightarrow> op_results p = []"
  by (cases d) (auto simp: Option_ctor_def make_option_def make_flag_def expected_def Let_def
      split: sum.splits prod.splits option.splits if_splits)

lemma add_decls_results:
  "add_decls ds ps = Inr qs \<Longrightarrow> list_all (\<lambda>p. op_results p = []) ps \<Longrightarrow> list_all (\<lambda>p. op_results p = []) qs"
proof (induction ds arbitrary: ps)
  case (Cons d ds)
  then show ?case
    by (auto simp: add_option_def make_decl_results split: sum.splits if_splits)
qed simp

lemma options_of_results: "list_all (\<lambda>p. op_results p = []) (options_of ds)"
  using add_decls_results[of ds "[]"] by (auto simp: options_of_def split: sum.splits)

lemma run_scalar:
  "run_callback ((scalar_opt ls p [] (Some cb))\<lparr>op_results := [v]\<rparr>) c =
     (case cb [v] c of Cb_true c \<Rightarrow> Inr c | Cb_false \<Rightarrow> Inl (Conversion_error p) | Cb_throws e \<Rightarrow> Inl e)"
  "AsNumberWithUnit m v = Inr v' \<Longrightarrow>
   run_callback ((scalar_opt ls p [AsNumberWithUnit m] (Some cb))\<lparr>op_results := [v]\<rparr>) c =
     (case cb [v'] c of Cb_true c \<Rightarrow> Inr c | Cb_false \<Rightarrow> Inl (Conversion_error p) | Cb_throws e \<Rightarrow> Inl e)"
  by (simp_all add: run_callback_def scalar_opt_def validate_result_def reduce_results_def split: callback_result.split)

lemma run_flag:
  "run_callback ((flag_opt ss ls fs (Some cb) Take_last)\<lparr>op_results := [v]\<rparr>) c =
     (case cb [v] c of Cb_true c \<Rightarrow> Inr c | Cb_false \<Rightarrow> Inl (Conversion_error '''') | Cb_throws e \<Rightarrow> Inl e)"
  by (simp add: run_callback_def flag_opt_def validate_result_def reduce_results_def split: callback_result.split)

lemma validate_no_validators: "op_validators p = [] \<Longrightarrow> validate_results p rs = Inr rs"
  by (induction rs) (simp_all add: validate_result_def)

lemma run_container:
  assumes "vs \<noteq> []" and "int (length vs) \<le> expected_max_vector_size"
  shows "run_callback ((container_opt ss ls p (strings_var set_var))\<lparr>op_results := vs\<rparr>) c = Inr (set_var vs c)"
proof -
  let ?p = "(container_opt ss ls p (strings_var set_var))\<lparr>op_results := vs\<rparr>"
  have "validate_results ?p vs = Inr vs" by (rule validate_no_validators) (simp add: container_opt_def)
  with assms show ?thesis
    by (cases vs) (simp_all add: run_callback_def container_opt_def reduce_results_def strings_var_def)
qed

lemma plain_number:
  assumes "in_int 32 i"
  shows "AsNumberWithUnit m (int_to_string i) = Inr (int_to_string i)"
proof -
  have "rtrim (int_to_string i @ []) = int_to_string i"
    by (rule rtrim_append) (simp_all add: int_to_string_nonempty int_to_string_ends)
  moreover have "rev (takeWhile isalpha (rev (int_to_string i @ []))) = []"
    by (rule unit_suffix) (simp_all add: int_to_string_ends)
  moreover have "trim (int_to_string i) = int_to_string i" using trim_int_to_string[of "[]" "[]" i] by simp
  ultimately show ?thesis
    by (simp add: AsNumberWithUnit_def int_to_string_nonempty integral_conversion_int_to_string assms)
qed

lemma run_int_var: "in_int 32 i \<Longrightarrow> int_var set_var [int_to_string i] c = Cb_true (set_var i c)"
  by (simp add: int_var_def assign_def lexical_assign_def int_to_string_nonempty integral_conversion_int_to_string)

lemma run_bool_flag: "bool_flag set_var [''true''] c = Cb_true (set_var True c)" "bool_flag set_var [''false''] c = Cb_true (set_var False c)"
  by (simp_all add: bool_flag_def assign_def lexical_cast_bool_def to_flag_value_def)

lemma run_double_var:
  "loss \<noteq> [] \<Longrightarrow> strtold loss = Some (v, []) \<Longrightarrow> double_var strtold set_var [loss] c = Cb_true (set_var v c)"
  by (simp add: double_var_def assign_def lexical_assign_def lexical_cast_double_def)

definition configured :: "generate_config \<Rightarrow> string list \<Rightarrow> cli" where
  "configured cfg urls =
     cli0\<lparr>cl_dst_urls := urls,
       cfg_generate := generate_config0\<lparr>gn_message_size := gn_message_size cfg, gn_sendrate := gn_sendrate cfg,
         gn_num_messages := gn_num_messages cfg, gn_duration := gn_duration cfg, gn_two_way := gn_two_way cfg,
         gn_reconnect := gn_reconnect cfg, gn_close_listener := gn_close_listener cfg, gn_lossRate := gn_lossRate cfg\<rparr>\<rparr>"

text \<open>The fields for which \<^verbatim>\<open>generate\<close> declares no option have their initial values.\<close>

definition unreachable_fields :: "generate_config \<Rightarrow> bool" where
  "unreachable_fields cfg \<longleftrightarrow>
     stats_freq_ms cfg = stats_freq_ms generate_config0 \<and> stats_file cfg = stats_file generate_config0 \<and>
     stats_format cfg = stats_format generate_config0 \<and> gn_enable_metrics cfg = gn_enable_metrics generate_config0 \<and>
     gn_spin_wait cfg = gn_spin_wait generate_config0 \<and> gn_playback_csv cfg = gn_playback_csv generate_config0"

lemma configured_exact: "unreachable_fields cfg \<Longrightarrow> configured cfg urls = cli0\<lparr>cl_dst_urls := urls, cfg_generate := cfg\<rparr>"
  by (cases cfg) (simp add: configured_def unreachable_fields_def generate_config0_def)

definition int_fields :: "generate_config \<Rightarrow> bool" where
  "int_fields cfg \<longleftrightarrow> in_int 32 (gn_message_size cfg) \<and> in_int 32 (gn_sendrate cfg) \<and> in_int 32 (gn_num_messages cfg) \<and>
     in_int 32 (gn_duration cfg)"

lemma run_generate_callbacks:
  assumes "int_fields cfg" and "urls \<noteq> []" and "int (length urls) \<le> expected_max_vector_size"
    and "loss \<noteq> []" and "strtold loss = Some (gn_lossRate cfg, [])"
  shows "run_callbacks (ap_options (with_results 1 (generate_results cfg loss urls) (generate_entered ft strtold) ! 1)) cli0 =
    (configured cfg urls, None)"
proof -
  have o: "ap_options (with_results 1 res (generate_entered ft strtold) ! 1) =
    map (\<lambda>k. (generate_options strtold ! k)\<lparr>op_results := res k\<rparr>) [0..<11]" for res
    using generate_entered_facts(1)[of ft strtold]
    by (simp add: with_results_node generate_entered_options[simplified] generate_option_kinds)
  have l: "[0..<11] = [0, 1, 2, 3, 4, 5, 6, 7, 8, 9, 10::nat]" by (simp add: upt_rec)
  have i: "in_int 32 (gn_message_size cfg)" "in_int 32 (gn_sendrate cfg)" "in_int 32 (gn_num_messages cfg)" "in_int 32 (gn_duration cfg)"
    using assms(1) by (simp_all add: int_fields_def)
  note run = run_scalar run_flag run_container[OF assms(2,3)] plain_number[OF i(2)] plain_number[OF i(4)]
    run_int_var[OF i(1)] run_int_var[OF i(2)] run_int_var[OF i(3)] run_int_var[OF i(4)] run_bool_flag
    run_double_var[of loss strtold, OF assms(4,5)]
  show ?thesis
    unfolding o l
    by (cases "gn_two_way cfg"; cases "gn_reconnect cfg"; cases "gn_close_listener cfg")
       (use assms(2) in \<open>simp_all add: generate_options_def generate_results_def run configured_def set_gen_def cli0_def generate_config0_def\<close>)
qed

lemma preorder_with_results:
  "i < length apps \<Longrightarrow> preorder n (\<lambda>a. Q (ap_parsed a)) (with_results i res apps) j = preorder n (\<lambda>a. Q (ap_parsed a)) apps j"
  by (induction n arbitrary: j) (simp_all add: with_results_fields cong: map_cong)

lemma generate_preorder:
  "length (generate_entered ft strtold) = (if ft then 8 else 4)"
  "preorder (if ft then 8 else 4) (\<lambda>_. True) (generate_entered ft strtold) 0 = 0 # 1 # (if ft then [2, 3, 4, 5, 6, 7] else [2, 3])"
  "preorder (if ft then 8 else 4) (\<lambda>a. 0 < ap_parsed a) (generate_entered ft strtold) 0 = [0, 1]"
  by (cases ft; simp add: generate_entered_def main_table_def root_node_def sub_node_def numeral_eq_Suc)+

lemma root_options_length: "length (options_of root_decls) = 8"
  by (simp add: options_of_def root_decls_def decl_simps)

lemma process_generate:
  assumes "int_fields cfg" and "urls \<noteq> []" and "int (length urls) \<le> expected_max_vector_size"
    and "loss \<noteq> []" and "strtold loss = Some (gn_lossRate cfg, [])"
  shows "process_apps (with_results 1 (generate_results cfg loss urls) (generate_entered ft strtold)) cli0 = (configured cfg urls, None)"
proof -
  define A where "A = with_results 1 (generate_results cfg loss urls) (generate_entered ft strtold)"
  have l: "1 < length (generate_entered ft strtold)" by (rule generate_entered_facts)
  have others: "list_all (\<lambda>p. op_results p = []) (ap_options (A ! j))" if "j \<noteq> 1" "j < length A" for j
  proof -
    have "A ! j = generate_entered ft strtold ! j" using that(1) l by (simp add: A_def with_results_node)
    with that show ?thesis
      by (auto simp: generate_entered_def main_table_def sub_node_def root_node_def options_of_results A_def with_results_def upd_app_def
          nth_Cons nth_append split: nat.splits if_splits)
  qed
  have len: "length A = (if ft then 8 else 4)" unfolding A_def using with_results_fields(1)[OF l] generate_preorder(1) by simp
  have pre: "preorder (length A) (\<lambda>_. True) A 0 = 0 # 1 # (if ft then [2, 3, 4, 5, 6, 7] else [2, 3])"
    unfolding len unfolding A_def using preorder_with_results[OF l, of _ "\<lambda>_. True"] generate_preorder(2) by simp
  have cb: "process_callbacks A cli0 = (configured cfg urls, None)"
    using run_generate_callbacks[of cfg urls loss strtold ft, OF assms, folded A_def] others
    unfolding process_callbacks_def pre by (cases ft) (simp_all add: run_callbacks_append run_callbacks_empty len)
  have "A ! 0 = generate_entered ft strtold ! 0" using l by (simp add: A_def with_results_node)
  then have n0: "A ! 0 = (root_node (if ft then [1, 2, 3, 4] else [1, 2, 3]))\<lparr>ap_parsed := 1, ap_parsed_subs := [1]\<rparr>"
    by (simp add: generate_entered_def main_table_def)
  have root: "ap_config (A ! 0) = Some 1" "ap_options (A ! 0) = options_of root_decls" "ap_help (A ! 0) = Some 0"
    "ap_help_all (A ! 0) = Some 2" "ap_parsed_subs (A ! 0) = [1]" "ap_require_min (A ! 0) = 1" "ap_missing (A ! 0) = []"
    by (simp_all add: n0 root_node_def)
  have gen: "ap_parsed_subs (A ! 1) = []" "ap_help (A ! 1) = Some 0" "ap_help_all (A ! 1) = Some 1"
    "ap_require_min (A ! 1) = 0" "ap_missing (A ! 1) = []" "op_results (ap_options (A ! 1) ! 0) = []" "op_results (ap_options (A ! 1) ! 1) = []"
    using generate_entered_facts(2)[of ft strtold] generate_entered_options[of ft strtold] generate_option_kinds(1)[of strtold]
    by (simp_all add: A_def with_results_fields[OF l] with_results_option[OF l] sub_node_def generate_results_def del: One_nat_def)
  have r: "op_results (options_of root_decls ! k) = []" if "k < 8" for k
    using options_of_results[of root_decls] that by (simp add: list_all_length root_options_length)
  have nohelp: "process_help_flags (length A) A 0 False False = None"
    unfolding len by (simp add: numeral_eq_Suc Let_def root gen[simplified] flag_given_def r)
  have pp: "preorder (length A) (\<lambda>a. 0 < ap_parsed a) A 0 = [0, 1]"
    unfolding len unfolding A_def using preorder_with_results[OF l, of _ "\<lambda>n. 0 < n"] generate_preorder(3) by simp
  show ?thesis
    unfolding A_def[symmetric]
    unfolding process_apps_def process_requirements_def process_extras_def pp
    by (simp add: config_files_def root r cb nohelp gen[simplified])
qed

text \<open>C15: the command line of a generate command is read back exactly. Arguments that name destinations and the
  values of a configuration, the loss rate as any text that \<^verbatim>\<open>strtold\<close> reads completely as that rate, make
  the program run the generate command with those destinations and with exactly that configuration; nothing is
  raised and no exit code is set. The integers must fit 32 bits, the fields for which no option is declared
  (statistics, metrics, spin wait and playback) must have their initial values, and the destinations must not look like options or lists.\<close>

theorem generate_command_line:
  assumes "int_fields cfg" and "urls \<noteq> []" and "int (length urls) \<le> expected_max_vector_size" and "list_all plain_arg urls"
    and "loss \<noteq> []" and "strtold loss = Some (gn_lossRate cfg, [])" and "unreachable_fields cfg"
  shows "command_line ENABLE_FILE_TRANSFER strtold (generate_args cfg loss urls) =
    (cli0\<lparr>sc_generate := True, cl_dst_urls := urls, cfg_generate := cfg\<rparr>, None)"
proof -
  let ?A = "with_results 1 (generate_results cfg loss urls) (generate_entered ENABLE_FILE_TRANSFER strtold)"
  obtain n where "parse_loop n (increment_parsed 0 (main_table ENABLE_FILE_TRANSFER strtold)) [([0], False)] (generate_args cfg loss urls) =
    Some (Inr ?A)" using parse_generate_args[OF assms(4)] by blast
  from cli_parse_loop[OF this] process_generate[of cfg urls loss strtold, OF assms(1-3,5,6)]
  have c: "cli_parse (main_table ENABLE_FILE_TRANSFER strtold) cli0 (generate_args cfg loss urls) = (configured cfg urls, Inr ?A)"
    by (simp add: cli_parse_def)
  have p: "is_parsed ?A j \<longleftrightarrow> j < length (generate_entered ENABLE_FILE_TRANSFER strtold) \<and> 0 < ap_parsed (generate_entered ENABLE_FILE_TRANSFER strtold ! j)" for j
    unfolding is_parsed_def with_results_fields[OF generate_entered_facts(1)] by (rule refl)
  have "is_parsed ?A 1" "\<not> is_parsed ?A 2" "\<not> is_parsed ?A 3" "\<not> is_parsed ?A 5" "\<not> is_parsed ?A 6" "\<not> is_parsed ?A 7"
    unfolding p by (simp_all add: generate_entered_def main_table_def sub_node_def)
  with c show ?thesis
    unfolding command_line_def main_apps_table set_parsed_def configured_exact[OF assms(7)] by (simp add: cli0_def del: One_nat_def)
qed

definition sample_generate :: generate_config where
  "sample_generate = generate_config0\<lparr>gn_sendrate := 5000, gn_num_messages := 20, gn_reconnect := True, gn_lossRate := 1 / 4\<rparr>"

text \<open>A number reader that knows one number.\<close>

definition reads_quarter :: strtold_fn where
  "reads_quarter s = (if s = ''0.25'' then Some (1 / 4, []) else None)"

theorem generate_command_line_witness:
  "command_line True reads_quarter (generate_args sample_generate ''0.25'' [''srt://a:1'', ''srt://b:2'']) =
     (cli0\<lparr>sc_generate := True, cl_dst_urls := [''srt://a:1'', ''srt://b:2''], cfg_generate := sample_generate\<rparr>, None) \<and>
   take 4 (generate_args sample_generate ''0.25'' [''srt://a:1'', ''srt://b:2'']) = [''generate'', ''srt://a:1'', ''srt://b:2'', ''--msgsize'']"
proof
  show "command_line True reads_quarter (generate_args sample_generate ''0.25'' [''srt://a:1'', ''srt://b:2'']) =
     (cli0\<lparr>sc_generate := True, cl_dst_urls := [''srt://a:1'', ''srt://b:2''], cfg_generate := sample_generate\<rparr>, None)"
    by (rule generate_command_line)
      (simp_all add: int_fields_def in_int_def sample_generate_def generate_config0_def plain_arg_def expected_max_vector_size_def
        reads_quarter_def unreachable_fields_def)
qed (simp add: generate_args_def)

subsection \<open>Values that are not what they seem\<close>

lemma unsigned_conversion_negative:
  assumes "0 < n" "n < 2 ^ 64"
  shows "unsigned_conversion 64 (int_to_string (- int n)) = Some (2 ^ 64 - n)"
proof -
  have "(- int n) mod 2 ^ 64 = 2 ^ 64 - int n"
    using assms by (subst zmod_zminus1_eq_if) (auto simp: of_nat_less_iff[symmetric] simp del: of_nat_less_iff)
  with assms show ?thesis
    by (simp add: unsigned_conversion_def int_to_string_nonempty strtol0_int_to_string nat_diff_distrib')
qed

text \<open>A negative segment size is accepted: \<^verbatim>\<open>--segment -n\<close> stores \<open>2 ^ 64 - n\<close> bytes as the size of the buffer, because
  \<^verbatim>\<open>strtoull\<close> negates modulo \<open>2 ^ 64\<close> and the range check of the conversion compares a 64-bit number with itself.\<close>

theorem segment_negative:
  assumes "0 < n" "n < 2 ^ 64"
  shows "run_callback ((options_of (help_decls @ file_send_decls) ! 5)\<lparr>op_results := [int_to_string (- int n)]\<rparr>) c =
    Inr (c\<lparr>cfg_file_send := (cfg_file_send c)\<lparr>fs_segment_size := 2 ^ 64 - n\<rparr>\<rparr>)"
proof -
  have "options_of (help_decls @ file_send_decls) ! 5 =
    scalar_opt [''segment''] '''' [] (Some (unsigned_var 64 (\<lambda>v. set_fs (\<lambda>r. r\<lparr>fs_segment_size := v\<rparr>))))"
    by (simp add: options_of_def file_send_decls_def decl_simps)
  with assms show ?thesis
    by (simp add: run_scalar unsigned_var_def assign_def lexical_assign_def int_to_string_nonempty
        unsigned_conversion_negative set_fs_def)
qed

theorem segment_negative_witness:
  "run_callback ((options_of (help_decls @ file_send_decls) ! 5)\<lparr>op_results := [''-1'']\<rparr>) cli0 =
    Inr (cli0\<lparr>cfg_file_send := (cfg_file_send cli0)\<lparr>fs_segment_size := 2 ^ 64 - 1\<rparr>\<rparr>)"
proof -
  have "int_to_string (- int 1) = ''-1''" by code_simp
  with segment_negative[of 1 cli0] show ?thesis by simp
qed

lemma split_long_value:
  assumes "long_name n"
  shows "split_long (''--'' @ n @ ''='' @ v) = Some (n, v)"
proof -
  have "find_char (CHR ''='') (''--'' @ n @ ''='' @ v) 0 = Some (length n + 2)"
    using assms unfolding find_char_Some long_name_def
    by (auto simp: nth_append nth_Cons split: nat.splits dest: nth_mem)
  with assms show ?thesis
    by (cases n) (simp_all add: split_long_def long_name_def substr_def)
qed

lemma root_verbose:
  "find_index (has_name LONG ''verbose'') (options_of root_decls) = Some 4"
  "options_of root_decls ! 4 = flag_opt [''v''] [''verbose''] [] (Some (function_flag (add_event Flag_verbose))) Take_all"
  by (simp_all add: options_of_def root_decls_def decl_simps find_index_def has_name_def upt_rec)

lemma not_a_command: "\<not> valid_subcommand (increment_parsed 0 (main_table ft strtold)) [0] (CHR ''-'' # s) used"
  by (auto simp: increment_parsed_def upd_app_def main_table_def root_node_def sub_node_def subcommands_full_def find_subcommand_def)

lemma parse_verbose_value:
  assumes "v \<noteq> []" "v \<noteq> ''{}''"
  shows "parse_loop 3 (increment_parsed 0 (main_table ft strtold)) [([0], False)] [''--verbose='' @ v] =
    Some (Inr (push_results 0 4 [v] (increment_parsed 0 (main_table ft strtold))))"
proof -
  let ?a = "increment_parsed 0 (main_table ft strtold)"
  have n: "long_name ''verbose''" by code_simp
  have s: "split_long (''--verbose='' @ v) = Some (''verbose'', v)" using split_long_value[OF n, of v] by simp
  have o: "ap_options (?a ! 0) = options_of root_decls" by (simp add: increment_parsed_def upd_app_def main_table_def root_node_def)
  have r: "recognize ?a [0] (''--verbose='' @ v) True = LONG"
    using s not_a_command[of ft strtold "''-verbose='' @ v" True] by (simp add: recognize_def del: valid_subcommand.simps)
  have "parse_found ?a [0] 4 ''verbose'' v '''' [] = Inr (push_results 0 4 [v] ?a, [])"
    using assms
    by (simp add: parse_found_def o root_verbose first_results_def option_max_def option_min_def get_flag_value_def opt_defs
        expected_max_vector_size_def add_result_plain optional_args_def default_results_def)
  then have "parse_arg ?a [0] LONG (''--verbose='' @ v) [] = Inr (push_results 0 4 [v] ?a, [])"
    using s by (simp add: split_arg_def o root_verbose)
  then show ?thesis
    using r by (simp add: numeral_eq_Suc parse_single_def)
qed

text \<open>C40: a value of \<^verbatim>\<open>--verbose\<close> that is no flag value kills the program: \<^verbatim>\<open>add_flag_function\<close> does not catch the exception of
  \<^verbatim>\<open>std::stoll\<close>, which is not a \<^verbatim>\<open>CLI::ParseError\<close> and leaves \<^verbatim>\<open>main\<close>. The flags with a variable report such a value as
  a conversion error.\<close>

theorem verbose_uncaught:
  assumes "to_flag_value v = Inl e" "v \<noteq> []" "v \<noteq> ''{}''"
    and "runs (program_main fuel fl ENABLE_FILE_TRANSFER unwinds names strtold [''--verbose='' @ v]) tr out"
  shows "out = Raised e"
proof -
  define A where "A = push_results 0 4 [v] (increment_parsed 0 (main_table ENABLE_FILE_TRANSFER strtold))"
  let ?os = "(options_of root_decls)[4 := (options_of root_decls ! 4)\<lparr>op_results := [v]\<rparr>]"
  have os: "ap_options (A ! 0) = ?os" "ap_config (A ! 0) = Some 1"
    by (simp_all add: A_def push_results_def upd_option_def upd_app_def increment_parsed_def main_table_def root_node_def root_verbose)
  have "length A \<noteq> 0"
    by (simp add: A_def push_results_def upd_option_def upd_app_def increment_parsed_def main_table_def)
  then obtain n where "length A = Suc n" by (cases "length A") auto
  then obtain js where pre: "preorder (length A) (\<lambda>_. True) A 0 = 0 # js" by simp
  have r: "list_all (\<lambda>p. op_results p = []) (take 4 (options_of root_decls))"
    using options_of_results[of root_decls] by (auto simp: list_all_iff dest: in_set_takeD)
  have sp: "?os = take 4 (options_of root_decls) @ (options_of root_decls ! 4)\<lparr>op_results := [v]\<rparr> # drop 5 (options_of root_decls)"
    by (simp add: upd_conv_take_nth_drop root_options_length)
  have cb: "run_callback ((options_of root_decls ! 4)\<lparr>op_results := [v]\<rparr>) cli0 = Inl (Std_exception e)"
    using assms(1,2)
    by (simp add: root_verbose run_callback_def flag_opt_def validate_result_def reduce_results_def function_flag_def)
  have "process_callbacks A cli0 = (cli0, Some (Std_exception e))"
    by (simp add: process_callbacks_def pre os sp run_callbacks_append run_callbacks_empty[OF r] cb)
  moreover have "config_files A = []"
    using options_of_results[of root_decls] by (simp add: config_files_def os list_all_length root_options_length)
  ultimately have "process_apps A cli0 = (cli0, Some (Std_exception e))" by (simp add: process_apps_def)
  with cli_parse_loop[OF parse_verbose_value[OF assms(2,3)]]
  have "command_line ENABLE_FILE_TRANSFER strtold [''--verbose='' @ v] = (cli0, Some e)"
    by (simp add: command_line_def main_apps_table cli_parse_def A_def)
  with assms(4) show ?thesis
    using returns_clock_type by (auto simp: program_main_def cli0_def runs_bindP_returns)
qed

theorem verbose_uncaught_witness:
  "snd (exec (program_main 1 fl0 True False [] (\<lambda>_. None) [''--verbose=maybe'']) (\<lambda>_ _. rint 1) []) = Raised (Invalid_argument ''stoi'')"
proof -
  have "to_flag_value ''maybe'' = Inl (Invalid_argument ''stoi'')" by code_simp
  from verbose_uncaught[OF this, of 1 fl0 True False "[]" "\<lambda>_. None", OF _ _ runs_exec] show ?thesis by simp
qed

end
