(* ===== verification/Samples.thy ===== *)
theory Samples
  imports CreateAddr
begin

text \<open>
  The two sample programs beside the tool, \<^verbatim>\<open>client/client.cpp\<close> and \<^verbatim>\<open>server/server.cpp\<close>: the client sends one
  fixed message a hundred times, the server accepts one caller and prints up to a hundred messages.
  What \<^verbatim>\<open>printf\<close> and \<^verbatim>\<open>fprintf\<close> write is a \<open>Print_line\<close> call. The address structure and the receive buffer are
  on the stack and not initialised: the bytes the structure starts with are the argument \<open>stack\<close>.
\<close>

definition usage_line :: "string list \<Rightarrow> string" where
  "usage_line argv = ''Usage: '' @ (case argv of [] \<Rightarrow> ''(null)'' | a # _ \<Rightarrow> a) @ '' <host> <port>''"

text \<open>\<^verbatim>\<open>fprintf(stderr, "srt_xxx: %s", srt_getlasterror_str()); return 1;\<close>\<close>

definition sample_error :: "string \<Rightarrow> int sprog" where
  "sample_error what =
     bindP (srt Srt_getlasterror_str) (\<lambda>m. bindP (os (Print_line (what @ r_str m))) (\<lambda>_. Ret 1))"

text \<open>\<^verbatim>\<open>sa\<close> after \<^verbatim>\<open>sin_family\<close>, \<^verbatim>\<open>sin_port\<close> and \<^verbatim>\<open>sin_addr\<close> are set; \<^verbatim>\<open>sin_zero\<close> is left as it was.\<close>

definition sample_sockaddr :: "byte list \<Rightarrow> string \<Rightarrow> byte list \<Rightarrow> byte list" where
  "sample_sockaddr stack port addr =
     poke 4 (take 4 addr) (poke 2 (be16 (atoi port mod 65536)) (poke 0 (le16 AF_INET) stack))"

subsection \<open>The client\<close>

definition message :: bytes where
  "message = ''This message should be sent to the other side'' @ [CHR 0x00]"

primrec client_messages :: "int \<Rightarrow> nat list \<Rightarrow> bool sprog" where
  "client_messages ss [] = Ret True"
| "client_messages ss (i # is) =
     bindP (os (Print_line (''srt sendmsg2 #'' @ nat_to_string i @ '' >> '' @ c_str message))) (\<lambda>_.
     bindP (srt (Srt_sendmsg2 ss message)) (\<lambda>st.
     if r_int st = SRT_ERROR then bindP (sample_error ''srt_sendmsg: '') (\<lambda>_. Ret False)
     else bindP (os (Sleep_for 1000)) (\<lambda>_. client_messages ss is)))"

definition client_close :: "int \<Rightarrow> int sprog" where
  "client_close ss =
     bindP (os (Print_line ''srt close'')) (\<lambda>_.
     bindP (srt (Srt_close ss)) (\<lambda>st.
     if r_int st = SRT_ERROR then sample_error ''srt_close: ''
     else
       bindP (os (Print_line ''srt cleanup'')) (\<lambda>_.
       bindP (srt Srt_cleanup) (\<lambda>_. Ret 0))))"

definition client_connected :: "int \<Rightarrow> int sprog" where
  "client_connected ss =
     bindP (client_messages ss [0..<100]) (\<lambda>sent.
     if \<not> sent then Ret 1
     else bindP (os (Sleep_for 1000000)) (\<lambda>_. client_close ss))"

definition client_connect :: "int \<Rightarrow> byte list \<Rightarrow> int sprog" where
  "client_connect ss sa =
     bindP (os (Print_line ''srt setsockflag'')) (\<lambda>_.
     bindP (srt (Srt_setsockopt ss SRTO_SENDER (OV_int 1))) (\<lambda>f.
     if r_int f = SRT_ERROR then sample_error ''srt_setsockflag: ''
     else
       bindP (os (Print_line ''srt connect'')) (\<lambda>_.
       bindP (srt (Srt_connect ss sa (int sizeof_sin))) (\<lambda>st.
       if r_int st = SRT_ERROR then sample_error ''srt_connect: ''
       else client_connected ss))))"

definition client_main :: "byte list \<Rightarrow> string list \<Rightarrow> int sprog" where
  "client_main stack argv =
     (if length argv \<noteq> 3 then bindP (os (Print_line (usage_line argv))) (\<lambda>_. Ret 1)
      else
        bindP (os (Print_line ''srt startup'')) (\<lambda>_.
        bindP (srt Srt_startup) (\<lambda>_.
        bindP (os (Print_line ''srt socket'')) (\<lambda>_.
        bindP (srt Srt_create_socket) (\<lambda>s.
        if r_int s = SRT_ERROR then sample_error ''srt_socket: ''
        else
          bindP (os (Print_line ''srt remote address'')) (\<lambda>_.
          bindP (os (Inet_pton AF_INET (argv ! 1))) (\<lambda>a.
          if r_int a \<noteq> 1 then Ret 1
          else client_connect (r_int s) (sample_sockaddr stack (argv ! 2) (r_raw a)))))))))"

subsection \<open>The server\<close>

text \<open>\<^verbatim>\<open>%s\<close> prints the buffer up to its first null character; without one in the received bytes it reads
  bytes of the buffer that were never written.\<close>

primrec server_messages :: "int \<Rightarrow> nat list \<Rightarrow> unit sprog" where
  "server_messages their_fd [] = Ret ()"
| "server_messages their_fd (i # is) =
     bindP (os (Print_line (''srt recvmsg #'' @ nat_to_string i @ ''... ''))) (\<lambda>_.
     bindP (srt (Srt_recvmsg their_fd 2048)) (\<lambda>st.
     if r_int st = SRT_ERROR then bindP (sample_error ''srt_recvmsg: '') (\<lambda>_. Ret ())
     else if CHR 0x00 \<notin> set (r_bytes st) then Exc (Undefined ''uninitialised buffer'')
     else
       bindP (os (Print_line (''Got msg of len '' @ int_to_string (r_int st) @ '' << '' @ c_str (r_bytes st)))) (\<lambda>_.
       server_messages their_fd is)))"

definition server_listen :: "int \<Rightarrow> byte list \<Rightarrow> int sprog" where
  "server_listen ss sa =
     bindP (os (Print_line ''srt setsockflag'')) (\<lambda>_.
     bindP (srt (Srt_setsockopt ss SRTO_RCVSYN (OV_int 1))) (\<lambda>f.
     if r_int f = SRT_ERROR then sample_error ''srt_setsockflag: ''
     else
       bindP (os (Print_line ''srt bind'')) (\<lambda>_.
       bindP (srt (Srt_bind ss sa (int sizeof_sin))) (\<lambda>b.
       if r_int b = SRT_ERROR then sample_error ''srt_bind: ''
       else
         bindP (os (Print_line ''srt listen'')) (\<lambda>_.
         bindP (srt (Srt_listen ss 2)) (\<lambda>l.
         if r_int l = SRT_ERROR then sample_error ''srt_listen: ''
         else
           bindP (os (Print_line ''srt accept'')) (\<lambda>_.
           bindP (srt (Srt_accept ss)) (\<lambda>their_fd.
           if r_int their_fd = SRT_INVALID_SOCK then sample_error ''srt_accept: ''
           else bindP (server_messages (r_int their_fd) [0..<100]) (\<lambda>_. client_close ss)))))))))"

definition server_main :: "byte list \<Rightarrow> string list \<Rightarrow> int sprog" where
  "server_main stack argv =
     (if length argv \<noteq> 3 then bindP (os (Print_line (usage_line argv))) (\<lambda>_. Ret 1)
      else
        bindP (os (Print_line ''srt startup'')) (\<lambda>_.
        bindP (srt Srt_startup) (\<lambda>_.
        bindP (os (Print_line ''srt socket'')) (\<lambda>_.
        bindP (srt Srt_create_socket) (\<lambda>s.
        if r_int s = SRT_ERROR then sample_error ''srt_socket: ''
        else
          bindP (os (Print_line ''srt bind address'')) (\<lambda>_.
          bindP (os (Inet_pton AF_INET (argv ! 1))) (\<lambda>a.
          if r_int a \<noteq> 1 then Ret 1
          else server_listen (r_int s) (sample_sockaddr stack (argv ! 2) (r_raw a)))))))))"

subsection \<open>What the client sends\<close>

lemma sample_events [simp]:
  "sent_messages ((Os c, r) # t) = sent_messages t"
  "sent_messages ((Srt (Srt_sendmsg2 s m), r) # t) = (if r_int r \<noteq> SRT_ERROR then (s, m) # sent_messages t else sent_messages t)"
  "sent_messages ((Srt Srt_getlasterror_str, r) # t) = sent_messages t" "sent_messages [] = []"
  "closed_sockets ((Os c, r) # t) = closed_sockets t" "closed_sockets ((Srt (Srt_sendmsg2 s m), r) # t) = closed_sockets t"
  "closed_sockets ((Srt (Srt_close s), r) # t) = s # closed_sockets t"
  "closed_sockets ((Srt Srt_getlasterror_str, r) # t) = closed_sockets t" "closed_sockets [] = []"
  by (simp_all add: projection_defs)

lemma runs_sample_error:
  "runs (sample_error w) tr out \<Longrightarrow> out = Ok 1 \<and> sent_messages tr = [] \<and> closed_sockets tr = []"
  by (auto simp: sample_error_def runs_Call simp del: runs.simps(4))

lemma client_messages_runs:
  "runs (client_messages ss is) tr out \<Longrightarrow>
   \<exists>n. sent_messages tr = replicate n (ss, message) \<and> closed_sockets tr = [] \<and>
     (out = Ok True \<and> n = length is \<or> out = Ok False \<and> n < length is)"
proof (induction "is" arbitrary: tr)
  case Nil
  then show ?case by simp
next
  case (Cons i "is")
  obtain c where c: "client_messages ss (i # is) = Call (Os c) (\<lambda>_. Call (Srt (Srt_sendmsg2 ss message)) (\<lambda>st.
      if r_int st = SRT_ERROR then bindP (sample_error ''srt_sendmsg: '') (\<lambda>_. Ret False)
      else Call (Os (Sleep_for 1000)) (\<lambda>_. client_messages ss is)))"
    by (simp cong: if_cong)
  from Cons.prems obtain r1 r2 :: reply and t where
    tr: "tr = (Os c, r1) # (Srt (Srt_sendmsg2 ss message), r2) # t" and
    t: "runs (if r_int r2 = SRT_ERROR then bindP (sample_error ''srt_sendmsg: '') (\<lambda>_. Ret False)
      else Call (Os (Sleep_for 1000)) (\<lambda>_. client_messages ss is)) t out"
    unfolding c by (auto simp: runs_Call simp del: runs.simps(4))
  show ?case
  proof (cases "r_int r2 = SRT_ERROR")
    case True
    with t have "out = Ok False \<and> sent_messages t = [] \<and> closed_sockets t = []"
      by (auto simp: runs_bindP dest!: runs_sample_error)
    with True tr show ?thesis by simp
  next
    case False
    with t obtain r3 :: reply and t' where t': "t = (Os (Sleep_for 1000), r3) # t'" "runs (client_messages ss is) t' out"
      by (auto simp: runs_Call simp del: runs.simps(4))
    from Cons.IH[OF t'(2)] obtain n where "sent_messages t' = replicate n (ss, message)" "closed_sockets t' = []"
      "out = Ok True \<and> n = length is \<or> out = Ok False \<and> n < length is" by blast
    with False tr t'(1) show ?thesis by (intro exI[of _ "Suc n"]) auto
  qed
qed

lemma runs_client_close:
  "runs (client_close ss) tr out \<Longrightarrow>
   sent_messages tr = [] \<and> closed_sockets tr = [ss] \<and> (out = Ok 0 \<or> out = Ok 1)"
  by (auto simp: client_close_def projection_defs runs_Call simp del: runs.simps(4) sample_events
      dest!: runs_sample_error split: if_splits)

lemma runs_client_connected:
  assumes "runs (client_connected ss) tr out"
  shows "\<exists>n code. out = Ok code \<and> sent_messages tr = replicate n (ss, message) \<and> n \<le> 100 \<and> (code = 0 \<or> code = 1) \<and>
     (closed_sockets tr = [ss] \<longleftrightarrow> n = 100) \<and> (closed_sockets tr = [] \<longleftrightarrow> n < 100) \<and> (code = 0 \<longrightarrow> n = 100)"
proof -
  have ret: "returns (client_messages ss [0..<100])"
    using client_messages_runs unfolding returns_def by blast
  from assms obtain sent t1 t2 where tr: "tr = t1 @ t2" and r1: "runs (client_messages ss [0..<100]) t1 (Ok sent)"
    and r2: "runs (if \<not> sent then Ret 1 else bindP (os (Sleep_for 1000000)) (\<lambda>_. client_close ss)) t2 out"
    unfolding client_connected_def runs_bindP_returns[OF ret] by blast
  from client_messages_runs[OF r1] obtain n where n: "sent_messages t1 = replicate n (ss, message)" "closed_sockets t1 = []"
    "sent \<and> n = 100 \<or> \<not> sent \<and> n < 100" by auto
  show ?thesis
  proof (cases sent)
    case False
    with r2 n tr show ?thesis by (auto simp: trace_projections_append)
  next
    case True
    with r2 obtain r :: reply and t3 where "t2 = (Os (Sleep_for 1000000), r) # t3" "runs (client_close ss) t3 out"
      by (auto simp: runs_Call simp del: runs.simps(4))
    with True n tr show ?thesis by (auto simp: trace_projections_append dest!: runs_client_close)
  qed
qed

lemma sample_setup_events [simp]:
  "sent_messages ((Srt (Srt_setsockopt s p v), r) # t) = sent_messages t"
  "sent_messages ((Srt (Srt_connect s a l), r) # t) = sent_messages t"
  "sent_messages ((Srt Srt_startup, r) # t) = sent_messages t"
  "sent_messages ((Srt Srt_create_socket, r) # t) = sent_messages t"
  "closed_sockets ((Srt (Srt_setsockopt s p v), r) # t) = closed_sockets t"
  "closed_sockets ((Srt (Srt_connect s a l), r) # t) = closed_sockets t"
  "closed_sockets ((Srt Srt_startup, r) # t) = closed_sockets t"
  "closed_sockets ((Srt Srt_create_socket, r) # t) = closed_sockets t"
  by (simp_all add: projection_defs)

definition client_outcome :: "int \<Rightarrow> strace \<Rightarrow> int outcome \<Rightarrow> bool" where
  "client_outcome ss tr out \<longleftrightarrow>
     (\<exists>n code. out = Ok code \<and> sent_messages tr = replicate n (ss, message) \<and> n \<le> 100 \<and> (code = 0 \<or> code = 1) \<and>
       (closed_sockets tr = [ss] \<longleftrightarrow> n = 100) \<and> (closed_sockets tr = [] \<longleftrightarrow> n < 100) \<and> (code = 0 \<longrightarrow> n = 100))"

lemma client_outcome_failed:
  "sent_messages tr = [] \<Longrightarrow> closed_sockets tr = [] \<Longrightarrow> client_outcome ss tr (Ok 1)"
  by (simp add: client_outcome_def)

lemma runs_client_connect:
  assumes "runs (client_connect ss sa) tr out"
  shows "client_outcome ss tr out"
proof -
  from assms consider
      w t0 t where "tr = t0 @ t" "runs (sample_error w) t out" "sent_messages t0 = []" "closed_sockets t0 = []"
    | t0 t where "tr = t0 @ t" "runs (client_connected ss) t out" "sent_messages t0 = []" "closed_sockets t0 = []"
    unfolding client_connect_def bindP_callP runs_Call
    by (auto simp: runs_if runs_Call simp del: runs.simps(4) split: if_splits)
      (metis append_Cons append_Nil sample_events(1,4,5,9) sample_setup_events)+
  then show ?thesis
  proof cases
    case 1
    then show ?thesis by (auto simp: trace_projections_append intro!: client_outcome_failed dest!: runs_sample_error)
  next
    case 2
    with runs_client_connected[of ss t out] show ?thesis by (simp add: client_outcome_def trace_projections_append)
  qed
qed

text \<open>The sample client. Every run ends with code 0 or 1. All the messages that the transport accepted are the
  one fixed message, on the one socket, at most 100 of them; the exit code is 0 only after all 100; and
  the socket is closed exactly when all 100 were accepted, so that every other run leaves it open.\<close>

theorem client_main_sends:
  assumes "runs (client_main stack argv) tr out"
  shows "\<exists>ss n code. out = Ok code \<and> code \<in> {0, 1} \<and> sent_messages tr = replicate n (ss, message) \<and> n \<le> 100 \<and>
     (code = 0 \<longrightarrow> n = 100) \<and> closed_sockets tr = (if n = 100 then [ss] else [])"
proof -
  have c: "\<exists>ss. client_outcome ss tr out"
  proof (cases "length argv = 3")
    case False
    with assms show ?thesis
      by (auto simp: client_main_def runs_Call simp del: runs.simps(4) intro!: exI client_outcome_failed)
  next
    case True
    let ?go = "\<lambda>s a. if r_int a \<noteq> 1 then Ret 1 else client_connect (r_int s) (sample_sockaddr stack (argv ! 2) (r_raw a))"
    from assms True obtain r1 r2 r3 s :: reply and t where
      tr: "tr = (Os (Print_line ''srt startup''), r1) # (Srt Srt_startup, r2) # (Os (Print_line ''srt socket''), r3)
             # (Srt Srt_create_socket, s) # t"
      and t: "runs (if r_int s = SRT_ERROR then sample_error ''srt_socket: ''
          else bindP (os (Print_line ''srt remote address'')) (\<lambda>_. bindP (os (Inet_pton AF_INET (argv ! 1))) (?go s))) t out"
      by (auto simp: client_main_def runs_Call simp del: runs.simps(4))
    show ?thesis
    proof (cases "r_int s = SRT_ERROR")
      case True
      with t tr show ?thesis by (auto dest!: runs_sample_error intro!: exI client_outcome_failed)
    next
      case False
      with t obtain r4 a :: reply and t' where
        t': "t = (Os (Print_line ''srt remote address''), r4) # (Os (Inet_pton AF_INET (argv ! 1)), a) # t'" "runs (?go s a) t' out"
        by (auto simp: runs_Call simp del: runs.simps(4))
      then have "client_outcome (r_int s) t' out"
        by (auto simp: client_outcome_failed dest!: runs_client_connect split: if_splits)
      with tr t'(1) show ?thesis by (auto simp: client_outcome_def)
    qed
  qed
  then obtain ss n code where "out = Ok code" "sent_messages tr = replicate n (ss, message)" "n \<le> 100" "code = 0 \<or> code = 1"
      "closed_sockets tr = [ss] \<longleftrightarrow> n = 100" "closed_sockets tr = [] \<longleftrightarrow> n < 100" "code = 0 \<longrightarrow> n = 100"
    unfolding client_outcome_def by blast
  then show ?thesis by (intro exI[of _ ss] exI[of _ n] exI[of _ code]) auto
qed

definition second_refused :: "strace \<Rightarrow> call \<Rightarrow> reply" where
  "second_refused h c = rint (if sent_messages h \<noteq> [] \<and> c = Srt (Srt_sendmsg2 1 message) then -1 else 1)"

theorem client_main_sends_witness:
  "snd (exec (client_main (replicate 16 0) [''client'', ''::1'', ''1'']) second_refused []) = Ok 1 \<and>
   closed_sockets (fst (exec (client_main (replicate 16 0) [''client'', ''::1'', ''1'']) second_refused [])) = []"
proof -
  let ?p = "client_main (replicate 16 0) [''client'', ''::1'', ''1'']"
  have n: "[0..<100] = 0 # 1 # [2..<100]" by (simp add: upt_conv_Cons del: upt_rec_numeral)
  have "sent_messages (fst (exec ?p second_refused [])) = [(1, message)]"
    and o: "snd (exec ?p second_refused []) = Ok 1"
    by (simp_all add: client_main_def client_connect_def client_connected_def n second_refused_def sample_error_def Let_def
        SRT_ERROR_def trace_projections_append)
  with client_main_sends[OF runs_exec, of "replicate 16 0" "[''client'', ''::1'', ''1'']" second_refused "[]"]
  obtain ss n where s: "[(1, message)] = replicate n (ss, message)"
    and c: "closed_sockets (fst (exec ?p second_refused [])) = (if n = 100 then [ss] else [])" by auto
  from arg_cong[OF s, of length] have "n = 1" by simp
  with c o show ?thesis by simp
qed

end
